(* ===== verification/Prelude.thy ===== *)
theory Prelude
  imports Main "HOL-Library.Word"
begin

text \<open>
  What every pallet shares: the machine integers of the runtime with Rust's checked,
  saturating and truncating operations, the error values, and the state-and-error
  actions in which the pallets' functions are written, with a weakest-precondition
  calculus for them. Nothing in this theory models a file of the repository; it is
  the vocabulary of the other theories.
\<close>

section \<open>Types of the runtime\<close>

text \<open>
  The pallets are generic in their configuration. The runtime instantiates the balance
  by \<open>u128\<close>, the block number by \<open>u32\<close>; account identifiers and hashes are opaque byte
  arrays of which the code uses equality and, for sorting, the lexicographic order. They
  are read here as big-endian numbers.
\<close>

type_synonym u8 = "8 word"
type_synonym u16 = "16 word"
type_synonym u32 = "32 word"
type_synonym u64 = "64 word"
type_synonym u128 = "128 word"
type_synonym Balance = u128
type_synonym BlockNumber = u32
type_synonym AccountId = nat
type_synonym Hash = nat
type_synonym PeerId = "u8 list"
type_synonym Podr2Key = "u8 list"
type_synonym Mrenclave = "u8 list"
type_synonym NodePublicKey = "u8 list"
type_synonym bytes = "u8 list"

named_theorems arith_wp \<open>how the checked operations act, read through unat\<close>

section \<open>Checked, saturating and truncating arithmetic\<close>

definition checked_add :: "'a::len word \<Rightarrow> 'a word \<Rightarrow> 'a word option" where
  "checked_add a b = (if unat a + unat b < 2 ^ LENGTH('a) then Some (a + b) else None)"

definition checked_sub :: "'a::len word \<Rightarrow> 'a word \<Rightarrow> 'a word option" where
  "checked_sub a b = (if unat b \<le> unat a then Some (a - b) else None)"

definition checked_mul :: "'a::len word \<Rightarrow> 'a word \<Rightarrow> 'a word option" where
  "checked_mul a b = (if unat a * unat b < 2 ^ LENGTH('a) then Some (a * b) else None)"

definition checked_div :: "'a::len word \<Rightarrow> 'a word \<Rightarrow> 'a word option" where
  "checked_div a b = (if b = 0 then None else Some (a div b))"

definition saturating_add :: "'a::len word \<Rightarrow> 'a word \<Rightarrow> 'a word" where
  "saturating_add a b = (if unat a + unat b < 2 ^ LENGTH('a) then a + b else -1)"

definition saturating_sub :: "'a::len word \<Rightarrow> 'a word \<Rightarrow> 'a word" where
  "saturating_sub a b = (if unat b \<le> unat a then a - b else 0)"

definition saturating_mul :: "'a::len word \<Rightarrow> 'a word \<Rightarrow> 'a word" where
  "saturating_mul a b = (if unat a * unat b < 2 ^ LENGTH('a) then a * b else -1)"

text \<open>\<open>saturated_into\<close> clamps to the target's largest value; \<open>as\<close> is \<open>ucast\<close>, which truncates.\<close>

definition saturated_into :: "'a::len word \<Rightarrow> 'b::len word" where
  "saturated_into a = (if unat a < 2 ^ LENGTH('b) then ucast a else -1)"

text \<open>A length (\<open>usize\<close>) cast to a machine integer.\<close>

definition len_as :: "'x list \<Rightarrow> 'a::len word" where
  "len_as xs = of_nat (length xs)"

lemma unat_lt: "unat (a :: 'a::len word) < 2 ^ LENGTH('a)"
  by (rule unsigned_less)

lemma unat_add_eq: "unat a + unat b < 2 ^ LENGTH('a) \<Longrightarrow> unat (a + b) = unat a + unat (b :: 'a::len word)"
  by (simp add: unat_word_ariths)

lemma unat_mult_eq: "unat a * unat b < 2 ^ LENGTH('a) \<Longrightarrow> unat (a * b) = unat a * unat (b :: 'a::len word)"
  by (simp add: unat_word_ariths)

lemma unat_minus_eq: "unat b \<le> unat a \<Longrightarrow> unat (a - b) = unat a - unat (b :: 'a::len word)"
  by (simp add: unat_sub word_le_nat_alt)

lemma unat_ucast_up [simp]:
  "unat (ucast (x8 :: u8) :: u32) = unat x8" "unat (ucast (x8 :: u8) :: u64) = unat x8"
  "unat (ucast (x8 :: u8) :: u128) = unat x8" "unat (ucast (x16 :: u16) :: u32) = unat x16"
  "unat (ucast (x16 :: u16) :: u64) = unat x16" "unat (ucast (x16 :: u16) :: u128) = unat x16"
  "unat (ucast (x32 :: u32) :: u64) = unat x32" "unat (ucast (x32 :: u32) :: u128) = unat x32"
  "unat (ucast (x64 :: u64) :: u128) = unat x64"
  by (simp_all add: unsigned_ucast_eq take_bit_nat_eq_self_iff less_le_trans [OF unat_lt])

lemma checked_add_Some [arith_wp]:
  "checked_add a b = Some c \<longleftrightarrow> unat c = unat a + unat (b :: 'a::len word)"
proof
  assume "checked_add a b = Some c"
  then show "unat c = unat a + unat b"
    by (auto simp: checked_add_def unat_add_eq split: if_splits)
next
  assume *: "unat c = unat a + unat b"
  with unat_lt [of c] have "unat a + unat b < 2 ^ LENGTH('a)" by simp
  moreover from this * have "c = a + b" by (simp add: word_unat_eq_iff unat_add_eq)
  ultimately show "checked_add a b = Some c" by (simp add: checked_add_def)
qed

lemma checked_add_None: "checked_add a b = None \<longleftrightarrow> 2 ^ LENGTH('a) \<le> unat a + unat (b :: 'a::len word)"
  by (simp add: checked_add_def)

lemma checked_sub_Some [arith_wp]:
  "checked_sub a b = Some c \<longleftrightarrow> unat a = unat b + unat (c :: 'a::len word)"
proof
  assume "checked_sub a b = Some c"
  then show "unat a = unat b + unat c"
    by (auto simp: checked_sub_def unat_minus_eq split: if_splits)
next
  assume *: "unat a = unat b + unat c"
  then have "c = a - b" by (simp add: word_unat_eq_iff unat_minus_eq)
  with * show "checked_sub a b = Some c" by (simp add: checked_sub_def)
qed

lemma checked_sub_None: "checked_sub a b = None \<longleftrightarrow> unat a < unat (b :: 'a::len word)"
  by (auto simp: checked_sub_def)

lemma checked_mul_Some [arith_wp]:
  "checked_mul a b = Some c \<longleftrightarrow> unat c = unat a * unat (b :: 'a::len word)"
proof
  assume "checked_mul a b = Some c"
  then show "unat c = unat a * unat b"
    by (auto simp: checked_mul_def unat_mult_eq split: if_splits)
next
  assume *: "unat c = unat a * unat b"
  with unat_lt [of c] have "unat a * unat b < 2 ^ LENGTH('a)" by simp
  moreover from this * have "c = a * b" by (simp add: word_unat_eq_iff unat_mult_eq)
  ultimately show "checked_mul a b = Some c" by (simp add: checked_mul_def)
qed

lemma checked_mul_None: "checked_mul a b = None \<longleftrightarrow> 2 ^ LENGTH('a) \<le> unat a * unat (b :: 'a::len word)"
  by (simp add: checked_mul_def)

lemma checked_div_Some [arith_wp]:
  "checked_div a b = Some c \<longleftrightarrow> b \<noteq> 0 \<and> unat c = unat a div unat (b :: 'a::len word)"
  by (auto simp: checked_div_def word_unat_eq_iff unat_div)

lemma checked_div_None: "checked_div a b = None \<longleftrightarrow> b = 0"
  by (simp add: checked_div_def)

lemma unat_saturating_sub [simp]: "unat (saturating_sub a b) = unat a - unat (b :: 'a::len word)"
  by (simp add: saturating_sub_def unat_minus_eq)

lemma unat_minus_one_max: "unat (-1 :: 'a::len word) = 2 ^ LENGTH('a) - 1"
  by (simp add: unsigned_minus_1_eq_mask mask_eq_exp_minus_1)

lemma unat_saturating_add: "unat (saturating_add a b) = min (unat a + unat b) (2 ^ LENGTH('a) - 1)"
  for a b :: "'a::len word"
  by (auto simp: saturating_add_def unat_add_eq unat_minus_one_max)

lemma unat_saturating_mul: "unat (saturating_mul a b) = min (unat a * unat b) (2 ^ LENGTH('a) - 1)"
  for a b :: "'a::len word"
  by (auto simp: saturating_mul_def unat_mult_eq unat_minus_one_max)

lemma saturated_into_id [simp]: "saturated_into a = (a :: 'a::len word)"
  by (simp add: saturated_into_def unat_lt)

lemma unat_saturated_into: "unat (saturated_into a :: 'b::len word) = min (unat a) (2 ^ LENGTH('b) - 1)"
  for a :: "'a::len word"
  by (auto simp: saturated_into_def unat_minus_one_max unsigned_ucast_eq take_bit_eq_mod)

lemma unat_len_as: "length xs < 2 ^ LENGTH('a) \<Longrightarrow> unat (len_as xs :: 'a::len word) = length xs"
  by (simp add: len_as_def unat_of_nat)

lemmas word_order = word_le_nat_alt word_less_nat_alt

section \<open>Sums over the entries of a storage map\<close>

definition total_over :: "('v \<Rightarrow> nat) \<Rightarrow> ('k \<rightharpoonup> 'v) \<Rightarrow> nat" where
  "total_over f m = (\<Sum>k\<in>dom m. f (the (m k)))"

lemma total_over_split:
  assumes "finite (dom m)" and "m k = Some v"
  shows "total_over f m = f v + (\<Sum>j\<in>dom m - {k}. f (the (m j)))"
  using assms by (simp add: total_over_def sum.remove [of "dom m" k] domIff)

lemma total_over_new [simp]:
  assumes "finite (dom m)" and "m k = None"
  shows "total_over f (m(k \<mapsto> v)) = total_over f m + f v"
proof -
  have "(\<Sum>j\<in>dom m. f (the ((m(k \<mapsto> v)) j))) = total_over f m"
    unfolding total_over_def using assms(2) by (intro sum.cong) auto
  with assms show ?thesis by (simp add: total_over_def domIff)
qed

lemma total_over_upd:
  assumes "finite (dom m)" and "m k = Some w"
  shows "total_over f (m(k \<mapsto> v)) + f w = total_over f m + f v"
proof -
  have "(\<Sum>j\<in>dom m - {k}. f (the ((m(k \<mapsto> v)) j))) = (\<Sum>j\<in>dom m - {k}. f (the (m j)))"
    by (intro sum.cong) auto
  moreover have "dom (m(k \<mapsto> v)) = dom m" using assms(2) by auto
  ultimately show ?thesis
    using assms total_over_split [of "m(k \<mapsto> v)" k v f] total_over_split [of m k w f] by simp
qed

lemma total_over_del:
  assumes "finite (dom m)" and "m k = Some w"
  shows "total_over f (m(k := None)) + f w = total_over f m"
proof -
  have "total_over f (m(k := None)) = (\<Sum>j\<in>dom m - {k}. f (the (m j)))"
    unfolding total_over_def by (intro sum.cong) auto
  with assms show ?thesis using total_over_split [of m k w f] by simp
qed

lemma total_over_same:
  assumes "finite (dom m)" and "m k = Some w" and "f v = f w"
  shows "total_over f (m(k \<mapsto> v)) = total_over f m"
  using total_over_upd [OF assms(1,2), of f v] assms(3) by simp

lemma total_over_ge: "finite (dom m) \<Longrightarrow> m k = Some v \<Longrightarrow> f v \<le> total_over f m"
  using total_over_split [of m k v f] by simp

lemma total_over_empty [simp]: "total_over f Map.empty = 0"
  by (simp add: total_over_def)

end
