(* ===== verification/Dispatch.thy ===== *)
theory Dispatch
  imports Prelude
begin

text \<open>
  Dispatching: the error enumerations of the pallets, the sum \<open>dispatch_error\<close> they are
  converted into by \<open>?\<close>, and actions. An action is a function of the chain state that
  yields a result or an error together with the state it leaves behind; an error does not
  undo the writes made before it, except under \<open>transactional\<close>. The function \<open>wp\<close> gives
  the weakest precondition of an action for a postcondition on success and one on error,
  and the collection \<open>wp_rules\<close> computes it.
\<close>

section \<open>Errors\<close>

datatype sh_error =
    SH_BugInvalid | SH_BoundedVecError | SH_InsufficientAvailableSpace | SH_InsufficientBalance
  | SH_InsufficientStorage | SH_Overflow | SH_WrongOperation | SH_PurchasedSpace
  | SH_NotPurchasedSpace | SH_LeaseFreeze | SH_LeaseExpired

datatype sminer_error =
    SM_NotMiner | SM_AlreadyRegistered | SM_Overflow | SM_NotExisted | SM_LessThan24Hours
  | SM_ConversionError | SM_AlreadyFrozen | SM_LockInNotOver | SM_NotpositiveState
  | SM_StorageLimitReached | SM_BoundedVecError | SM_DataNotExist | SM_NotPurchasedPackage
  | SM_Unexpected | SM_NoReward

datatype fb_error =
    FB_Existed | FB_FileExistent | FB_FileNonExistent | FB_Overflow | FB_NotOwner
  | FB_NotQualified | FB_ScheduleNonExistent | FB_BoundedVecError | FB_StorageLimitReached
  | FB_MinerPowerInsufficient | FB_IsZero | FB_Locked | FB_LengthExceedsLimit | FB_Declarated
  | FB_BugInvalid | FB_ConvertHashError | FB_NoPermission | FB_SameBucketName | FB_NonExistent
  | FB_Unexpected | FB_LessMinLength | FB_Unprepared | FB_IsOwned | FB_SpecError
  | FB_NodesInsufficient | FB_PanicOverflow | FB_InsufficientAvailableSpace | FB_Calculate
  | FB_MinerStateError | FB_Expired

datatype audit_error =
    AU_BoundedVecError | AU_StorageLimitReached | AU_Overflow | AU_NoChallenge
  | AU_ScheduleNonExistent | AU_NonProof | AU_FileTypeError | AU_NotQualified
  | AU_RecordTimeError | AU_OffchainSignedTxError | AU_NoLocalAcctForSigning
  | AU_LengthExceedsLimit | AU_Locked | AU_SystemError | AU_NonExistentMission
  | AU_UnexpectedError

datatype tee_error =
    TW_AlreadyRegistration | TW_NotController | TW_AlreadyReport | TW_BoundedVecError
  | TW_StorageLimitReached | TW_Overflow | TW_NotBond | TW_NonTeeWorker | TW_VerifyCertFailed

datatype oss_error = OSS_NoAuthorization | OSS_Registered | OSS_UnRegister | OSS_OptionParseError

datatype cacher_error = CA_AlreadyRegistered | CA_UnRegistered | CA_OptionParseError

datatype credit_error = SC_Overflow

datatype staking_error =
    ST_NotController | ST_NotStash | ST_AlreadyBonded | ST_AlreadyPaired | ST_EmptyTargets
  | ST_DuplicateIndex | ST_InvalidSlashIndex | ST_InsufficientBond | ST_NoMoreChunks
  | ST_NoUnlockChunk | ST_FundedTarget | ST_InvalidEraToReward | ST_InvalidNumberOfNominations
  | ST_NotSortedAndUnique | ST_AlreadyClaimed | ST_IncorrectHistoryDepth
  | ST_IncorrectSlashingSpans | ST_BadState | ST_TooManyTargets | ST_BadTarget
  | ST_CannotChillOther | ST_TooManyNominators | ST_TooManyValidators | ST_CommissionTooLow
  | ST_BoundNotMet

text \<open>
  \<open>External\<close> is an error raised by code outside the repository (the balances pallet, the
  scheduler), \<open>ArithmeticOverflow\<close> the framework's \<open>ArithmeticError::Overflow\<close>; \<open>Panicked\<close> is a Rust panic, which no caller can handle.
\<close>

datatype dispatch_error =
    BadOrigin
  | External nat
  | StorageHandler sh_error
  | Sminer sminer_error
  | FileBank fb_error
  | Audit audit_error
  | TeeWorker tee_error
  | Oss oss_error
  | Cacher cacher_error
  | Credit credit_error
  | Staking staking_error
  | ArithmeticOverflow
  | Panicked

section \<open>Actions\<close>

type_synonym ('s, 'a) act = "'s \<Rightarrow> (dispatch_error + 'a) \<times> 's"

definition ret :: "'a \<Rightarrow> ('s, 'a) act" where
  "ret x s = (Inr x, s)"

definition throw :: "dispatch_error \<Rightarrow> ('s, 'a) act" where
  "throw e s = (Inl e, s)"

definition bnd :: "('s, 'a) act \<Rightarrow> ('a \<Rightarrow> ('s, 'b) act) \<Rightarrow> ('s, 'b) act" where
  "bnd m k s = (case m s of (Inl e, t) \<Rightarrow> (Inl e, t) | (Inr x, t) \<Rightarrow> k x t)"

definition andthen :: "('s, 'a) act \<Rightarrow> ('s, 'b) act \<Rightarrow> ('s, 'b) act" where
  "andthen m n = bnd m (\<lambda>_. n)"

definition ensure :: "bool \<Rightarrow> dispatch_error \<Rightarrow> ('s, unit) act" where
  "ensure c e = (if c then ret () else throw e)"

definition ok_or :: "'a option \<Rightarrow> dispatch_error \<Rightarrow> ('s, 'a) act" where
  "ok_or v e = (case v of None \<Rightarrow> throw e | Some x \<Rightarrow> ret x)"

definition lift :: "dispatch_error + 'a \<Rightarrow> ('s, 'a) act" where
  "lift r s = (r, s)"

definition gets :: "('s \<Rightarrow> 'a) \<Rightarrow> ('s, 'a) act" where
  "gets f s = (Inr (f s), s)"

definition modify :: "('s \<Rightarrow> 's) \<Rightarrow> ('s, unit) act" where
  "modify f s = (Inr (), f s)"

text \<open>\<open>#[transactional]\<close>: an error leaves the state as it was.\<close>

definition transactional :: "('s, 'a) act \<Rightarrow> ('s, 'a) act" where
  "transactional m s = (case m s of (Inl e, t) \<Rightarrow> (Inl e, s) | (Inr x, t) \<Rightarrow> (Inr x, t))"

text \<open>
  Looking at a \<open>Result\<close> without propagating its error (\<open>match\<close>, \<open>if let Ok\<close>, \<open>let _ =\<close>): the
  writes made before the error stay. A panic is not a \<open>Result\<close> and goes through.
\<close>

definition attempt :: "('s, 'a) act \<Rightarrow> ('s, dispatch_error + 'a) act" where
  "attempt m s = (case m s of (r, t) \<Rightarrow> (if r = Inl Panicked then (Inl Panicked, t) else (Inr r, t)))"

definition act_when :: "bool \<Rightarrow> ('s, unit) act \<Rightarrow> ('s, unit) act" where
  "act_when c m = (if c then m else ret ())"

text \<open>Guards on the state, and on the origin of a call.\<close>

definition ensures :: "('s \<Rightarrow> bool) \<Rightarrow> dispatch_error \<Rightarrow> ('s, unit) act" where
  "ensures P e = bnd (gets P) (\<lambda>c. ensure c e)"

definition gets_some :: "('s \<Rightarrow> 'a option) \<Rightarrow> dispatch_error \<Rightarrow> ('s, 'a) act" where
  "gets_some f e = bnd (gets f) (\<lambda>v. ok_or v e)"

datatype origin = RootOrigin | SignedOrigin AccountId | NoneOrigin

definition ensure_signed :: "origin \<Rightarrow> ('s, AccountId) act" where
  "ensure_signed origin = (case origin of SignedOrigin a \<Rightarrow> ret a | _ \<Rightarrow> throw BadOrigin)"

definition ensure_root :: "origin \<Rightarrow> ('s, unit) act" where
  "ensure_root origin = (case origin of RootOrigin \<Rightarrow> ret () | _ \<Rightarrow> throw BadOrigin)"

definition ensure_none :: "origin \<Rightarrow> ('s, unit) act" where
  "ensure_none origin = (case origin of NoneOrigin \<Rightarrow> ret () | _ \<Rightarrow> throw BadOrigin)"

text \<open>A \<open>for\<close> loop over a list, without and with an accumulator.\<close>

fun for_each :: "('x \<Rightarrow> ('s, unit) act) \<Rightarrow> 'x list \<Rightarrow> ('s, unit) act" where
  "for_each f [] = ret ()"
| "for_each f (x # xs) = andthen (f x) (for_each f xs)"

fun fold_act :: "('x \<Rightarrow> 'a \<Rightarrow> ('s, 'a) act) \<Rightarrow> 'x list \<Rightarrow> 'a \<Rightarrow> ('s, 'a) act" where
  "fold_act f [] a = ret a"
| "fold_act f (x # xs) a = bnd (f x a) (fold_act f xs)"

section \<open>Storage\<close>

text \<open>
  A storage map is a partial function. \<open>try_mutate\<close> hands the optional value to a closure and
  writes back what the closure made of it, unless the closure fails. Storage items with
  \<open>ValueQuery\<close> read as a default where they hold nothing (\<open>get_or\<close>).
\<close>

definition contains_key :: "('k \<rightharpoonup> 'v) \<Rightarrow> 'k \<Rightarrow> bool" where
  "contains_key m k \<longleftrightarrow> m k \<noteq> None"

definition get_or :: "'v \<Rightarrow> ('k \<rightharpoonup> 'v) \<Rightarrow> 'k \<Rightarrow> 'v" where
  "get_or d m k = (case m k of None \<Rightarrow> d | Some v \<Rightarrow> v)"

definition remove_prefix :: "('a \<times> 'b \<rightharpoonup> 'v) \<Rightarrow> 'a \<Rightarrow> ('a \<times> 'b \<rightharpoonup> 'v)" where
  "remove_prefix m a = (\<lambda>k. if fst k = a then None else m k)"

definition try_mutate ::
  "('s \<Rightarrow> ('k \<rightharpoonup> 'v)) \<Rightarrow> ((('k \<rightharpoonup> 'v) \<Rightarrow> ('k \<rightharpoonup> 'v)) \<Rightarrow> 's \<Rightarrow> 's) \<Rightarrow> 'k
     \<Rightarrow> ('v option \<Rightarrow> ('s, 'r \<times> 'v option) act) \<Rightarrow> ('s, 'r) act" where
  "try_mutate get upd k f =
     bnd (gets (\<lambda>s. get s k)) (\<lambda>v.
     bnd (f v) (\<lambda>(r, v').
     andthen (modify (upd (\<lambda>m. m(k := v'))))
       (ret r)))"

text \<open>The closure's common shape: \<open>let x = opt.as_mut().ok_or(e)?; ...; Ok(())\<close>.\<close>

definition try_mutate_some ::
  "('s \<Rightarrow> ('k \<rightharpoonup> 'v)) \<Rightarrow> ((('k \<rightharpoonup> 'v) \<Rightarrow> ('k \<rightharpoonup> 'v)) \<Rightarrow> 's \<Rightarrow> 's) \<Rightarrow> 'k \<Rightarrow> dispatch_error
     \<Rightarrow> ('v \<Rightarrow> ('s, 'v) act) \<Rightarrow> ('s, unit) act" where
  "try_mutate_some get upd k e f =
     try_mutate get upd k (\<lambda>o'.
       bnd (ok_or o' e) (\<lambda>v.
       bnd (f v) (\<lambda>v'.
       ret ((), Some v'))))"

text \<open>\<open>BoundedVec::try_push\<close> and \<open>try_append\<close>: nothing is added beyond the bound.\<close>

definition try_push :: "nat \<Rightarrow> 'a list \<Rightarrow> 'a \<Rightarrow> 'a list option" where
  "try_push n xs x = (if length xs < n then Some (xs @ [x]) else None)"

definition try_append :: "nat \<Rightarrow> 'a list \<Rightarrow> 'a list \<Rightarrow> 'a list option" where
  "try_append n xs ys = (if length xs + length ys \<le> n then Some (xs @ ys) else None)"

definition bounded :: "nat \<Rightarrow> 'a list \<Rightarrow> 'a list option" where
  "bounded n xs = (if length xs \<le> n then Some xs else None)"

text \<open>\<open>Vec::remove\<close>, which panics beyond the end.\<close>

definition vec_remove :: "nat \<Rightarrow> 'a list \<Rightarrow> 'a list option" where
  "vec_remove i xs = (if i < length xs then Some (take i xs @ drop (Suc i) xs) else None)"

section \<open>Weakest preconditions\<close>

definition wp :: "('s, 'a) act \<Rightarrow> ('a \<Rightarrow> 's \<Rightarrow> bool) \<Rightarrow> (dispatch_error \<Rightarrow> 's \<Rightarrow> bool) \<Rightarrow> 's \<Rightarrow> bool" where
  "wp m Q E s = (case m s of (Inl e, t) \<Rightarrow> E e t | (Inr x, t) \<Rightarrow> Q x t)"

abbreviation any_error :: "dispatch_error \<Rightarrow> 's \<Rightarrow> bool" where
  "any_error \<equiv> \<lambda>_ _. True"

abbreviation no_error :: "dispatch_error \<Rightarrow> 's \<Rightarrow> bool" where
  "no_error \<equiv> \<lambda>_ _. False"

named_theorems wp_rules \<open>weakest preconditions of the actions\<close>

lemma wp_ret [wp_rules]: "wp (ret x) Q E = Q x"
  by (simp add: wp_def ret_def fun_eq_iff)

lemma wp_throw [wp_rules]: "wp (throw e) Q E = E e"
  by (simp add: wp_def throw_def fun_eq_iff)

lemma wp_bnd [wp_rules]: "wp (bnd m k) Q E = wp m (\<lambda>x. wp (k x) Q E) E"
  by (simp add: wp_def bnd_def fun_eq_iff split: prod.split sum.split)

lemma wp_andthen [wp_rules]: "wp (andthen m n) Q E = wp m (\<lambda>_. wp n Q E) E"
  by (simp add: andthen_def wp_bnd)

lemma wp_ensure [wp_rules]: "wp (ensure c e) Q E = (\<lambda>s. if c then Q () s else E e s)"
  by (simp add: ensure_def wp_ret wp_throw fun_eq_iff)

lemma wp_ok_or [wp_rules]:
  "wp (ok_or v e) Q E = (\<lambda>s. (\<forall>x. v = Some x \<longrightarrow> Q x s) \<and> (v = None \<longrightarrow> E e s))"
  by (simp add: ok_or_def wp_ret wp_throw fun_eq_iff split: option.split)

lemma wp_lift [wp_rules]:
  "wp (lift r) Q E = (\<lambda>s. (\<forall>x. r = Inr x \<longrightarrow> Q x s) \<and> (\<forall>e. r = Inl e \<longrightarrow> E e s))"
  by (simp add: lift_def wp_def fun_eq_iff split: sum.split)

lemma wp_gets [wp_rules]: "wp (gets f) Q E = (\<lambda>s. Q (f s) s)"
  by (simp add: wp_def gets_def fun_eq_iff)

lemma wp_modify [wp_rules]: "wp (modify f) Q E = (\<lambda>s. Q () (f s))"
  by (simp add: wp_def modify_def fun_eq_iff)

lemma wp_transactional [wp_rules]: "wp (transactional m) Q E = (\<lambda>s. wp m Q (\<lambda>e _. E e s) s)"
  by (simp add: wp_def transactional_def fun_eq_iff split: prod.split sum.split)

lemma wp_attempt [wp_rules]:
  "wp (attempt m) Q E = wp m (\<lambda>x. Q (Inr x)) (\<lambda>e t. if e = Panicked then E e t else Q (Inl e) t)"
  by (auto simp add: wp_def attempt_def fun_eq_iff split: prod.split sum.split)

lemma wp_act_when [wp_rules]: "wp (act_when c m) Q E = (\<lambda>s. if c then wp m Q E s else Q () s)"
  by (simp add: act_when_def wp_ret fun_eq_iff)

lemma wp_if [wp_rules]: "wp (if c then m else n) Q E = (\<lambda>s. if c then wp m Q E s else wp n Q E s)"
  by simp

lemma wp_case_option [wp_rules]:
  "wp (case v of None \<Rightarrow> m | Some x \<Rightarrow> n x) Q E =
     (\<lambda>s. (v = None \<longrightarrow> wp m Q E s) \<and> (\<forall>x. v = Some x \<longrightarrow> wp (n x) Q E s))"
  by (simp add: fun_eq_iff split: option.split)

lemma wp_case_sum [wp_rules]:
  "wp (case v of Inl e \<Rightarrow> m e | Inr x \<Rightarrow> n x) Q E =
     (\<lambda>s. (\<forall>e. v = Inl e \<longrightarrow> wp (m e) Q E s) \<and> (\<forall>x. v = Inr x \<longrightarrow> wp (n x) Q E s))"
  by (simp add: fun_eq_iff split: sum.split)

lemma wp_case_prod [wp_rules]: "wp (case p of (a, b) \<Rightarrow> m a b) Q E = wp (m (fst p) (snd p)) Q E"
  by (simp add: split_beta)

lemma wp_let [wp_rules]: "wp (Let v m) Q E = wp (m v) Q E"
  by simp

lemma wp_try_mutate [wp_rules]:
  "wp (try_mutate get upd k f) Q E =
     (\<lambda>s. wp (f (get s k)) (\<lambda>x t. Q (fst x) (upd (\<lambda>m. m(k := snd x)) t)) E s)"
  by (simp add: try_mutate_def wp_bnd wp_andthen wp_gets wp_modify wp_ret wp_case_prod split_beta)

lemma wp_try_mutate_some [wp_rules]:
  "wp (try_mutate_some get upd k e f) Q E =
     (\<lambda>s. (\<forall>v. get s k = Some v \<longrightarrow> wp (f v) (\<lambda>v' t. Q () (upd (\<lambda>m. m(k := Some v')) t)) E s) \<and>
      (get s k = None \<longrightarrow> E e s))"
  by (simp add: try_mutate_some_def wp_try_mutate wp_bnd wp_ok_or wp_ret fun_eq_iff)

lemma wp_ensures [wp_rules]: "wp (ensures P e) Q E = (\<lambda>s. if P s then Q () s else E e s)"
  by (simp add: ensures_def wp_bnd wp_gets wp_ensure)

lemma wp_gets_some [wp_rules]:
  "wp (gets_some f e) Q E = (\<lambda>s. (\<forall>x. f s = Some x \<longrightarrow> Q x s) \<and> (f s = None \<longrightarrow> E e s))"
  by (simp add: gets_some_def wp_bnd wp_gets wp_ok_or)

lemma wp_ensure_signed [wp_rules]:
  "wp (ensure_signed origin) Q E =
     (\<lambda>s. (\<forall>a. origin = SignedOrigin a \<longrightarrow> Q a s) \<and> ((\<forall>a. origin \<noteq> SignedOrigin a) \<longrightarrow> E BadOrigin s))"
  by (auto simp add: ensure_signed_def wp_ret wp_throw fun_eq_iff split: origin.split)

lemma wp_ensure_root [wp_rules]:
  "wp (ensure_root origin) Q E = (\<lambda>s. if origin = RootOrigin then Q () s else E BadOrigin s)"
  by (auto simp add: ensure_root_def wp_ret wp_throw fun_eq_iff split: origin.split)

lemma wp_ensure_none [wp_rules]:
  "wp (ensure_none origin) Q E = (\<lambda>s. if origin = NoneOrigin then Q () s else E BadOrigin s)"
  by (auto simp add: ensure_none_def wp_ret wp_throw fun_eq_iff split: origin.split)

lemma wpD: "wp m Q E s \<Longrightarrow> m s = (Inr x, t) \<Longrightarrow> Q x t"
  by (simp add: wp_def)

lemma wpE: "wp m Q E s \<Longrightarrow> m s = (Inl e, t) \<Longrightarrow> E e t"
  by (simp add: wp_def)

lemma wpI: "(\<And>x t. m s = (Inr x, t) \<Longrightarrow> Q x t) \<Longrightarrow> (\<And>e t. m s = (Inl e, t) \<Longrightarrow> E e t) \<Longrightarrow> wp m Q E s"
  by (auto simp: wp_def split: prod.split sum.split)

lemma wp_mono:
  "wp m Q E s \<Longrightarrow> (\<And>x t. Q x t \<Longrightarrow> Q' x t) \<Longrightarrow> (\<And>e t. E e t \<Longrightarrow> E' e t) \<Longrightarrow> wp m Q' E' s"
  by (auto simp: wp_def split: prod.splits sum.splits)

lemma wp_conj: "wp m Q E s \<Longrightarrow> wp m Q' E' s \<Longrightarrow> wp m (\<lambda>x t. Q x t \<and> Q' x t) (\<lambda>e t. E e t \<and> E' e t) s"
  by (auto simp: wp_def split: prod.splits sum.splits)

text \<open>An action that cannot fail returns a result.\<close>

lemma wp_total: "wp m Q no_error s \<Longrightarrow> \<exists>x t. m s = (Inr x, t) \<and> Q x t"
  by (auto simp: wp_def split: prod.splits sum.splits)

text \<open>A failed transaction leaves no trace.\<close>

lemma transactional_error: "transactional m s = (Inl e, t) \<Longrightarrow> t = s"
  by (auto simp: transactional_def split: prod.splits sum.splits)

lemma wp_for_each_inv:
  assumes "\<And>x t. x \<in> set xs \<Longrightarrow> I t \<Longrightarrow> wp (f x) (\<lambda>_. I) E t" and "I s"
  shows "wp (for_each f xs) (\<lambda>_. I) E s"
  using assms
proof (induction xs arbitrary: s)
  case Nil
  then show ?case by (simp add: wp_ret)
next
  case (Cons x xs)
  have "wp (f x) (\<lambda>_. I) E s" using Cons.prems by simp
  then show ?case
    unfolding for_each.simps wp_andthen
    by (rule wp_mono) (use Cons in simp_all)
qed

lemma wp_for_each_Nil [wp_rules]: "wp (for_each f []) Q E = Q ()"
  by (simp add: wp_ret)

lemma wp_for_each_Cons [wp_rules]:
  "wp (for_each f (x # xs)) Q E = wp (f x) (\<lambda>_. wp (for_each f xs) Q E) E"
  by (simp add: wp_andthen)

lemma wp_fold_act_inv:
  assumes "\<And>x a t. x \<in> set xs \<Longrightarrow> I a t \<Longrightarrow> wp (f x a) I E t" and "I a s"
  shows "wp (fold_act f xs a) I E s"
  using assms
proof (induction xs arbitrary: a s)
  case Nil
  then show ?case by (simp add: wp_ret)
next
  case (Cons x xs)
  have "wp (f x a) I E s" using Cons.prems by simp
  then show ?case
    unfolding fold_act.simps wp_bnd
    by (rule wp_mono) (use Cons in simp_all)
qed

lemma wp_fold_act_prefix:
  assumes "\<And>x a t ys. x \<in> set xs \<Longrightarrow> I ys a t \<Longrightarrow> wp (f x a) (I (ys @ [x])) E t" and "I zs a s"
  shows "wp (fold_act f xs a) (I (zs @ xs)) E s"
  using assms
proof (induction xs arbitrary: a s zs)
  case Nil
  then show ?case by (simp add: wp_ret)
next
  case (Cons x xs)
  have "wp (f x a) (I (zs @ [x])) E s" using Cons.prems by simp
  moreover have "wp (fold_act f xs b) (I (zs @ x # xs)) E t" if "I (zs @ [x]) b t" for b t
    using Cons.IH [of "zs @ [x]"] Cons.prems(1) that by simp
  ultimately show ?case unfolding fold_act.simps wp_bnd by (auto elim: wp_mono)
qed

lemma for_each_map: "for_each f (map g xs) = for_each (\<lambda>x. f (g x)) xs"
  by (induction xs) simp_all

lemma wp_run: "wp m (\<lambda>x t. m s = (Inr x, t)) any_error s"
  by (auto simp: wp_def split: prod.splits sum.splits)

section \<open>Inversion of successful runs\<close>

text \<open>What a successful run of an action says about the runs of its parts.\<close>

named_theorems run_inv \<open>successful runs, taken apart\<close>

lemma ret_Inr [run_inv]: "ret x s = (Inr y, t) \<longleftrightarrow> y = x \<and> t = s"
  by (auto simp: ret_def)

lemma throw_Inr [run_inv]: "throw e s = (Inr y, t) \<longleftrightarrow> False"
  by (simp add: throw_def)

lemma bnd_Inr [run_inv]: "bnd m k s = (Inr y, t) \<longleftrightarrow> (\<exists>x v. m s = (Inr x, v) \<and> k x v = (Inr y, t))"
  by (auto simp: bnd_def split: prod.splits sum.splits)

lemma andthen_Inr [run_inv]:
  "andthen m n s = (Inr y, t) \<longleftrightarrow> (\<exists>x v. m s = (Inr x, v) \<and> n v = (Inr y, t))"
  by (auto simp: andthen_def bnd_def split: prod.splits sum.splits)

lemma ensure_Inr [run_inv]: "ensure c e s = (Inr y, t) \<longleftrightarrow> c \<and> t = s"
  by (auto simp: ensure_def ret_def throw_def)

lemma ensures_Inr [run_inv]: "ensures P e s = (Inr y, t) \<longleftrightarrow> P s \<and> t = s"
  by (auto simp: ensures_def bnd_def gets_def ensure_def ret_def throw_def)

lemma ok_or_Inr [run_inv]: "ok_or v e s = (Inr y, t) \<longleftrightarrow> v = Some y \<and> t = s"
  by (auto simp: ok_or_def ret_def throw_def split: option.splits)

lemma gets_Inr [run_inv]: "gets f s = (Inr y, t) \<longleftrightarrow> y = f s \<and> t = s"
  by (auto simp: gets_def)

lemma gets_some_Inr [run_inv]: "gets_some f e s = (Inr y, t) \<longleftrightarrow> f s = Some y \<and> t = s"
  by (auto simp: gets_some_def bnd_def gets_def ok_or_def ret_def throw_def split: option.splits)

lemma modify_Inr [run_inv]: "modify f s = (Inr y, t) \<longleftrightarrow> t = f s"
  by (auto simp: modify_def)

lemma lift_Inr [run_inv]: "lift r s = (Inr y, t) \<longleftrightarrow> r = Inr y \<and> t = s"
  by (auto simp: lift_def)

lemma act_when_Inr [run_inv]: "act_when c m s = (Inr y, t) \<longleftrightarrow> (if c then m s = (Inr y, t) else t = s)"
  by (auto simp: act_when_def ret_def)

lemma transactional_Inr [run_inv]: "transactional m s = (Inr y, t) \<longleftrightarrow> m s = (Inr y, t)"
  by (auto simp: transactional_def split: prod.splits sum.splits)

lemma ensure_signed_Inr [run_inv]: "ensure_signed origin s = (Inr a, t) \<longleftrightarrow> origin = SignedOrigin a \<and> t = s"
  by (auto simp: ensure_signed_def ret_def throw_def split: origin.splits)

lemma ensure_root_Inr [run_inv]: "ensure_root origin s = (Inr a, t) \<longleftrightarrow> origin = RootOrigin \<and> t = s"
  by (auto simp: ensure_root_def ret_def throw_def split: origin.splits)

lemma ensure_none_Inr [run_inv]: "ensure_none origin s = (Inr a, t) \<longleftrightarrow> origin = NoneOrigin \<and> t = s"
  by (auto simp: ensure_none_def ret_def throw_def split: origin.splits)

lemma try_mutate_Inr [run_inv]:
  "try_mutate get upd k f s = (Inr y, t)
     \<longleftrightarrow> (\<exists>v' w. f (get s k) s = (Inr (y, v'), w) \<and> t = upd (\<lambda>m. m(k := v')) w)"
  by (auto simp: try_mutate_def bnd_Inr andthen_Inr gets_Inr modify_Inr ret_Inr split: prod.splits)

lemma try_mutate_some_Inr [run_inv]:
  "try_mutate_some get upd k e f s = (Inr y, t)
     \<longleftrightarrow> (\<exists>v v' w. get s k = Some v \<and> f v s = (Inr v', w) \<and> t = upd (\<lambda>m. m(k \<mapsto> v')) w)"
  by (auto simp: try_mutate_some_def try_mutate_Inr bnd_Inr ok_or_Inr ret_Inr split: option.splits)

lemma case_option_Inr [run_inv]:
  "(case v of None \<Rightarrow> m | Some x \<Rightarrow> n x) s = (Inr y, t)
     \<longleftrightarrow> v = None \<and> m s = (Inr y, t) \<or> (\<exists>x. v = Some x \<and> n x s = (Inr y, t))"
  by (auto split: option.splits)

lemma case_sum_Inr [run_inv]:
  "(case v of Inl e \<Rightarrow> m e | Inr x \<Rightarrow> n x) s = (Inr y, t)
     \<longleftrightarrow> (\<exists>e. v = Inl e \<and> m e s = (Inr y, t)) \<or> (\<exists>x. v = Inr x \<and> n x s = (Inr y, t))"
  by (auto split: sum.splits)

lemma case_prod_Inr [run_inv]: "(case p of (a, b) \<Rightarrow> m a b) s = (Inr y, t) \<longleftrightarrow> m (fst p) (snd p) s = (Inr y, t)"
  by (simp add: split_beta)

lemma if_Inr [run_inv]:
  "(if c then m else n) s = (Inr y, t) \<longleftrightarrow> c \<and> m s = (Inr y, t) \<or> \<not> c \<and> n s = (Inr y, t)"
  by simp

lemma for_each_Inr [run_inv]:
  "for_each f [] s = (Inr y, t) \<longleftrightarrow> t = s"
  "for_each f (x # xs) s = (Inr y, t) \<longleftrightarrow> (\<exists>v. f x s = (Inr (), v) \<and> for_each f xs v = (Inr y, t))"
  by (auto simp: ret_Inr andthen_Inr)

section \<open>Evaluation\<close>

text \<open>Equations that run an action on a concrete state.\<close>

lemmas run_simps = ret_def throw_def bnd_def andthen_def ensure_def ok_or_def lift_def gets_def
  modify_def transactional_def attempt_def act_when_def try_mutate_def try_mutate_some_def
  ensures_def gets_some_def ensure_signed_def ensure_root_def ensure_none_def

lemma get_or_upd [simp]: "get_or d (m(k \<mapsto> v)) k' = (if k' = k then v else get_or d m k')"
  by (simp add: get_or_def)

lemma get_or_empty [simp]: "get_or d Map.empty k = d"
  by (simp add: get_or_def)

lemma contains_key_upd [simp]: "contains_key (m(k \<mapsto> v)) k' \<longleftrightarrow> k' = k \<or> contains_key m k'"
  by (simp add: contains_key_def)

lemma contains_key_empty [simp]: "\<not> contains_key Map.empty k"
  by (simp add: contains_key_def)

lemma contains_key_dom: "contains_key m k \<longleftrightarrow> k \<in> dom m"
  by (auto simp: contains_key_def)

lemma remove_prefix_apply [simp]:
  "remove_prefix m a (a', b) = (if a' = a then None else m (a', b))"
  by (simp add: remove_prefix_def)

lemma try_push_Some [arith_wp]: "try_push n xs x = Some ys \<longleftrightarrow> length xs < n \<and> ys = xs @ [x]"
  by (auto simp: try_push_def)

lemma try_push_None: "try_push n xs x = None \<longleftrightarrow> n \<le> length xs"
  by (auto simp: try_push_def)

end
