(* ===== verification/Chain.thy ===== *)
theory Chain
  imports Dispatch
begin

text \<open>
  The parts of the runtime that the pallets use and the repository does not contain, and
  the constants of \<open>primitives/common\<close>.

  A pallet's \<open>Config\<close> trait is a record \<open>T\<close> that every definition takes; its fields are the
  trait's constants and the operations of the code it stands for (the balances pallet, the
  fixed-point types of the framework, the order in which a storage map is iterated). What
  the pallets rely on of that code is stated by \<open>currency_laws\<close>, \<open>perbill_laws\<close> and
  \<open>iter_laws\<close>. The record of the chain state starts here with the balances and the block
  number; each pallet extends both records, so that its functions run on the state of the
  whole runtime.
\<close>

section \<open>Constants of \<open>primitives/common\<close>\<close>

definition M_BYTE :: u128 where "M_BYTE = 1048576"
definition G_BYTE :: u128 where "G_BYTE = 1048576 * 1024"
definition T_BYTE :: u128 where "T_BYTE = 1048576 * 1024 * 1024"
definition SEGMENT_SIZE :: u128 where "SEGMENT_SIZE = M_BYTE * 16"
definition FRAGMENT_SIZE :: u128 where "FRAGMENT_SIZE = M_BYTE * 8"
definition CHUNK_COUNT :: u32 where "CHUNK_COUNT = 1024"

lemmas size_defs = M_BYTE_def G_BYTE_def T_BYTE_def SEGMENT_SIZE_def FRAGMENT_SIZE_def CHUNK_COUNT_def

lemma unat_sizes [simp]:
  "unat M_BYTE = 1048576" "unat G_BYTE = 1073741824" "unat T_BYTE = 1099511627776"
  "unat SEGMENT_SIZE = 16777216" "unat FRAGMENT_SIZE = 8388608" "unat CHUNK_COUNT = 1024"
  by (simp_all add: size_defs)

lemma sizes_nonzero [simp]:
  "M_BYTE \<noteq> 0" "G_BYTE \<noteq> 0" "T_BYTE \<noteq> 0" "SEGMENT_SIZE \<noteq> 0" "FRAGMENT_SIZE \<noteq> 0" "CHUNK_COUNT \<noteq> 0"
  by (simp_all add: size_defs)

section \<open>Configuration and state\<close>

record account_data =
  free :: Balance
  reserved :: Balance

type_synonym balances = "AccountId \<Rightarrow> account_data"

record config =
  cur_transfer :: "AccountId \<Rightarrow> AccountId \<Rightarrow> Balance \<Rightarrow> balances \<Rightarrow> dispatch_error + balances"
  cur_reserve :: "AccountId \<Rightarrow> Balance \<Rightarrow> balances \<Rightarrow> dispatch_error + balances"
  cur_unreserve :: "AccountId \<Rightarrow> Balance \<Rightarrow> balances \<Rightarrow> balances"
  cur_can_slash :: "AccountId \<Rightarrow> Balance \<Rightarrow> balances \<Rightarrow> bool"
  cur_resolve_creating :: "AccountId \<Rightarrow> Balance \<Rightarrow> balances \<Rightarrow> balances"
  perbill_from_percent :: "nat \<Rightarrow> u32"
  perbill_mul_floor :: "u32 \<Rightarrow> u128 \<Rightarrow> u128"
  perbill_from_rational :: "u128 \<Rightarrow> u128 \<Rightarrow> u32"
  iter_keys :: "AccountId set \<Rightarrow> AccountId list"

record chain =
  balances :: balances
  block_number :: BlockNumber

text \<open>The currency's operations as actions on the chain state.\<close>

definition transfer ::
  "'t config_scheme \<Rightarrow> AccountId \<Rightarrow> AccountId \<Rightarrow> Balance \<Rightarrow> ('s chain_scheme, unit) act" where
  "transfer T a b v =
     bnd (gets (\<lambda>s. cur_transfer T a b v (balances s))) (\<lambda>r.
     bnd (lift r) (\<lambda>bs.
     modify (balances_update (\<lambda>_. bs))))"

definition reserve :: "'t config_scheme \<Rightarrow> AccountId \<Rightarrow> Balance \<Rightarrow> ('s chain_scheme, unit) act" where
  "reserve T a v =
     bnd (gets (\<lambda>s. cur_reserve T a v (balances s))) (\<lambda>r.
     bnd (lift r) (\<lambda>bs.
     modify (balances_update (\<lambda>_. bs))))"

definition unreserve :: "'t config_scheme \<Rightarrow> AccountId \<Rightarrow> Balance \<Rightarrow> ('s chain_scheme, unit) act" where
  "unreserve T a v = modify (\<lambda>s. s\<lparr>balances := cur_unreserve T a v (balances s)\<rparr>)"

section \<open>Laws of the external code\<close>

text \<open>
  \<open>Currency::transfer\<close> moves the amount between free balances or fails; \<open>reserve\<close> moves it
  from the free to the reserved balance; \<open>unreserve\<close> moves back at most what is reserved, with
  a saturating addition to the free balance; \<open>can_slash\<close> says that the free balance covers the amount.
\<close>

definition transfer_law :: "'t config_scheme \<Rightarrow> bool" where
  "transfer_law T \<longleftrightarrow> (\<forall>a b v bs bs'. cur_transfer T a b v bs = Inr bs' \<longrightarrow>
     (if a = b \<or> v = 0 then bs' = bs
      else unat (free (bs a)) = unat (free (bs' a)) + unat v
         \<and> unat (free (bs' b)) = unat (free (bs b)) + unat v
         \<and> (\<forall>c. reserved (bs' c) = reserved (bs c))
         \<and> (\<forall>c. c \<noteq> a \<longrightarrow> c \<noteq> b \<longrightarrow> bs' c = bs c)))"

definition reserve_law :: "'t config_scheme \<Rightarrow> bool" where
  "reserve_law T \<longleftrightarrow> (\<forall>a v bs bs'. cur_reserve T a v bs = Inr bs' \<longrightarrow>
     unat (free (bs a)) = unat (free (bs' a)) + unat v
   \<and> unat (reserved (bs' a)) = unat (reserved (bs a)) + unat v
   \<and> (\<forall>c. c \<noteq> a \<longrightarrow> bs' c = bs c))"

definition unreserve_law :: "'t config_scheme \<Rightarrow> bool" where
  "unreserve_law T \<longleftrightarrow> (\<forall>a v bs.
     unat (free (cur_unreserve T a v bs a))
       = min (unat (free (bs a)) + min (unat v) (unat (reserved (bs a)))) (2 ^ 128 - 1)
   \<and> unat (reserved (cur_unreserve T a v bs a)) = unat (reserved (bs a)) - unat v
   \<and> (\<forall>c. c \<noteq> a \<longrightarrow> cur_unreserve T a v bs c = bs c))"

definition slash_law :: "'t config_scheme \<Rightarrow> bool" where
  "slash_law T \<longleftrightarrow> (\<forall>a v bs. cur_can_slash T a v bs = (v \<le> free (bs a)))"

definition resolve_law :: "'t config_scheme \<Rightarrow> bool" where
  "resolve_law T \<longleftrightarrow> (\<forall>a v bs. unat (free (bs a)) + unat v < 2 ^ 128 \<longrightarrow>
     cur_resolve_creating T a v bs = bs(a := (bs a)\<lparr>free := free (bs a) + v\<rparr>))"

definition currency_laws :: "'t config_scheme \<Rightarrow> bool" where
  "currency_laws T \<longleftrightarrow>
     transfer_law T \<and> reserve_law T \<and> unreserve_law T \<and> slash_law T \<and> resolve_law T"

definition perbill_laws :: "'t config_scheme \<Rightarrow> bool" where
  "perbill_laws T \<longleftrightarrow>
     (\<forall>n. n \<le> 100 \<longrightarrow> unat (perbill_from_percent T n) = n * 10 ^ 7)
   \<and> (\<forall>p x. unat p \<le> 10 ^ 9 \<longrightarrow> unat (perbill_mul_floor T p x) = unat p * unat x div 10 ^ 9)
   \<and> (\<forall>a b. unat (perbill_from_rational T a b) \<le> 10 ^ 9)"

text \<open>Iterating a storage map visits each of its keys once, in an order the hashing decides.\<close>

definition iter_laws :: "'t config_scheme \<Rightarrow> bool" where
  "iter_laws T \<longleftrightarrow> (\<forall>S. finite S \<longrightarrow> set (iter_keys T S) = S \<and> distinct (iter_keys T S))"

section \<open>Weakest preconditions of the currency's actions\<close>

lemma wp_transfer [wp_rules]:
  "wp (transfer T a b v) Q E = (\<lambda>s.
     (\<forall>bs. cur_transfer T a b v (balances s) = Inr bs \<longrightarrow> Q () (s\<lparr>balances := bs\<rparr>)) \<and>
     (\<forall>e. cur_transfer T a b v (balances s) = Inl e \<longrightarrow> E e s))"
  by (simp add: transfer_def wp_rules fun_eq_iff)

lemma wp_reserve [wp_rules]:
  "wp (reserve T a v) Q E = (\<lambda>s.
     (\<forall>bs. cur_reserve T a v (balances s) = Inr bs \<longrightarrow> Q () (s\<lparr>balances := bs\<rparr>)) \<and>
     (\<forall>e. cur_reserve T a v (balances s) = Inl e \<longrightarrow> E e s))"
  by (simp add: reserve_def wp_rules fun_eq_iff)

lemma wp_unreserve [wp_rules]:
  "wp (unreserve T a v) Q E = (\<lambda>s. Q () (s\<lparr>balances := cur_unreserve T a v (balances s)\<rparr>))"
  by (simp add: unreserve_def wp_rules fun_eq_iff)

lemma transfer_moves:
  assumes "currency_laws T" and "cur_transfer T a b v bs = Inr bs'" and "a \<noteq> b"
  shows "unat (free (bs a)) = unat (free (bs' a)) + unat v"
    and "unat (free (bs' b)) = unat (free (bs b)) + unat v"
    and "c \<noteq> a \<Longrightarrow> c \<noteq> b \<Longrightarrow> bs' c = bs c"
    and "reserved (bs' d) = reserved (bs d)"
proof -
  have "if a = b \<or> v = 0 then bs' = bs
      else unat (free (bs a)) = unat (free (bs' a)) + unat v
         \<and> unat (free (bs' b)) = unat (free (bs b)) + unat v
         \<and> (\<forall>c. reserved (bs' c) = reserved (bs c))
         \<and> (\<forall>c. c \<noteq> a \<longrightarrow> c \<noteq> b \<longrightarrow> bs' c = bs c)"
    using assms(1,2) unfolding currency_laws_def transfer_law_def by blast
  with assms(3) show "unat (free (bs a)) = unat (free (bs' a)) + unat v"
    and "unat (free (bs' b)) = unat (free (bs b)) + unat v"
    and "c \<noteq> a \<Longrightarrow> c \<noteq> b \<Longrightarrow> bs' c = bs c"
    and "reserved (bs' d) = reserved (bs d)"
    by (auto split: if_splits)
qed

lemma reserve_moves:
  assumes "currency_laws T" and "cur_reserve T a v bs = Inr bs'"
  shows "unat (free (bs a)) = unat (free (bs' a)) + unat v"
    and "unat (reserved (bs' a)) = unat (reserved (bs a)) + unat v"
    and "c \<noteq> a \<Longrightarrow> bs' c = bs c"
  using assms unfolding currency_laws_def reserve_law_def by blast+

lemma unreserve_moves:
  assumes "currency_laws T"
  shows "unat (free (cur_unreserve T a v bs a))
       = min (unat (free (bs a)) + min (unat v) (unat (reserved (bs a)))) (2 ^ 128 - 1)"
    and "unat (reserved (cur_unreserve T a v bs a)) = unat (reserved (bs a)) - unat v"
    and "c \<noteq> a \<Longrightarrow> cur_unreserve T a v bs c = bs c"
  using assms unfolding currency_laws_def unreserve_law_def by blast+

lemma transfer_self:
  assumes "currency_laws T" and "cur_transfer T a a v bs = Inr bs'"
  shows "bs' = bs"
proof -
  have "if a = a \<or> v = 0 then bs' = bs
      else unat (free (bs a)) = unat (free (bs' a)) + unat v
         \<and> unat (free (bs' a)) = unat (free (bs a)) + unat v
         \<and> (\<forall>c. reserved (bs' c) = reserved (bs c))
         \<and> (\<forall>c. c \<noteq> a \<longrightarrow> c \<noteq> a \<longrightarrow> bs' c = bs c)"
    using assms unfolding currency_laws_def transfer_law_def by blast
  then show ?thesis by simp
qed

lemma perbill_percent_floor:
  assumes "perbill_laws T" and "n \<le> 100"
  shows "unat (perbill_mul_floor T (perbill_from_percent T n) x) = n * unat x div 100"
proof -
  have "unat (perbill_from_percent T n) = n * 10 ^ 7" and "n * 10 ^ 7 \<le> 10 ^ 9"
    using assms by (auto simp: perbill_laws_def)
  then have "unat (perbill_mul_floor T (perbill_from_percent T n) x) = n * 10 ^ 7 * unat x div 10 ^ 9"
    using assms(1) by (simp add: perbill_laws_def)
  also have "\<dots> = (10 ^ 7 * (n * unat x)) div (10 ^ 7 * 100)"
    by (simp add: mult.commute mult.left_commute)
  also have "\<dots> = n * unat x div 100"
    by (subst div_mult_mult1) simp_all
  finally show ?thesis .
qed

lemma perbill_floor_le:
  assumes "perbill_laws T" and "unat p \<le> 10 ^ 9"
  shows "unat (perbill_mul_floor T p x) \<le> unat x"
proof -
  have "unat (perbill_mul_floor T p x) = unat p * unat x div 10 ^ 9"
    using assms by (simp add: perbill_laws_def)
  also have "\<dots> \<le> 10 ^ 9 * unat x div 10 ^ 9"
    using assms(2) by (intro div_le_mono mult_le_mono1)
  finally show ?thesis by simp
qed

section \<open>A reference instance of the external code\<close>

text \<open>
  Straightforward functions that satisfy the laws. They show that the laws can hold, and the
  concrete examples of the development run on them.
\<close>

definition ref_transfer :: "AccountId \<Rightarrow> AccountId \<Rightarrow> Balance \<Rightarrow> balances \<Rightarrow> dispatch_error + balances" where
  "ref_transfer a b v bs =
     (if a = b \<or> v = 0 then Inr bs
      else if unat v \<le> unat (free (bs a)) \<and> unat (free (bs b)) + unat v < 2 ^ 128
      then Inr (bs(a := (bs a)\<lparr>free := free (bs a) - v\<rparr>, b := (bs b)\<lparr>free := free (bs b) + v\<rparr>))
      else Inl (External 0))"

definition ref_reserve :: "AccountId \<Rightarrow> Balance \<Rightarrow> balances \<Rightarrow> dispatch_error + balances" where
  "ref_reserve a v bs =
     (if unat v \<le> unat (free (bs a)) \<and> unat (reserved (bs a)) + unat v < 2 ^ 128
      then Inr (bs(a := \<lparr>free = free (bs a) - v, reserved = reserved (bs a) + v\<rparr>))
      else Inl (External 1))"

definition ref_unreserve :: "AccountId \<Rightarrow> Balance \<Rightarrow> balances \<Rightarrow> balances" where
  "ref_unreserve a v bs =
     (let moved = (if v \<le> reserved (bs a) then v else reserved (bs a))
      in bs(a := \<lparr>free = saturating_add (free (bs a)) moved, reserved = reserved (bs a) - moved\<rparr>))"

definition ref_from_percent :: "nat \<Rightarrow> u32" where
  "ref_from_percent n = of_nat (min n 100 * 10 ^ 7)"

definition ref_mul_floor :: "u32 \<Rightarrow> u128 \<Rightarrow> u128" where
  "ref_mul_floor p x = of_nat (unat p * unat x div 10 ^ 9)"

definition ref_from_rational :: "u128 \<Rightarrow> u128 \<Rightarrow> u32" where
  "ref_from_rational a b = of_nat (if unat a \<ge> unat b then 10 ^ 9 else unat a * 10 ^ 9 div unat b)"

definition ref_ext :: "'t \<Rightarrow> 't config_scheme" where
  "ref_ext more' = \<lparr>cur_transfer = ref_transfer, cur_reserve = ref_reserve, cur_unreserve = ref_unreserve,
     cur_can_slash = (\<lambda>a v bs. v \<le> free (bs a)),
     cur_resolve_creating = (\<lambda>a v bs. bs(a := (bs a)\<lparr>free := free (bs a) + v\<rparr>)),
     perbill_from_percent = ref_from_percent, perbill_mul_floor = ref_mul_floor,
     perbill_from_rational = ref_from_rational, iter_keys = sorted_list_of_set, \<dots> = more'\<rparr>"

lemma ref_transfer_law: "transfer_law (ref_ext m)"
  by (auto simp: transfer_law_def ref_ext_def ref_transfer_def unat_add_eq unat_minus_eq)

lemma ref_reserve_law: "reserve_law (ref_ext m)"
  by (auto simp: reserve_law_def ref_ext_def ref_reserve_def unat_add_eq unat_minus_eq split: if_splits)

lemma ref_unreserve_law: "unreserve_law (ref_ext m)"
  by (auto simp: unreserve_law_def ref_ext_def ref_unreserve_def Let_def unat_saturating_add unat_minus_eq
      word_order)

lemma ref_slash_law: "slash_law (ref_ext m)"
  by (simp add: slash_law_def ref_ext_def)

lemma ref_resolve_law: "resolve_law (ref_ext m)"
  by (simp add: resolve_law_def ref_ext_def)

lemma ref_currency_laws: "currency_laws (ref_ext m)"
  by (simp add: currency_laws_def ref_transfer_law ref_reserve_law ref_unreserve_law
      ref_slash_law ref_resolve_law)

lemma ref_mul_floor_small:
  assumes "unat (p :: u32) \<le> 10 ^ 9"
  shows "unat (ref_mul_floor p x) = unat p * unat x div 10 ^ 9"
proof -
  have "unat p * unat x div 10 ^ 9 \<le> 10 ^ 9 * unat x div 10 ^ 9"
    using assms by (intro div_le_mono mult_le_mono1)
  also have "\<dots> = unat x" by simp
  also have "\<dots> < 2 ^ 128" using unat_lt [of x] by simp
  finally show ?thesis by (simp add: ref_mul_floor_def unat_of_nat)
qed

lemma ref_from_rational_le: "unat (ref_from_rational a b) \<le> 10 ^ 9"
proof (cases "unat a \<ge> unat b")
  case True
  then show ?thesis by (simp add: ref_from_rational_def)
next
  case False
  then have "unat a * 10 ^ 9 \<le> unat b * 10 ^ 9" by simp
  then have "unat a * 10 ^ 9 div unat b \<le> unat b * 10 ^ 9 div unat b" by (rule div_le_mono)
  also have "\<dots> = 10 ^ 9" using False by simp
  finally show ?thesis using False by (simp add: ref_from_rational_def unat_of_nat)
qed

lemma ref_from_percent_small: "n \<le> 100 \<Longrightarrow> unat (ref_from_percent n) = n * 10 ^ 7"
  unfolding ref_from_percent_def by (subst unat_of_nat) simp

lemma ref_perbill_laws: "perbill_laws (ref_ext m)"
  using ref_from_rational_le
  by (simp add: perbill_laws_def ref_ext_def ref_from_percent_small ref_mul_floor_small)

lemma ref_iter_laws: "iter_laws (ref_ext m)"
  by (simp add: iter_laws_def ref_ext_def)

lemmas ref_laws = ref_currency_laws ref_perbill_laws ref_iter_laws

end
