(* ===== verification/Storage_Handler.thy ===== *)
theory Storage_Handler
  imports Chain
begin

text \<open>
  The storage-handler pallet (\<open>c-pallets/storage-handler\<close>): the leases of storage space that
  users buy, expand and renew, and the network's totals of idle, service and purchased
  space. The record \<open>OwnedSpaceDetails\<close> is a user's lease; the functions follow
  \<open>src/lib.rs\<close> one by one. The locale \<open>space_ledger\<close> is the part of the trait
  \<open>StorageHandle\<close> on which the file bank relies for its deals; it is interpreted on the
  functions of this pallet.

  The lemmas show how each operation moves space between the parts of a lease, that the
  parts keep adding up to the purchased total (\<open>sh_inv\<close>), and where they do not.
\<close>

section \<open>Types and storage\<close>

definition SPACE_NORMAL :: string where "SPACE_NORMAL = ''normal''"
definition SPACE_FROZEN :: string where "SPACE_FROZEN = ''frozen''"
definition SPACE_DEAD :: string where "SPACE_DEAD = ''dead''"

lemmas space_state_defs = SPACE_NORMAL_def SPACE_FROZEN_def SPACE_DEAD_def

record sh_config = config +
  OneDay :: BlockNumber
  FrozenDays :: BlockNumber
  FilbakAccount :: AccountId
  StateStringMax :: nat

record OwnedSpaceDetails =
  total_space :: u128
  used_space :: u128
  locked_space :: u128
  remaining_space :: u128
  start :: BlockNumber
  deadline :: BlockNumber
  lease_state :: string

datatype sh_event =
    BuySpace AccountId u128 Balance
  | ExpansionSpace AccountId u128 Balance
  | RenewalSpace AccountId u32 Balance
  | LeaseExpired AccountId u128
  | LeaseExpireIn24Hours AccountId u128

record sh_state = chain +
  UserOwnedSpace :: "AccountId \<rightharpoonup> OwnedSpaceDetails"
  UnitPrice :: "Balance option"
  TotalIdleSpace :: u128
  TotalServiceSpace :: u128
  PurchasedSpace :: u128
  sh_events :: "sh_event list"

definition sh_deposit_event :: "sh_event \<Rightarrow> ('s sh_state_scheme, unit) act" where
  "sh_deposit_event ev = modify (sh_events_update (\<lambda>es. es @ [ev]))"

definition sh_default_price :: Balance where
  "sh_default_price = 30"

definition sh_genesis_build :: "Balance \<Rightarrow> ('s sh_state_scheme, unit) act" where
  "sh_genesis_build price = modify (UnitPrice_update (\<lambda>_. Some price))"

section \<open>Helpers\<close>

abbreviation SHErr :: "sh_error \<Rightarrow> dispatch_error" where
  "SHErr \<equiv> StorageHandler"

abbreviation try_mutate_space ::
  "AccountId \<Rightarrow> (OwnedSpaceDetails \<Rightarrow> ('s sh_state_scheme, OwnedSpaceDetails) act) \<Rightarrow> ('s sh_state_scheme, unit) act" where
  "try_mutate_space acc f \<equiv> try_mutate_some UserOwnedSpace UserOwnedSpace_update acc (SHErr SH_NotPurchasedSpace) f"

definition space_state :: "'t sh_config_scheme \<Rightarrow> string \<Rightarrow> ('s, string) act" where
  "space_state T st = ok_or (bounded (StateStringMax T) st) (SHErr SH_BoundedVecError)"

definition update_puchased_package :: "'t sh_config_scheme \<Rightarrow> AccountId \<Rightarrow> u32 \<Rightarrow> ('s sh_state_scheme, unit) act" where
  "update_puchased_package T acc days =
     try_mutate_space acc (\<lambda>d.
       bnd (gets block_number) (\<lambda>now.
       bnd (ok_or (checked_mul (OneDay T) days) (SHErr SH_Overflow)) (\<lambda>sur_block.
       bnd (if now > deadline d
            then bnd (ok_or (checked_add now sur_block) (SHErr SH_Overflow)) (\<lambda>dl.
                 ret (d\<lparr>start := now, deadline := dl\<rparr>))
            else bnd (ok_or (checked_add (deadline d) sur_block) (SHErr SH_Overflow)) (\<lambda>dl.
                 ret (d\<lparr>deadline := dl\<rparr>))) (\<lambda>d.
       if deadline d > now
       then bnd (space_state T SPACE_NORMAL) (\<lambda>st. ret (d\<lparr>lease_state := st\<rparr>))
       else ret d))))"

definition expension_puchased_package :: "AccountId \<Rightarrow> u128 \<Rightarrow> ('s sh_state_scheme, unit) act" where
  "expension_puchased_package acc space =
     try_mutate_space acc (\<lambda>d.
       bnd (ok_or (checked_add (remaining_space d) space) (SHErr SH_Overflow)) (\<lambda>r.
       bnd (ok_or (checked_add (total_space d) space) (SHErr SH_Overflow)) (\<lambda>t.
       ret (d\<lparr>remaining_space := r, total_space := t\<rparr>))))"

definition add_user_purchased_space ::
  "'t sh_config_scheme \<Rightarrow> AccountId \<Rightarrow> u128 \<Rightarrow> u32 \<Rightarrow> ('s sh_state_scheme, unit) act" where
  "add_user_purchased_space T acc space days =
     bnd (gets block_number) (\<lambda>now.
     bnd (ok_or (checked_mul (OneDay T) days) (SHErr SH_Overflow)) (\<lambda>sur_block.
     bnd (ok_or (checked_add now sur_block) (SHErr SH_Overflow)) (\<lambda>dl.
     bnd (space_state T SPACE_NORMAL) (\<lambda>st.
     modify (UserOwnedSpace_update (\<lambda>m. m(acc \<mapsto>
       \<lparr>total_space = space, used_space = 0, locked_space = 0, remaining_space = space,
        start = now, deadline = dl, lease_state = st\<rparr>)))))))"

definition update_user_space :: "AccountId \<Rightarrow> u8 \<Rightarrow> u128 \<Rightarrow> ('s sh_state_scheme, unit) act" where
  "update_user_space acc operation size' =
     (if operation = 1 then
        try_mutate_space acc (\<lambda>d.
          andthen (ensure (lease_state d \<noteq> SPACE_FROZEN) (SHErr SH_LeaseFreeze))
         (andthen (ensure (\<not> size' > remaining_space d) (SHErr SH_InsufficientStorage))
         (bnd (ok_or (checked_add (used_space d) size') (SHErr SH_Overflow)) (\<lambda>u.
          bnd (ok_or (checked_sub (remaining_space d) size') (SHErr SH_Overflow)) (\<lambda>r.
          ret (d\<lparr>used_space := u, remaining_space := r\<rparr>))))))
      else if operation = 2 then
        try_mutate_some UserOwnedSpace UserOwnedSpace_update acc Panicked (\<lambda>d.
          bnd (ok_or (checked_sub (used_space d) size') (SHErr SH_Overflow)) (\<lambda>u.
          bnd (ok_or (checked_sub (total_space d) u) (SHErr SH_Overflow)) (\<lambda>r.
          ret (d\<lparr>used_space := u, remaining_space := r\<rparr>))))
      else throw (SHErr SH_WrongOperation))"

text \<open>One round of the expiry check: the account's lease as it is when the iteration reaches it.\<close>

definition frozen_task_step ::
  "'t sh_config_scheme \<Rightarrow> AccountId \<Rightarrow> AccountId list \<Rightarrow> ('s sh_state_scheme, AccountId list) act" where
  "frozen_task_step T acc clear_acc_list =
     bnd (gets block_number) (\<lambda>now.
     bnd (gets (\<lambda>s. UserOwnedSpace s acc)) (\<lambda>info_opt.
     (case info_opt of
        None \<Rightarrow> ret clear_acc_list
      | Some info \<Rightarrow>
          if now > deadline info then
            if now > deadline info + FrozenDays T then
              andthen (attempt (try_mutate_space acc (\<lambda>d.
                bnd (space_state T SPACE_DEAD) (\<lambda>st. ret (d\<lparr>lease_state := st\<rparr>)))))
              (ret (clear_acc_list @ [acc]))
            else if lease_state info \<noteq> SPACE_FROZEN then
              andthen (attempt (try_mutate_space acc (\<lambda>d.
                bnd (space_state T SPACE_FROZEN) (\<lambda>st. ret (d\<lparr>lease_state := st\<rparr>)))))
              (ret clear_acc_list)
            else ret clear_acc_list
          else ret clear_acc_list)))"

definition frozen_task :: "'t sh_config_scheme \<Rightarrow> ('s sh_state_scheme, AccountId list) act" where
  "frozen_task T =
     bnd (gets (\<lambda>s. iter_keys T (dom (UserOwnedSpace s)))) (\<lambda>accs.
     fold_act (frozen_task_step T) accs [])"

definition lock_user_space :: "AccountId \<Rightarrow> u128 \<Rightarrow> ('s sh_state_scheme, unit) act" where
  "lock_user_space acc needed_space =
     try_mutate_space acc (\<lambda>d.
       andthen (ensure (lease_state d \<noteq> SPACE_FROZEN) (SHErr SH_LeaseFreeze))
      (andthen (ensure (\<not> remaining_space d < needed_space) (SHErr SH_InsufficientStorage))
      (bnd (ok_or (checked_add (locked_space d) needed_space) (SHErr SH_Overflow)) (\<lambda>l.
       bnd (ok_or (checked_sub (remaining_space d) needed_space) (SHErr SH_Overflow)) (\<lambda>r.
       ret (d\<lparr>locked_space := l, remaining_space := r\<rparr>))))))"

definition unlock_user_space :: "AccountId \<Rightarrow> u128 \<Rightarrow> ('s sh_state_scheme, unit) act" where
  "unlock_user_space acc needed_space =
     try_mutate_space acc (\<lambda>d.
       bnd (ok_or (checked_sub (locked_space d) needed_space) (SHErr SH_Overflow)) (\<lambda>l.
       bnd (ok_or (checked_add (remaining_space d) needed_space) (SHErr SH_Overflow)) (\<lambda>r.
       ret (d\<lparr>locked_space := l, remaining_space := r\<rparr>))))"

definition unlock_and_used_user_space :: "AccountId \<Rightarrow> u128 \<Rightarrow> ('s sh_state_scheme, unit) act" where
  "unlock_and_used_user_space acc needed_space =
     try_mutate_space acc (\<lambda>d.
       bnd (ok_or (checked_sub (locked_space d) needed_space) (SHErr SH_Overflow)) (\<lambda>l.
       bnd (ok_or (checked_add (used_space d) needed_space) (SHErr SH_Overflow)) (\<lambda>u.
       ret (d\<lparr>locked_space := l, used_space := u\<rparr>))))"

definition check_user_space :: "AccountId \<Rightarrow> u128 \<Rightarrow> ('s sh_state_scheme, bool) act" where
  "check_user_space acc needed_space =
     bnd (gets_some (\<lambda>s. UserOwnedSpace s acc) (SHErr SH_NotPurchasedSpace)) (\<lambda>d.
     ret (remaining_space d \<ge> needed_space))"

definition get_total_space :: "('s sh_state_scheme, u128) act" where
  "get_total_space =
     bnd (gets PurchasedSpace) (\<lambda>purchased.
     bnd (gets (\<lambda>s. checked_add (TotalIdleSpace s) (TotalServiceSpace s))) (\<lambda>sum.
     bnd (ok_or sum (SHErr SH_Overflow)) (\<lambda>total.
     if total < purchased then ret 0
     else ok_or (checked_sub total purchased) (SHErr SH_Overflow))))"

definition add_total_idle_space :: "u128 \<Rightarrow> ('s sh_state_scheme, unit) act" where
  "add_total_idle_space increment =
     bnd (gets_some (\<lambda>s. checked_add (TotalIdleSpace s) increment) (SHErr SH_Overflow)) (\<lambda>v.
     modify (TotalIdleSpace_update (\<lambda>_. v)))"

definition add_total_service_space :: "u128 \<Rightarrow> ('s sh_state_scheme, unit) act" where
  "add_total_service_space increment =
     bnd (gets_some (\<lambda>s. checked_add (TotalServiceSpace s) increment) (SHErr SH_Overflow)) (\<lambda>v.
     modify (TotalServiceSpace_update (\<lambda>_. v)))"

definition sub_total_idle_space :: "u128 \<Rightarrow> ('s sh_state_scheme, unit) act" where
  "sub_total_idle_space decrement =
     bnd (gets_some (\<lambda>s. checked_sub (TotalIdleSpace s) decrement) (SHErr SH_Overflow)) (\<lambda>v.
     modify (TotalIdleSpace_update (\<lambda>_. v)))"

definition sub_total_service_space :: "u128 \<Rightarrow> ('s sh_state_scheme, unit) act" where
  "sub_total_service_space decrement =
     bnd (gets_some (\<lambda>s. checked_sub (TotalServiceSpace s) decrement) (SHErr SH_Overflow)) (\<lambda>v.
     modify (TotalServiceSpace_update (\<lambda>_. v)))"

text \<open>The comparison in \<open>add_purchased_space\<close> adds without a check, so its sum wraps.\<close>

definition add_purchased_space :: "u128 \<Rightarrow> ('s sh_state_scheme, unit) act" where
  "add_purchased_space size' =
     bnd (gets_some (\<lambda>s. checked_add (TotalIdleSpace s) (TotalServiceSpace s)) (SHErr SH_Overflow)) (\<lambda>total.
     andthen (ensures (\<lambda>s. \<not> PurchasedSpace s + size' > total) (SHErr SH_InsufficientAvailableSpace))
    (bnd (gets_some (\<lambda>s. checked_add (PurchasedSpace s) size') (SHErr SH_Overflow)) (\<lambda>v.
     modify (PurchasedSpace_update (\<lambda>_. v)))))"

definition sub_purchased_space :: "u128 \<Rightarrow> ('s sh_state_scheme, unit) act" where
  "sub_purchased_space size' =
     bnd (gets_some (\<lambda>s. checked_sub (PurchasedSpace s) size') (SHErr SH_Overflow)) (\<lambda>v.
     modify (PurchasedSpace_update (\<lambda>_. v)))"

definition get_user_avail_space :: "AccountId \<Rightarrow> ('s sh_state_scheme, u128) act" where
  "get_user_avail_space acc =
     bnd (gets_some (\<lambda>s. UserOwnedSpace s acc) (SHErr SH_NotPurchasedSpace)) (\<lambda>d.
     ret (remaining_space d))"

definition delete_user_space_storage :: "AccountId \<Rightarrow> ('s sh_state_scheme, unit) act" where
  "delete_user_space_storage acc =
     bnd (gets_some (\<lambda>s. UserOwnedSpace s acc) (SHErr SH_NotPurchasedSpace)) (\<lambda>space_info.
     andthen (sub_purchased_space (total_space space_info))
     (modify (UserOwnedSpace_update (\<lambda>m. m(acc := None)))))"

section \<open>Extrinsics\<close>

definition buy_space :: "'t sh_config_scheme \<Rightarrow> origin \<Rightarrow> u32 \<Rightarrow> ('s sh_state_scheme, unit) act" where
  "buy_space T origin gib_count = transactional (
     bnd (ensure_signed origin) (\<lambda>sender.
     andthen (ensures (\<lambda>s. \<not> contains_key (UserOwnedSpace s) sender) (SHErr SH_PurchasedSpace))
    (bnd (ok_or (checked_mul G_BYTE (ucast gib_count)) (SHErr SH_Overflow)) (\<lambda>space.
     bnd (gets_some UnitPrice (SHErr SH_BugInvalid)) (\<lambda>unit_price.
     andthen (add_user_purchased_space T sender space 30)
    (andthen (add_purchased_space space)
    (bnd (ok_or (checked_mul unit_price (ucast gib_count)) (SHErr SH_Overflow)) (\<lambda>price.
     andthen (ensures (\<lambda>s. cur_can_slash T sender price (balances s)) (SHErr SH_InsufficientBalance))
    (andthen (transfer T sender (FilbakAccount T) price)
     (sh_deposit_event (BuySpace sender space price)))))))))))"

definition expansion_space :: "'t sh_config_scheme \<Rightarrow> origin \<Rightarrow> u32 \<Rightarrow> ('s sh_state_scheme, unit) act" where
  "expansion_space T origin gib_count = transactional (
     bnd (ensure_signed origin) (\<lambda>sender.
     bnd (gets_some (\<lambda>s. UserOwnedSpace s sender) (SHErr SH_NotPurchasedSpace)) (\<lambda>cur_owned_space.
     bnd (gets block_number) (\<lambda>now.
     andthen (ensure (now < deadline cur_owned_space) (SHErr SH_LeaseExpired))
    (andthen (ensure (lease_state cur_owned_space \<noteq> SPACE_FROZEN) (SHErr SH_LeaseFreeze))
    (bnd (gets_some UnitPrice (SHErr SH_BugInvalid)) (\<lambda>unit_price.
     bnd (ok_or (checked_div unit_price 30) (SHErr SH_Overflow)) (\<lambda>day_unit_price.
     bnd (ok_or (checked_mul G_BYTE (ucast gib_count)) (SHErr SH_Overflow)) (\<lambda>space.
     bnd (ok_or (checked_sub (deadline cur_owned_space) now) (SHErr SH_Overflow)) (\<lambda>diff_block.
     bnd (ok_or (checked_div diff_block (OneDay T)) (SHErr SH_Overflow)) (\<lambda>whole_days.
     bnd (if diff_block mod OneDay T \<noteq> 0
          then ok_or (checked_add whole_days 1) (SHErr SH_Overflow)
          else ret whole_days) (\<lambda>remain_day.
     bnd (ok_or (checked_mul day_unit_price (ucast gib_count)) (SHErr SH_Overflow)) (\<lambda>day_price.
     bnd (ok_or (checked_mul day_price (ucast remain_day)) (SHErr SH_Overflow)) (\<lambda>price.
     andthen (ensures (\<lambda>s. cur_can_slash T sender price (balances s)) (SHErr SH_InsufficientBalance))
    (andthen (add_purchased_space space)
    (andthen (expension_puchased_package sender space)
    (andthen (transfer T sender (FilbakAccount T) price)
     (sh_deposit_event (ExpansionSpace sender space price)))))))))))))))))))"

definition renewal_space :: "'t sh_config_scheme \<Rightarrow> origin \<Rightarrow> u32 \<Rightarrow> ('s sh_state_scheme, unit) act" where
  "renewal_space T origin days = transactional (
     bnd (ensure_signed origin) (\<lambda>sender.
     bnd (gets_some (\<lambda>s. UserOwnedSpace s sender) (SHErr SH_NotPurchasedSpace)) (\<lambda>cur_owned_space.
     andthen (ensure (lease_state cur_owned_space \<noteq> SPACE_DEAD) (SHErr SH_LeaseExpired))
    (bnd (gets_some UnitPrice (SHErr SH_BugInvalid)) (\<lambda>unit_price.
     bnd (ok_or (checked_div unit_price 30) (SHErr SH_Overflow)) (\<lambda>days_unit_price.
     bnd (ok_or (checked_div (total_space cur_owned_space) G_BYTE) (SHErr SH_Overflow)) (\<lambda>gib_count.
     bnd (ok_or (checked_mul days_unit_price gib_count) (SHErr SH_Overflow)) (\<lambda>day_price.
     bnd (ok_or (checked_mul day_price (ucast days)) (SHErr SH_Overflow)) (\<lambda>price.
     andthen (ensures (\<lambda>s. cur_can_slash T sender price (balances s)) (SHErr SH_InsufficientBalance))
    (andthen (transfer T sender (FilbakAccount T) price)
    (andthen (update_puchased_package T sender days)
     (sh_deposit_event (RenewalSpace sender days price)))))))))))))"

definition update_price :: "origin \<Rightarrow> ('s sh_state_scheme, unit) act" where
  "update_price origin = transactional (
     andthen (ensure_root origin)
     (modify (UnitPrice_update (\<lambda>_. Some sh_default_price))))"

section \<open>Invariant\<close>

definition space_wf :: "OwnedSpaceDetails \<Rightarrow> bool" where
  "space_wf d \<longleftrightarrow> unat (total_space d) = unat (used_space d) + unat (locked_space d) + unat (remaining_space d)"

definition sh_inv :: "'s sh_state_scheme \<Rightarrow> bool" where
  "sh_inv s \<longleftrightarrow> finite (dom (UserOwnedSpace s))
     \<and> (\<forall>a d. UserOwnedSpace s a = Some d \<longrightarrow> space_wf d)
     \<and> unat (PurchasedSpace s) = total_over (\<lambda>d. unat (total_space d)) (UserOwnedSpace s)"

named_theorems sh_inv_rules \<open>operations that keep the accounting of leases\<close>

lemma wp_space_state [wp_rules]:
  "wp (space_state T st) Q E =
     (\<lambda>s. if length st \<le> StateStringMax T then Q st s else E (SHErr SH_BoundedVecError) s)"
  by (auto simp: space_state_def bounded_def wp_rules fun_eq_iff)

lemma sh_inv_upd:
  assumes "sh_inv s" and "UserOwnedSpace s a = Some d" and "space_wf d'" and "total_space d' = total_space d"
  shows "sh_inv (UserOwnedSpace_update (\<lambda>m. m(a \<mapsto> d')) s)"
  using assms by (auto simp: sh_inv_def total_over_same)

lemma update_puchased_package_inv [sh_inv_rules]:
  "sh_inv s \<Longrightarrow> wp (update_puchased_package T a n) (\<lambda>_. sh_inv) (\<lambda>_. sh_inv) s"
  by (auto simp: update_puchased_package_def wp_rules intro!: sh_inv_upd) (auto simp: sh_inv_def space_wf_def)

lemma lock_user_space_inv [sh_inv_rules]:
  "sh_inv s \<Longrightarrow> wp (lock_user_space a n) (\<lambda>_. sh_inv) (\<lambda>_. sh_inv) s"
  by (auto simp: lock_user_space_def wp_rules arith_wp intro!: sh_inv_upd) (auto simp: sh_inv_def space_wf_def)

lemma unlock_user_space_inv [sh_inv_rules]:
  "sh_inv s \<Longrightarrow> wp (unlock_user_space a n) (\<lambda>_. sh_inv) (\<lambda>_. sh_inv) s"
  by (auto simp: unlock_user_space_def wp_rules arith_wp intro!: sh_inv_upd) (auto simp: sh_inv_def space_wf_def)

lemma unlock_and_used_user_space_inv [sh_inv_rules]:
  "sh_inv s \<Longrightarrow> wp (unlock_and_used_user_space a n) (\<lambda>_. sh_inv) (\<lambda>_. sh_inv) s"
  by (auto simp: unlock_and_used_user_space_def wp_rules arith_wp intro!: sh_inv_upd) (auto simp: sh_inv_def space_wf_def)

lemma update_user_space_inv [sh_inv_rules]:
  assumes "sh_inv s" and "op = 2 \<Longrightarrow> \<forall>d. UserOwnedSpace s a = Some d \<longrightarrow> locked_space d = 0"
  shows "wp (update_user_space a op n) (\<lambda>_. sh_inv) (\<lambda>_. sh_inv) s"
  using assms
  by (auto simp: update_user_space_def wp_rules arith_wp intro!: sh_inv_upd) (auto simp: sh_inv_def space_wf_def)

lemma sh_inv_expand:
  assumes "sh_inv s" and "UserOwnedSpace s a = Some d" and "UserOwnedSpace t = (UserOwnedSpace s)(a \<mapsto> d')"
    and "space_wf d \<Longrightarrow> space_wf d'" and "unat (total_space d') = unat (total_space d) + n"
    and "unat (PurchasedSpace t) = unat (PurchasedSpace s) + n"
  shows "sh_inv t"
proof -
  have "space_wf d'" using assms by (simp add: sh_inv_def)
  with assms show ?thesis
    using total_over_upd [of "UserOwnedSpace s" a d "\<lambda>d. unat (total_space d)" d']
    by (auto simp: sh_inv_def)
qed

lemma sh_inv_delete:
  assumes "sh_inv s" and "UserOwnedSpace s a = Some d" and "UserOwnedSpace t = (UserOwnedSpace s)(a := None)"
    and "unat (PurchasedSpace s) = unat (total_space d) + unat (PurchasedSpace t)"
  shows "sh_inv t"
  using assms total_over_del [of "UserOwnedSpace s" a d "\<lambda>d. unat (total_space d)"]
  by (auto simp: sh_inv_def split: if_splits)

lemma sh_inv_frame:
  assumes "sh_inv s" and "UserOwnedSpace t = UserOwnedSpace s" and "PurchasedSpace t = PurchasedSpace s"
  shows "sh_inv t"
  using assms by (simp add: sh_inv_def)

lemmas total_space_ops = add_total_idle_space_def add_total_service_space_def sub_total_idle_space_def
  sub_total_service_space_def

lemma total_space_inv [sh_inv_rules]:
  assumes "sh_inv s"
  shows "wp (add_total_idle_space n) (\<lambda>_. sh_inv) (\<lambda>_. sh_inv) s"
    and "wp (sub_total_idle_space n) (\<lambda>_. sh_inv) (\<lambda>_. sh_inv) s"
    and "wp (add_total_service_space n) (\<lambda>_. sh_inv) (\<lambda>_. sh_inv) s"
    and "wp (sub_total_service_space n) (\<lambda>_. sh_inv) (\<lambda>_. sh_inv) s"
  using assms by (auto simp: total_space_ops wp_rules elim!: sh_inv_frame)

lemma delete_user_space_storage_inv [sh_inv_rules]:
  assumes "sh_inv s"
  shows "wp (delete_user_space_storage a) (\<lambda>_. sh_inv) (\<lambda>_. sh_inv) s"
  using assms
  by (auto simp: delete_user_space_storage_def sub_purchased_space_def wp_rules arith_wp
      elim!: sh_inv_delete)

text \<open>Space is only sold while the network holds it.\<close>

lemma wp_add_purchased_space [wp_rules]:
  "wp (add_purchased_space n) Q E = (\<lambda>s.
     let held = unat (TotalIdleSpace s) + unat (TotalServiceSpace s);
         sold = unat (PurchasedSpace s) + unat n
     in if 2 ^ 128 \<le> held then E (SHErr SH_Overflow) s
        else if held < sold mod 2 ^ 128 then E (SHErr SH_InsufficientAvailableSpace) s
        else if 2 ^ 128 \<le> sold then E (SHErr SH_Overflow) s
        else Q () (s\<lparr>PurchasedSpace := PurchasedSpace s + n\<rparr>))"
  by (rule ext) (simp add: add_purchased_space_def wp_rules checked_add_def Let_def word_order
      unat_word_ariths)

lemma add_purchased_space_bound:
  assumes "add_purchased_space n s = (Inr x, t)"
  shows "t = s\<lparr>PurchasedSpace := PurchasedSpace s + n\<rparr>"
    and "unat (PurchasedSpace t) = unat (PurchasedSpace s) + unat n"
    and "unat (PurchasedSpace t) \<le> unat (TotalIdleSpace t) + unat (TotalServiceSpace t)"
proof -
  have "wp (add_purchased_space n)
     (\<lambda>_ t. t = s\<lparr>PurchasedSpace := PurchasedSpace s + n\<rparr> \<and>
        unat (PurchasedSpace t) = unat (PurchasedSpace s) + unat n \<and>
        unat (PurchasedSpace t) \<le> unat (TotalIdleSpace t) + unat (TotalServiceSpace t)) any_error s"
    by (simp add: wp_rules Let_def unat_add_eq)
  from wpD [OF this assms] show "t = s\<lparr>PurchasedSpace := PurchasedSpace s + n\<rparr>"
    and "unat (PurchasedSpace t) = unat (PurchasedSpace s) + unat n"
    and "unat (PurchasedSpace t) \<le> unat (TotalIdleSpace t) + unat (TotalServiceSpace t)" by auto
qed

lemma sh_deposit_event_wp [wp_rules]: "wp (sh_deposit_event ev) Q E = (\<lambda>s. Q () (sh_events_update (\<lambda>es. es @ [ev]) s))"
  by (simp add: sh_deposit_event_def wp_rules)

lemma buy_space_inv [sh_inv_rules]:
  assumes "sh_inv s"
  shows "wp (buy_space T origin n) (\<lambda>_. sh_inv) (\<lambda>_. sh_inv) s"
  using assms
  by (auto simp: buy_space_def add_user_purchased_space_def wp_rules Let_def contains_key_def sh_inv_def
      unat_add_eq space_wf_def)

lemma expansion_space_inv [sh_inv_rules]:
  assumes "sh_inv s"
  shows "wp (expansion_space T origin n) (\<lambda>_. sh_inv) (\<lambda>_. sh_inv) s"
  using assms
  by (auto simp: expansion_space_def expension_puchased_package_def wp_rules Let_def arith_wp)
    (erule sh_inv_expand, assumption, simp, auto simp: space_wf_def unat_add_eq)+


lemma renewal_space_inv [sh_inv_rules]:
  assumes "sh_inv s"
  shows "wp (renewal_space T origin n) (\<lambda>_. sh_inv) (\<lambda>_. sh_inv) s"
proof -
  have *: "sh_inv t \<Longrightarrow> wp (update_puchased_package T a n) (\<lambda>_ t. sh_inv (sh_events_update f t)) any_error t"
    for a t f
    by (rule wp_mono [OF update_puchased_package_inv]) (auto elim: sh_inv_frame)
  have "sh_inv (s\<lparr>balances := bs\<rparr>)" for bs
    using assms by (rule sh_inv_frame) simp_all
  with * assms show ?thesis
    by (auto simp: renewal_space_def wp_rules elim!: wp_mono)
qed

lemma update_price_inv [sh_inv_rules]:
  "sh_inv s \<Longrightarrow> wp (update_price origin) (\<lambda>_. sh_inv) (\<lambda>_. sh_inv) s"
  by (auto simp: update_price_def wp_rules elim: sh_inv_frame)

section \<open>The expiry check\<close>

text \<open>What one day's check makes of a lease, and which leases it hands over for deletion.\<close>

definition lease_after :: "'t sh_config_scheme \<Rightarrow> BlockNumber \<Rightarrow> OwnedSpaceDetails \<Rightarrow> OwnedSpaceDetails" where
  "lease_after T now d =
     (if now > deadline d
      then if now > deadline d + FrozenDays T then d\<lparr>lease_state := SPACE_DEAD\<rparr>
           else d\<lparr>lease_state := SPACE_FROZEN\<rparr>
      else d)"

definition lease_dead :: "'t sh_config_scheme \<Rightarrow> BlockNumber \<Rightarrow> OwnedSpaceDetails \<Rightarrow> bool" where
  "lease_dead T now d \<longleftrightarrow> now > deadline d \<and> now > deadline d + FrozenDays T"

lemma frozen_task_step_eq:
  assumes "6 \<le> StateStringMax T" and "UserOwnedSpace s acc = Some d"
  shows "frozen_task_step T acc xs s =
     (Inr (if lease_dead T (block_number s) d then xs @ [acc] else xs),
      UserOwnedSpace_update (\<lambda>m. m(acc \<mapsto> lease_after T (block_number s) d)) s)"
  using assms
  by (auto simp: frozen_task_step_def run_simps space_state_def bounded_def space_state_defs lease_after_def
      lease_dead_def intro!: sh_state.equality)

lemma frozen_fold_eq:
  assumes "6 \<le> StateStringMax T" and "distinct accs" and "set accs \<subseteq> dom (UserOwnedSpace s)"
  shows "fold_act (frozen_task_step T) accs xs s =
     (Inr (xs @ filter (\<lambda>a. lease_dead T (block_number s) (the (UserOwnedSpace s a))) accs),
      s\<lparr>UserOwnedSpace := \<lambda>a. if a \<in> set accs
          then map_option (lease_after T (block_number s)) (UserOwnedSpace s a) else UserOwnedSpace s a\<rparr>)"
  using assms(2,3)
proof (induction accs arbitrary: xs s)
  case Nil
  then show ?case by (simp add: run_simps)
next
  case (Cons a accs)
  then obtain d where d: "UserOwnedSpace s a = Some d" by auto
  let ?s = "UserOwnedSpace_update (\<lambda>m. m(a \<mapsto> lease_after T (block_number s) d)) s"
  have *: "set accs \<subseteq> dom (UserOwnedSpace ?s)" using Cons.prems by auto
  show ?case
    using Cons.prems d
    by (auto simp: bnd_def frozen_task_step_eq [OF assms(1) d] Cons.IH [OF _ *] intro!: filter_cong
        sh_state.equality)
qed

lemma frozen_task_eq:
  assumes "6 \<le> StateStringMax T" and "iter_laws T" and "finite (dom (UserOwnedSpace s))"
  shows "frozen_task T s =
     (Inr (filter (\<lambda>a. lease_dead T (block_number s) (the (UserOwnedSpace s a))) (iter_keys T (dom (UserOwnedSpace s)))),
      s\<lparr>UserOwnedSpace := \<lambda>a. map_option (lease_after T (block_number s)) (UserOwnedSpace s a)\<rparr>)"
proof -
  have "set (iter_keys T (dom (UserOwnedSpace s))) = dom (UserOwnedSpace s)"
    and "distinct (iter_keys T (dom (UserOwnedSpace s)))"
    using assms by (auto simp: iter_laws_def)
  moreover have "(\<lambda>a. if a \<in> dom (UserOwnedSpace s) then map_option (lease_after T (block_number s)) (UserOwnedSpace s a)
       else UserOwnedSpace s a) = (\<lambda>a. map_option (lease_after T (block_number s)) (UserOwnedSpace s a))"
    by (auto simp: fun_eq_iff domIff)
  ultimately show ?thesis
    by (simp add: frozen_task_def bnd_def gets_def frozen_fold_eq assms(1))
qed

lemma frozen_task_step_inv:
  "sh_inv s \<Longrightarrow> wp (frozen_task_step T a xs) (\<lambda>_. sh_inv) (\<lambda>_. sh_inv) s"
  by (auto simp: frozen_task_step_def wp_rules intro!: sh_inv_upd) (auto simp: sh_inv_def space_wf_def)

lemma frozen_task_inv [sh_inv_rules]: "sh_inv s \<Longrightarrow> wp (frozen_task T) (\<lambda>_. sh_inv) (\<lambda>_. sh_inv) s"
  unfolding frozen_task_def wp_rules
  by (rule wp_fold_act_inv) (auto intro: frozen_task_step_inv)

section \<open>Space ledgers\<close>

text \<open>
  What the file bank relies on of the traits \<open>StorageHandle\<close> and \<open>MinerControl\<close>: a deal locks
  space, and is closed either by giving the locked space back or by turning it into used
  space. \<open>lease\<close> reads the used, locked and remaining space of an account. The locale is
  interpreted here on the leases of users and in \<open>Sminer_Props\<close> on the space of miners.
\<close>

locale space_ledger =
  fixes lease :: "'s \<Rightarrow> AccountId \<Rightarrow> (nat \<times> nat \<times> nat) option"
    and lock :: "AccountId \<Rightarrow> u128 \<Rightarrow> ('s, unit) act"
    and unlock :: "AccountId \<Rightarrow> u128 \<Rightarrow> ('s, unit) act"
    and consume :: "AccountId \<Rightarrow> u128 \<Rightarrow> ('s, unit) act"
  assumes lock_moves: "lock a n s = (Inr (), t) \<Longrightarrow>
      \<exists>u l r. lease s a = Some (u, l, unat n + r) \<and> lease t = (lease s)(a \<mapsto> (u, l + unat n, r))"
    and unlock_moves: "unlock a n s = (Inr (), t) \<Longrightarrow> lease s a \<noteq> None \<Longrightarrow>
      \<exists>u l r. lease s a = Some (u, unat n + l, r) \<and> lease t = (lease s)(a \<mapsto> (u, l, r + unat n))"
    and consume_moves: "consume a n s = (Inr (), t) \<Longrightarrow>
      \<exists>u l r. lease s a = Some (u, unat n + l, r) \<and> lease t = (lease s)(a \<mapsto> (u + unat n, l, r))"
    and unlock_ready: "lease s a = Some (u, l, r) \<Longrightarrow> unat n \<le> l \<Longrightarrow> r + unat n < 2 ^ 128 \<Longrightarrow>
      \<exists>t. unlock a n s = (Inr (), t)"
    and consume_ready: "lease s a = Some (u, l, r) \<Longrightarrow> unat n \<le> l \<Longrightarrow> u + unat n < 2 ^ 128 \<Longrightarrow>
      \<exists>t. consume a n s = (Inr (), t)"
begin

lemma deal_abandoned:
  assumes "lock a n s = (Inr (), t)" and "lease t' = lease t" and "unlock a n t' = (Inr (), v)"
  shows "lease v = lease s"
  using lock_moves [OF assms(1)] unlock_moves [OF assms(3)] assms(2) by (fastforce simp: fun_eq_iff)

lemma deal_stored:
  assumes "lock a n s = (Inr (), t)" and "lease t' = lease t" and "consume a n t' = (Inr (), v)"
  shows "\<exists>u l r. lease s a = Some (u, l, unat n + r) \<and> lease v = (lease s)(a \<mapsto> (u + unat n, l, r))"
  using lock_moves [OF assms(1)] consume_moves [OF assms(3)] assms(2) by (auto simp: fun_eq_iff)

lemma deal_can_be_abandoned:
  assumes "lock a n s = (Inr (), t)" and "lease t' = lease t"
    and "\<And>u l r. lease s a = Some (u, l, r) \<Longrightarrow> r < 2 ^ 128"
  shows "\<exists>v. unlock a n t' = (Inr (), v)"
  using lock_moves [OF assms(1)] assms(2,3) by (auto intro: unlock_ready)

end

definition lease_of :: "'s sh_state_scheme \<Rightarrow> AccountId \<Rightarrow> (nat \<times> nat \<times> nat) option" where
  "lease_of s a = map_option (\<lambda>d. (unat (used_space d), unat (locked_space d), unat (remaining_space d)))
     (UserOwnedSpace s a)"

lemma lease_of_upd [simp]:
  "lease_of (UserOwnedSpace_update (\<lambda>m. m(a \<mapsto> d)) s)
     = (lease_of s)(a \<mapsto> (unat (used_space d), unat (locked_space d), unat (remaining_space d)))"
  by (auto simp: lease_of_def fun_eq_iff)

lemma lease_of_frame: "UserOwnedSpace t = UserOwnedSpace s \<Longrightarrow> lease_of t = lease_of s"
  by (simp add: lease_of_def fun_eq_iff)

lemma lock_user_space_moves:
  assumes "lock_user_space a n s = (Inr (), t)"
  shows "\<exists>u l r. lease_of s a = Some (u, l, unat n + r) \<and> lease_of t = (lease_of s)(a \<mapsto> (u, l + unat n, r))"
proof -
  have "wp (lock_user_space a n) (\<lambda>_ t. \<exists>u l r. lease_of s a = Some (u, l, unat n + r)
      \<and> lease_of t = (lease_of s)(a \<mapsto> (u, l + unat n, r))) any_error s"
    by (auto simp: lock_user_space_def wp_rules arith_wp) (auto simp: lease_of_def)
  from wpD [OF this assms] show ?thesis .
qed

lemma unlock_user_space_moves:
  assumes "unlock_user_space a n s = (Inr (), t)"
  shows "\<exists>u l r. lease_of s a = Some (u, unat n + l, r) \<and> lease_of t = (lease_of s)(a \<mapsto> (u, l, r + unat n))"
proof -
  have "wp (unlock_user_space a n) (\<lambda>_ t. \<exists>u l r. lease_of s a = Some (u, unat n + l, r)
      \<and> lease_of t = (lease_of s)(a \<mapsto> (u, l, r + unat n))) any_error s"
    by (auto simp: unlock_user_space_def wp_rules arith_wp) (auto simp: lease_of_def)
  from wpD [OF this assms] show ?thesis .
qed

lemma unlock_and_used_user_space_moves:
  assumes "unlock_and_used_user_space a n s = (Inr (), t)"
  shows "\<exists>u l r. lease_of s a = Some (u, unat n + l, r) \<and> lease_of t = (lease_of s)(a \<mapsto> (u + unat n, l, r))"
proof -
  have "wp (unlock_and_used_user_space a n) (\<lambda>_ t. \<exists>u l r. lease_of s a = Some (u, unat n + l, r)
      \<and> lease_of t = (lease_of s)(a \<mapsto> (u + unat n, l, r))) any_error s"
    by (auto simp: unlock_and_used_user_space_def wp_rules arith_wp) (auto simp: lease_of_def)
  from wpD [OF this assms] show ?thesis .
qed

interpretation sh: space_ledger lease_of lock_user_space unlock_user_space unlock_and_used_user_space
proof
  fix s :: "'s sh_state_scheme" and a and n :: u128 and u l r
  assume *: "lease_of s a = Some (u, l, r)" "unat n \<le> l"
  show "\<exists>t. unlock_user_space a n s = (Inr (), t)" if "r + unat n < 2 ^ 128"
    using * that by (auto simp: lease_of_def unlock_user_space_def run_simps checked_sub_def checked_add_def)
  show "\<exists>t. unlock_and_used_user_space a n s = (Inr (), t)" if "u + unat n < 2 ^ 128"
    using * that by (auto simp: lease_of_def unlock_and_used_user_space_def run_simps checked_sub_def checked_add_def)
qed (erule lock_user_space_moves unlock_user_space_moves unlock_and_used_user_space_moves)+

section \<open>Reachable states\<close>

text \<open>
  A step is any call of the pallet's functions, successful or not, with the state it leaves;
  other pallets and the block machinery change their own part of the state. Releasing used
  space (operation 2 of \<open>update_user_space\<close>) is restricted to accounts that hold no locked
  space; what it does otherwise is shown below.
\<close>

inductive sh_step :: "'t sh_config_scheme \<Rightarrow> 's sh_state_scheme \<Rightarrow> 's sh_state_scheme \<Rightarrow> bool" for T where
  buy: "sh_step T s (snd (buy_space T origin gib s))"
| expand: "sh_step T s (snd (expansion_space T origin gib s))"
| renew: "sh_step T s (snd (renewal_space T origin days s))"
| price: "sh_step T s (snd (update_price origin s))"
| lock: "sh_step T s (snd (lock_user_space a n s))"
| unlock: "sh_step T s (snd (unlock_user_space a n s))"
| consume: "sh_step T s (snd (unlock_and_used_user_space a n s))"
| occupy: "sh_step T s (snd (update_user_space a 1 n s))"
| release: "(\<And>d. UserOwnedSpace s a = Some d \<Longrightarrow> locked_space d = 0) \<Longrightarrow> sh_step T s (snd (update_user_space a 2 n s))"
| expire: "sh_step T s (snd (frozen_task T s))"
| clear: "sh_step T s (snd (delete_user_space_storage a s))"
| idle_up: "sh_step T s (snd (add_total_idle_space n s))"
| idle_down: "sh_step T s (snd (sub_total_idle_space n s))"
| service_up: "sh_step T s (snd (add_total_service_space n s))"
| service_down: "sh_step T s (snd (sub_total_service_space n s))"
| elsewhere: "UserOwnedSpace t = UserOwnedSpace s \<Longrightarrow> PurchasedSpace t = PurchasedSpace s \<Longrightarrow> sh_step T s t"

inductive sh_reachable :: "'t sh_config_scheme \<Rightarrow> 's sh_state_scheme \<Rightarrow> bool" for T where
  genesis: "UserOwnedSpace s = Map.empty \<Longrightarrow> PurchasedSpace s = 0 \<Longrightarrow> sh_reachable T s"
| step: "sh_reachable T s \<Longrightarrow> sh_step T s t \<Longrightarrow> sh_reachable T t"

lemma wp_state: "wp m (\<lambda>_. I) (\<lambda>_. I) s \<longleftrightarrow> I (snd (m s))"
  by (auto simp: wp_def split: prod.split sum.split)

lemma sh_step_inv: "sh_step T s t \<Longrightarrow> sh_inv s \<Longrightarrow> sh_inv t"
  by (induction rule: sh_step.induct)
    (auto simp: wp_state [symmetric] intro: sh_inv_rules elim: sh_inv_frame)

lemma sh_reachable_inv: "sh_reachable T s \<Longrightarrow> sh_inv s"
proof (induction rule: sh_reachable.induct)
  case (genesis s)
  then show ?case by (simp add: sh_inv_def)
qed (rule sh_step_inv)

section \<open>A concrete configuration\<close>

text \<open>The constants of \<open>runtime/src/lib.rs\<close>, with the reference instance of the external code.\<close>

definition sh_conf :: "'t \<Rightarrow> 't sh_config_scheme" where
  "sh_conf more' = ref_ext (sh_config_ext 28800 (7 * 28800) 1 20 more')"

lemma sh_conf_laws: "currency_laws (sh_conf m)" "perbill_laws (sh_conf m)" "iter_laws (sh_conf m)"
  by (simp_all add: sh_conf_def ref_laws)

definition ex_balances :: balances where
  "ex_balances = (\<lambda>a. if 10 \<le> a then \<lparr>free = 1000000, reserved = 0\<rparr> else \<lparr>free = 0, reserved = 0\<rparr>)"

definition ex_sh_with :: "'s \<Rightarrow> 's sh_state_scheme" where
  "ex_sh_with more' = \<lparr>balances = ex_balances, block_number = 100, UserOwnedSpace = Map.empty, UnitPrice = Some 30,
     TotalIdleSpace = 100 * G_BYTE, TotalServiceSpace = 0, PurchasedSpace = 0, sh_events = [], \<dots> = more'\<rparr>"

definition ex_sh :: sh_state where
  "ex_sh = ex_sh_with ()"

lemma ex_sh_reachable: "sh_reachable T ex_sh"
  by (rule sh_reachable.genesis) (simp_all add: ex_sh_def ex_sh_with_def)

definition ex_lease :: OwnedSpaceDetails where
  "ex_lease = \<lparr>total_space = 2 * G_BYTE, used_space = 0, locked_space = 0, remaining_space = 2 * G_BYTE,
     start = 100, deadline = 100 + 30 * 28800, lease_state = SPACE_NORMAL\<rparr>"

lemmas sh_run = run_simps transfer_def sh_conf_def ref_ext_def ref_transfer_def ex_sh_def ex_sh_with_def ex_balances_def
  buy_space_def renewal_space_def expansion_space_def update_puchased_package_def expension_puchased_package_def
  add_user_purchased_space_def add_purchased_space_def
  space_state_def bounded_def sh_deposit_event_def space_state_defs checked_add_def checked_mul_def
  checked_sub_def checked_div_def contains_key_def size_defs

lemma ex_buy: "buy_space (sh_conf ()) (SignedOrigin 10) 2 ex_sh =
  (Inr (), ex_sh\<lparr>balances := ex_balances(10 := \<lparr>free = 999940, reserved = 0\<rparr>, 1 := \<lparr>free = 60, reserved = 0\<rparr>),
     UserOwnedSpace := [10 \<mapsto> ex_lease], PurchasedSpace := 2 * G_BYTE, sh_events := [BuySpace 10 (2 * G_BYTE) 60]\<rparr>)"
  by (simp add: sh_run ex_lease_def)


section \<open>Properties\<close>



text \<open>
  C24: a successful \<open>buy_space\<close> is a first purchase: it creates an empty lease of 30 days over
  the GiB asked for, charges exactly the unit price per GiB to the buyer in favour of the
  file bank's account, and only sells space that miners have declared.
\<close>
theorem buy_space_correct:
  assumes "currency_laws T" and "a \<noteq> FilbakAccount T"
    and "buy_space T (SignedOrigin a) n s = (Inr (), t)"
  shows "\<exists>price. UnitPrice s = Some price \<and> UserOwnedSpace s a = None
     \<and> unat (free (balances s a)) = unat (free (balances t a)) + unat price * unat n
     \<and> unat (free (balances t (FilbakAccount T))) = unat (free (balances s (FilbakAccount T))) + unat price * unat n
     \<and> UserOwnedSpace t = (UserOwnedSpace s)(a \<mapsto>
          \<lparr>total_space = G_BYTE * ucast n, used_space = 0, locked_space = 0, remaining_space = G_BYTE * ucast n,
           start = block_number s, deadline = block_number s + OneDay T * 30, lease_state = SPACE_NORMAL\<rparr>)
     \<and> unat (PurchasedSpace t) = unat (PurchasedSpace s) + 2 ^ 30 * unat n
     \<and> unat (PurchasedSpace t) \<le> unat (TotalIdleSpace t) + unat (TotalServiceSpace t)"
    (is "?Q t")
proof -
  have "wp (buy_space T (SignedOrigin a) n) (\<lambda>_. ?Q) any_error s"
    using assms(1,2)
    by (auto simp: buy_space_def add_user_purchased_space_def wp_rules Let_def contains_key_def
        checked_mul_def checked_add_def unat_mult_eq unat_add_eq transfer_moves split: if_splits)
  from wpD [OF this assms(3)] show ?thesis .
qed


theorem buy_space_correct_witness:
  "snd (buy_space (sh_conf ()) (SignedOrigin 10) 2 ex_sh) \<noteq> ex_sh
   \<and> unat (PurchasedSpace (snd (buy_space (sh_conf ()) (SignedOrigin 10) 2 ex_sh))) = 2 ^ 31"
  using buy_space_correct [OF sh_conf_laws(1) _ ex_buy]
  by (simp add: ex_buy) (simp add: ex_sh_def ex_sh_with_def sh_conf_def ref_ext_def size_defs)

text \<open>The lease after a renewal.\<close>

definition renewed :: "'t sh_config_scheme \<Rightarrow> BlockNumber \<Rightarrow> u32 \<Rightarrow> OwnedSpaceDetails \<Rightarrow> OwnedSpaceDetails" where
  "renewed T now days d =
     (let dl = max now (deadline d) + OneDay T * days
      in d\<lparr>start := if now > deadline d then now else start d, deadline := dl,
           lease_state := if dl > now then SPACE_NORMAL else lease_state d\<rparr>)"

lemma wp_update_puchased_package:
  assumes "\<And>d. UserOwnedSpace s a = Some d \<Longrightarrow>
      max (unat (block_number s)) (unat (deadline d)) + unat (OneDay T) * unat days < 2 ^ 32 \<Longrightarrow>
      Q () (UserOwnedSpace_update (\<lambda>m. m(a \<mapsto> renewed T (block_number s) days d)) s)"
  shows "wp (update_puchased_package T a days) Q any_error s"
  using assms
  by (auto simp: update_puchased_package_def wp_rules renewed_def Let_def checked_mul_def checked_add_def
      unat_mult_eq max_def word_order split: if_splits)


definition ex_frozen :: sh_state where
  "ex_frozen = ex_sh\<lparr>block_number := 900000, UserOwnedSpace := [10 \<mapsto> ex_lease\<lparr>lease_state := SPACE_FROZEN\<rparr>],
     PurchasedSpace := 2 * G_BYTE\<rparr>"

lemma ex_renew: "renewal_space (sh_conf ()) (SignedOrigin 10) 5 ex_frozen =
  (Inr (), ex_frozen\<lparr>balances := ex_balances(10 := \<lparr>free = 999990, reserved = 0\<rparr>, 1 := \<lparr>free = 10, reserved = 0\<rparr>),
     UserOwnedSpace := [10 \<mapsto> ex_lease\<lparr>start := 900000, deadline := 900000 + 5 * 28800\<rparr>],
     sh_events := [RenewalSpace 10 5 10]\<rparr>)"
  by (simp add: sh_run ex_lease_def ex_frozen_def)


text \<open>
  C13: the expiry check changes only the states of leases: a lease whose deadline has passed
  is frozen, and dead once the frozen days are over too. It returns exactly the accounts with
  a dead lease, each once.
\<close>
theorem frozen_task_correct:
  assumes "6 \<le> StateStringMax T" and "iter_laws T" and "finite (dom (UserOwnedSpace s))"
  shows "\<exists>xs. frozen_task T s = (Inr xs,
       s\<lparr>UserOwnedSpace := \<lambda>a. map_option (lease_after T (block_number s)) (UserOwnedSpace s a)\<rparr>)
     \<and> distinct xs
     \<and> set xs = {a. \<exists>d. UserOwnedSpace s a = Some d \<and> block_number s > deadline d
                        \<and> block_number s > deadline d + FrozenDays T}"
proof -
  have "set (iter_keys T (dom (UserOwnedSpace s))) = dom (UserOwnedSpace s)"
    and "distinct (iter_keys T (dom (UserOwnedSpace s)))"
    using assms by (auto simp: iter_laws_def)
  then show ?thesis
    by (auto simp: frozen_task_eq [OF assms] lease_dead_def)
qed

theorem frozen_task_correct_witness:
  "\<exists>xs t. frozen_task (sh_conf ()) (ex_frozen\<lparr>block_number := 2000000\<rparr>) = (Inr xs, t) \<and> set xs = {10}"
  using frozen_task_correct [of "sh_conf ()" "ex_frozen\<lparr>block_number := 2000000\<rparr>"]
  by (auto simp: sh_conf_laws ex_frozen_def ex_lease_def) (auto simp: sh_conf_def ref_ext_def)

text \<open>
  C30: a deal's space: what \<open>lock_user_space\<close> took is given back exactly by
  \<open>unlock_user_space\<close>, and turned into used space by \<open>unlock_and_used_user_space\<close>, whatever
  happened to other parts of the state in between.
\<close>
theorem locked_space_settled:
  fixes s t t' :: "'s sh_state_scheme"
  assumes "lock_user_space a n s = (Inr (), t)" and "lease_of t' = lease_of t"
  shows "(\<forall>v. unlock_user_space a n t' = (Inr (), v) \<longrightarrow> lease_of v = lease_of s)
    \<and> (\<exists>v. unlock_user_space a n t' = (Inr (), v))
    \<and> (\<forall>v. unlock_and_used_user_space a n t' = (Inr (), v) \<longrightarrow>
         (\<exists>u l r. lease_of s a = Some (u, l, unat n + r) \<and> lease_of v = (lease_of s)(a \<mapsto> (u + unat n, l, r))))"
proof -
  have "\<exists>v. unlock_user_space a n t' = (Inr (), v)"
    by (intro sh.deal_can_be_abandoned [OF assms]) (use unat_lt [where 'a = 128] in \<open>auto simp: lease_of_def\<close>)
  then show ?thesis
    using sh.deal_abandoned [OF assms] sh.deal_stored [OF assms] by blast
qed


definition ex_leased :: sh_state where
  "ex_leased = ex_sh\<lparr>UserOwnedSpace := [10 \<mapsto> ex_lease], PurchasedSpace := 2 * G_BYTE\<rparr>"

lemma ex_lock: "lock_user_space 10 (24 * M_BYTE) ex_leased = (Inr (), ex_leased\<lparr>UserOwnedSpace :=
    [10 \<mapsto> ex_lease\<lparr>locked_space := 24 * M_BYTE, remaining_space := 2 * G_BYTE - 24 * M_BYTE\<rparr>]\<rparr>)"
  by (simp add: sh_run lock_user_space_def ex_leased_def ex_lease_def)

theorem locked_space_settled_witness:
  "\<exists>t v. lock_user_space 10 (24 * M_BYTE) ex_leased = (Inr (), t) \<and> lease_of t \<noteq> lease_of ex_leased
     \<and> unlock_user_space 10 (24 * M_BYTE) t = (Inr (), v) \<and> lease_of v = lease_of ex_leased"
proof -
  let ?t = "ex_leased\<lparr>UserOwnedSpace :=
    [10 \<mapsto> ex_lease\<lparr>locked_space := 24 * M_BYTE, remaining_space := 2 * G_BYTE - 24 * M_BYTE\<rparr>]\<rparr>"
  have "lease_of ?t 10 \<noteq> lease_of ex_leased 10"
    by (simp add: lease_of_def ex_leased_def ex_lease_def size_defs)
  then show ?thesis
    using locked_space_settled [OF ex_lock refl] ex_lock by metis
qed

text \<open>
  C40: releasing used space recomputes the remaining space as everything that is not used and
  so forgets what is locked: afterwards the parts of a lease exceed its total by exactly the
  locked space, which can be spent a second time while a deal is open.
\<close>
theorem release_forgets_locked:
  assumes "UserOwnedSpace s a = Some d" and "space_wf d" and "update_user_space a 2 n s = (Inr (), t)"
  shows "\<exists>d'. UserOwnedSpace t = (UserOwnedSpace s)(a \<mapsto> d')
     \<and> unat (used_space d) = unat (used_space d') + unat n
     \<and> total_space d' = total_space d \<and> locked_space d' = locked_space d
     \<and> unat (used_space d') + unat (locked_space d') + unat (remaining_space d')
         = unat (total_space d') + unat (locked_space d)"
    (is "?Q t")
proof -
  have "wp (update_user_space a 2 n) (\<lambda>_. ?Q) any_error s"
    using assms(1,2) unfolding update_user_space_def space_wf_def
    by (auto simp: wp_rules arith_wp
        intro!: exI [of _ "d\<lparr>used_space := u, remaining_space := r\<rparr>" for u r])
  from wpD [OF this assms(3)] show ?thesis .
qed


lemma ex_release: "update_user_space 10 2 8 (ex_leased\<lparr>UserOwnedSpace := [10 \<mapsto> ex_lease\<lparr>
      used_space := 8, locked_space := 5, remaining_space := 2 * G_BYTE - 13\<rparr>]\<rparr>)
   = (Inr (), ex_leased\<lparr>UserOwnedSpace := [10 \<mapsto> ex_lease\<lparr>locked_space := 5\<rparr>]\<rparr>)"
  by (simp add: sh_run update_user_space_def ex_leased_def ex_lease_def)

theorem release_forgets_locked_witness:
  "\<exists>d. UserOwnedSpace (snd (update_user_space 10 2 8 (ex_leased\<lparr>UserOwnedSpace := [10 \<mapsto> ex_lease\<lparr>
      used_space := 8, locked_space := 5, remaining_space := 2 * G_BYTE - 13\<rparr>]\<rparr>))) 10 = Some d
    \<and> unat (used_space d) + unat (locked_space d) + unat (remaining_space d) = unat (total_space d) + 5"
proof -
  have "space_wf (ex_lease\<lparr>used_space := 8, locked_space := 5, remaining_space := 2 * G_BYTE - 13\<rparr>)"
    by (simp add: space_wf_def ex_lease_def size_defs)
  from release_forgets_locked [OF _ this ex_release] show ?thesis
    unfolding ex_release by (auto dest!: fun_upd_eqD)
qed

end
