(* ===== verification/Oss.thy ===== *)
theory Oss
  imports Storage_Handler
begin

text \<open>
  The oss pallet (\<open>c-pallets/oss\<close>): object-storage gateways register their peer id, and users
  authorise an operator to act for them. The locale \<open>oss_find_author\<close> is the trait
  \<open>OssFindAuthor\<close> that the file bank asks before it acts on somebody's behalf.

  The lemmas show that an authorisation is what its owner last said, and that nobody else can
  give or take it.
\<close>

section \<open>Storage and extrinsics\<close>

datatype oss_event =
    Authorize AccountId AccountId
  | CancelAuthorize AccountId
  | OssRegister AccountId PeerId
  | OssUpdate AccountId PeerId
  | OssDestroy AccountId

record oss_state = sh_state +
  AuthorityList :: "AccountId \<rightharpoonup> AccountId"
  OssPeers :: "AccountId \<rightharpoonup> PeerId"
  oss_events :: "oss_event list"

abbreviation OssErr :: "oss_error \<Rightarrow> dispatch_error" where
  "OssErr \<equiv> dispatch_error.Oss"

definition oss_deposit_event :: "oss_event \<Rightarrow> ('s oss_state_scheme, unit) act" where
  "oss_deposit_event ev = modify (oss_events_update (\<lambda>es. es @ [ev]))"

definition authorize :: "origin \<Rightarrow> AccountId \<Rightarrow> ('s oss_state_scheme, unit) act" where
  "authorize origin operator = transactional (
     bnd (ensure_signed origin) (\<lambda>sender.
     andthen (modify (AuthorityList_update (\<lambda>m. m(sender \<mapsto> operator))))
     (oss_deposit_event (Authorize sender operator))))"

definition cancel_authorize :: "origin \<Rightarrow> ('s oss_state_scheme, unit) act" where
  "cancel_authorize origin = transactional (
     bnd (ensure_signed origin) (\<lambda>sender.
     andthen (ensures (\<lambda>s. contains_key (AuthorityList s) sender) (OssErr OSS_NoAuthorization))
    (andthen (modify (AuthorityList_update (\<lambda>m. m(sender := None))))
     (oss_deposit_event (CancelAuthorize sender)))))"

definition oss_register :: "origin \<Rightarrow> PeerId \<Rightarrow> ('s oss_state_scheme, unit) act" where
  "oss_register origin endpoint = transactional (
     bnd (ensure_signed origin) (\<lambda>sender.
     andthen (ensures (\<lambda>s. \<not> contains_key (OssPeers s) sender) (OssErr OSS_Registered))
    (andthen (modify (OssPeers_update (\<lambda>m. m(sender \<mapsto> endpoint))))
     (oss_deposit_event (OssRegister sender endpoint)))))"

definition oss_update :: "origin \<Rightarrow> PeerId \<Rightarrow> ('s oss_state_scheme, unit) act" where
  "oss_update origin endpoint = transactional (
     bnd (ensure_signed origin) (\<lambda>sender.
     andthen (ensures (\<lambda>s. contains_key (OssPeers s) sender) (OssErr OSS_UnRegister))
    (andthen (try_mutate_some OssPeers OssPeers_update sender (OssErr OSS_OptionParseError) (\<lambda>_. ret endpoint))
     (oss_deposit_event (OssUpdate sender endpoint)))))"

definition oss_destroy :: "origin \<Rightarrow> ('s oss_state_scheme, unit) act" where
  "oss_destroy origin = transactional (
     bnd (ensure_signed origin) (\<lambda>sender.
     andthen (ensures (\<lambda>s. contains_key (OssPeers s) sender) (OssErr OSS_UnRegister))
    (andthen (modify (OssPeers_update (\<lambda>m. m(sender := None))))
     (oss_deposit_event (OssDestroy sender)))))"

definition is_authorized :: "'s oss_state_scheme \<Rightarrow> AccountId \<Rightarrow> AccountId \<Rightarrow> bool" where
  "is_authorized s owner operator = (case AuthorityList s owner of Some acc \<Rightarrow> acc = operator | None \<Rightarrow> False)"

section \<open>The trait \<open>OssFindAuthor\<close>\<close>

text \<open>
  The calls of the pallet, and the laws of a registry of authorisations: granting replaces,
  revoking removes, and the other calls leave it alone.
\<close>

datatype oss_call =
    CallAuthorize AccountId
  | CallCancel
  | CallRegister PeerId
  | CallUpdate PeerId
  | CallDestroy

definition oss_dispatch :: "origin \<Rightarrow> oss_call \<Rightarrow> ('s oss_state_scheme, unit) act" where
  "oss_dispatch origin c = (case c of
       CallAuthorize operator \<Rightarrow> authorize origin operator
     | CallCancel \<Rightarrow> cancel_authorize origin
     | CallRegister endpoint \<Rightarrow> oss_register origin endpoint
     | CallUpdate endpoint \<Rightarrow> oss_update origin endpoint
     | CallDestroy \<Rightarrow> oss_destroy origin)"

text \<open>What a call says about the authorisation of its sender.\<close>

fun says :: "oss_call \<Rightarrow> AccountId option \<Rightarrow> AccountId option" where
  "says (CallAuthorize operator) _ = Some operator"
| "says CallCancel _ = None"
| "says _ old = old"

fun after_calls :: "AccountId \<Rightarrow> (AccountId \<times> oss_call) list \<Rightarrow> AccountId option \<Rightarrow> AccountId option" where
  "after_calls owner [] old = old"
| "after_calls owner ((a, c) # cs) old = after_calls owner cs (if a = owner then says c old else old)"

locale oss_find_author =
  fixes authorized :: "'s \<Rightarrow> AccountId \<Rightarrow> AccountId \<Rightarrow> bool"
    and granted :: "'s \<Rightarrow> AccountId \<Rightarrow> AccountId option"
    and dispatch :: "origin \<Rightarrow> oss_call \<Rightarrow> ('s, unit) act"
  assumes authorized_iff: "authorized s owner operator \<longleftrightarrow> granted s owner = Some operator"
    and signed_call: "granted (snd (dispatch (SignedOrigin a) c s)) owner
        = (if a = owner then says c (granted s owner) else granted s owner)"
begin

fun run_calls :: "(AccountId \<times> oss_call) list \<Rightarrow> 's \<Rightarrow> 's" where
  "run_calls [] s = s"
| "run_calls ((a, c) # cs) s = run_calls cs (snd (dispatch (SignedOrigin a) c s))"

lemma granted_run_calls: "granted (run_calls cs s) owner = after_calls owner cs (granted s owner)"
  by (induction cs s rule: run_calls.induct) (simp_all add: signed_call)

lemma authorized_run_calls:
  "authorized (run_calls cs s) owner operator \<longleftrightarrow> after_calls owner cs (granted s owner) = Some operator"
  by (simp add: authorized_iff granted_run_calls)

end

lemmas oss_call_defs = oss_dispatch_def authorize_def cancel_authorize_def oss_register_def oss_update_def
  oss_destroy_def oss_deposit_event_def

lemma oss_signed_call:
  "AuthorityList (snd (oss_dispatch (SignedOrigin a) c s)) owner
     = (if a = owner then says c (AuthorityList s owner) else AuthorityList s owner)"
  by (cases c) (auto simp: oss_call_defs run_simps contains_key_def split: option.splits)

interpretation oss: oss_find_author is_authorized AuthorityList oss_dispatch
  by unfold_locales (auto simp: is_authorized_def oss_signed_call split: option.splits)

section \<open>Properties\<close>

text \<open>The state after a sequence of signed calls, each with its sender.\<close>

fun oss_run :: "(AccountId \<times> oss_call) list \<Rightarrow> 's oss_state_scheme \<Rightarrow> 's oss_state_scheme" where
  "oss_run [] s = s"
| "oss_run ((a, c) # cs) s = oss_run cs (snd (oss_dispatch (SignedOrigin a) c s))"

lemma oss_run_eq: "oss_run cs s = oss.run_calls cs s"
  by (induction cs s rule: oss_run.induct) simp_all

text \<open>
  C28: after any sequence of signed calls of the oss pallet, an operator is authorised for an
  owner exactly when the owner's own calls, read in order, end with granting it; the calls of
  other accounts do not matter.
\<close>
theorem authorization_is_the_owners:
  "is_authorized (oss_run cs s) owner operator
     \<longleftrightarrow> after_calls owner (filter (\<lambda>(a, c). a = owner) cs) (AuthorityList s owner) = Some operator"
proof -
  have "after_calls owner (filter (\<lambda>(a, c). a = owner) cs) old = after_calls owner cs old" for old
    by (induction cs arbitrary: old) auto
  then show ?thesis by (simp add: oss_run_eq oss.authorized_run_calls)
qed

definition ex_oss_with :: "'s \<Rightarrow> 's oss_state_scheme" where
  "ex_oss_with more' = ex_sh_with (oss_state_ext Map.empty Map.empty [] more')"

end
