(* ===== verification/Cacher.thy ===== *)
theory Cacher
  imports Oss
begin

text \<open>
  The cacher pallet (\<open>c-pallets/cacher\<close>): cachers register with a payee, an address and a
  price, and users pay bills for downloads. The lemmas show what a payment moves between
  accounts, and that it moves nothing when one of its bills cannot be paid.
\<close>

section \<open>Types and storage\<close>

datatype IpAddress = IPV4 "u8 list" u16 | IPV6 "u16 list" u16

record CacherInfo =
  payee :: AccountId
  ip :: IpAddress
  byte_price :: Balance

record Bill =
  bill_id :: "u8 list"
  to :: AccountId
  amount :: Balance
  bill_file_hash :: Hash
  slice_hash :: Hash
  expiration_time :: u64

datatype cacher_event =
    Register AccountId CacherInfo
  | Update AccountId CacherInfo
  | Logout AccountId
  | Pay AccountId "Bill list"

record ca_config = sh_config +
  BillsLimit :: nat

record ca_state = oss_state +
  Cachers :: "AccountId \<rightharpoonup> CacherInfo"
  cacher_events :: "cacher_event list"

abbreviation CaErr :: "cacher_error \<Rightarrow> dispatch_error" where
  "CaErr \<equiv> dispatch_error.Cacher"

definition cacher_deposit_event :: "cacher_event \<Rightarrow> ('s ca_state_scheme, unit) act" where
  "cacher_deposit_event ev = modify (cacher_events_update (\<lambda>es. es @ [ev]))"

section \<open>Extrinsics\<close>

definition cacher_register :: "origin \<Rightarrow> CacherInfo \<Rightarrow> ('s ca_state_scheme, unit) act" where
  "cacher_register origin info =
     bnd (ensure_signed origin) (\<lambda>sender.
     andthen (ensures (\<lambda>s. \<not> contains_key (Cachers s) sender) (CaErr CA_AlreadyRegistered))
    (andthen (modify (Cachers_update (\<lambda>m. m(sender \<mapsto> info))))
     (cacher_deposit_event (Register sender info))))"

definition cacher_update :: "origin \<Rightarrow> CacherInfo \<Rightarrow> ('s ca_state_scheme, unit) act" where
  "cacher_update origin info =
     bnd (ensure_signed origin) (\<lambda>sender.
     andthen (ensures (\<lambda>s. contains_key (Cachers s) sender) (CaErr CA_UnRegistered))
    (andthen (try_mutate_some Cachers Cachers_update sender (CaErr CA_OptionParseError) (\<lambda>_. ret info))
     (cacher_deposit_event (Update sender info))))"

definition cacher_logout :: "origin \<Rightarrow> ('s ca_state_scheme, unit) act" where
  "cacher_logout origin =
     bnd (ensure_signed origin) (\<lambda>sender.
     andthen (ensures (\<lambda>s. contains_key (Cachers s) sender) (CaErr CA_UnRegistered))
    (andthen (modify (Cachers_update (\<lambda>m. m(sender := None))))
     (cacher_deposit_event (Logout sender))))"

text \<open>
  A \<open>BoundedVec\<close> argument is decoded before the call: a list longer than the bound never
  reaches the function, so \<open>bills\<close> is taken as it is.
\<close>

definition pay :: "'t ca_config_scheme \<Rightarrow> origin \<Rightarrow> Bill list \<Rightarrow> ('s ca_state_scheme, unit) act" where
  "pay T origin bills = transactional (
     bnd (ensure_signed origin) (\<lambda>sender.
     andthen (for_each (\<lambda>bill. transfer T sender (to bill) (amount bill)) bills)
     (cacher_deposit_event (Pay sender bills))))"

section \<open>Properties\<close>

text \<open>What a list of bills pays to an account.\<close>

definition billed :: "(AccountId \<Rightarrow> bool) \<Rightarrow> Bill list \<Rightarrow> nat" where
  "billed P bills = sum_list (map (\<lambda>b. unat (amount b)) (filter (\<lambda>b. P (to b)) bills))"

lemma billed_simps [simp]:
  "billed P [] = 0" "billed P (b # bs) = (if P (to b) then unat (amount b) else 0) + billed P bs"
  by (simp_all add: billed_def)

lemma transfer_free:
  assumes "currency_laws T" and "cur_transfer T a b v bs = Inr bs'"
  shows "c \<noteq> a \<Longrightarrow> unat (free (bs' c)) = unat (free (bs c)) + (if b = c then unat v else 0)"
    and "unat (free (bs a)) = unat (free (bs' a)) + (if b \<noteq> a then unat v else 0)"
    and "reserved (bs' c) = reserved (bs c)"
proof -
  consider "a = b" "bs' = bs" | "a \<noteq> b" using transfer_self assms by blast
  then have "(c \<noteq> a \<longrightarrow> unat (free (bs' c)) = unat (free (bs c)) + (if b = c then unat v else 0))
    \<and> unat (free (bs a)) = unat (free (bs' a)) + (if b \<noteq> a then unat v else 0)
    \<and> reserved (bs' c) = reserved (bs c)"
  proof cases
    case 2
    then show ?thesis using transfer_moves [OF assms 2] by auto
  qed simp
  then show "c \<noteq> a \<Longrightarrow> unat (free (bs' c)) = unat (free (bs c)) + (if b = c then unat v else 0)"
    and "unat (free (bs a)) = unat (free (bs' a)) + (if b \<noteq> a then unat v else 0)"
    and "reserved (bs' c) = reserved (bs c)" by blast+
qed

lemma pay_loop:
  assumes "currency_laws T"
  shows "wp (for_each (\<lambda>bill. transfer T a (to bill) (amount bill)) bills)
     (\<lambda>_ t. (\<forall>c. c \<noteq> a \<longrightarrow> unat (free (balances t c)) = unat (free (balances s c)) + billed (\<lambda>b. b = c) bills)
        \<and> unat (free (balances s a)) = unat (free (balances t a)) + billed (\<lambda>b. b \<noteq> a) bills
        \<and> (\<forall>c. reserved (balances t c) = reserved (balances s c))) any_error s"
proof (induction bills arbitrary: s)
  case Nil
  then show ?case by (simp add: wp_rules)
next
  case (Cons b bills)
  show ?case
    unfolding for_each.simps wp_andthen wp_transfer
  proof (intro conjI allI impI TrueI)
    fix bs assume "cur_transfer T a (to b) (amount b) (balances s) = Inr bs"
    note moved = transfer_free [OF assms this]
    show "wp (for_each (\<lambda>bill. transfer T a (to bill) (amount bill)) bills) (\<lambda>_ t.
        (\<forall>c. c \<noteq> a \<longrightarrow> unat (free (balances t c)) = unat (free (balances s c)) + billed (\<lambda>x. x = c) (b # bills))
        \<and> unat (free (balances s a)) = unat (free (balances t a)) + billed (\<lambda>x. x \<noteq> a) (b # bills)
        \<and> (\<forall>c. reserved (balances t c) = reserved (balances s c))) any_error (s\<lparr>balances := bs\<rparr>)"
      by (rule wp_mono [OF Cons.IH]) (auto simp: moved)
  qed
qed

text \<open>
  \<open>pay\<close> is all or nothing. When it succeeds every other account has received exactly the
  sum of its bills and the payer has lost exactly the sum of the bills to others; when it
  fails nothing has moved.
\<close>
theorem pay_correct:
  assumes "currency_laws T"
  shows "(\<forall>t. pay T (SignedOrigin a) bills s = (Inr (), t) \<longrightarrow>
        (\<forall>c. c \<noteq> a \<longrightarrow> unat (free (balances t c)) = unat (free (balances s c)) + billed (\<lambda>b. b = c) bills)
        \<and> unat (free (balances s a)) = unat (free (balances t a)) + billed (\<lambda>b. b \<noteq> a) bills
        \<and> (\<forall>c. reserved (balances t c) = reserved (balances s c)))
   \<and> (\<forall>e t. pay T (SignedOrigin a) bills s = (Inl e, t) \<longrightarrow> t = s)"
    (is "(\<forall>t. _ \<longrightarrow> ?Q t) \<and> _")
proof -
  have "wp (pay T (SignedOrigin a) bills) (\<lambda>_. ?Q) (\<lambda>_ t. t = s) s"
    unfolding pay_def cacher_deposit_event_def wp_transactional wp_bnd wp_ensure_signed wp_andthen
    by (auto simp: wp_modify intro!: wp_mono [OF pay_loop [OF assms]])
  from wpD [OF this] wpE [OF this] show ?thesis by blast
qed

definition ca_conf :: "'t \<Rightarrow> 't ca_config_scheme" where
  "ca_conf more' = sh_conf (ca_config_ext 10 more')"

definition ex_ca_with :: "'s \<Rightarrow> 's ca_state_scheme" where
  "ex_ca_with more' = ex_oss_with (ca_state_ext Map.empty [] more')"

definition ex_bill :: "AccountId \<Rightarrow> Balance \<Rightarrow> Bill" where
  "ex_bill a v = \<lparr>bill_id = [], to = a, amount = v, bill_file_hash = 7, slice_hash = 8, expiration_time = 9\<rparr>"

lemma ex_pay: "\<exists>t. pay (ca_conf ()) (SignedOrigin 10) [ex_bill 11 5, ex_bill 12 7, ex_bill 11 3] (ex_ca_with ()) = (Inr (), t)"
  by (simp add: pay_def cacher_deposit_event_def ca_conf_def ex_ca_with_def ex_oss_with_def ex_bill_def sh_run)

theorem pay_correct_witness:
  "\<exists>t :: ca_state. pay (ca_conf ()) (SignedOrigin 10) [ex_bill 11 5, ex_bill 12 7, ex_bill 11 3] (ex_ca_with ()) = (Inr (), t)
     \<and> unat (free (balances t 11)) = unat (free (balances (ex_ca_with () :: ca_state) 11)) + 8"
proof -
  obtain t :: ca_state where t: "pay (ca_conf ()) (SignedOrigin 10) [ex_bill 11 5, ex_bill 12 7, ex_bill 11 3] (ex_ca_with ())
      = (Inr (), t)" using ex_pay by blast
  have "currency_laws (ca_conf ())" by (simp add: ca_conf_def sh_conf_laws)
  from pay_correct [OF this, THEN conjunct1, rule_format, OF t, THEN conjunct1, rule_format, of 11]
  show ?thesis using t by (auto simp: ex_bill_def)
qed

end
