(* ===== verification/Sminer.thy ===== *)
theory Sminer
  imports Cacher
begin

text \<open>
  The sminer pallet (\<open>c-pallets/sminer\<close>): registration of storage miners, their collateral
  and debt, the space they declare, the rewards they earn over 180 releases, punishments and
  the way out, as far as the trait \<open>MinerControl\<close> which the file bank and the audit use.

  The theory has the definitions; \<open>Sminer_Props\<close> has the invariants and properties.
\<close>

section \<open>Constants and types\<close>

definition STATE_POSITIVE :: string where "STATE_POSITIVE = ''positive''"
definition STATE_FROZEN :: string where "STATE_FROZEN = ''frozen''"
definition STATE_EXIT :: string where "STATE_EXIT = ''exit''"
definition STATE_LOCK :: string where "STATE_LOCK = ''lock''"
definition STATE_OFFLINE :: string where "STATE_OFFLINE = ''offline''"

lemmas miner_state_defs = STATE_POSITIVE_def STATE_FROZEN_def STATE_EXIT_def STATE_LOCK_def STATE_OFFLINE_def

definition FAUCET_VALUE :: u128 where "FAUCET_VALUE = 10000000000000000"
definition RELEASE_NUMBER :: u8 where "RELEASE_NUMBER = 180"
definition BASE_LIMIT :: u128 where "BASE_LIMIT = 2000000000000000"

definition IDLE_MUTI :: "'t config_scheme \<Rightarrow> u32" where "IDLE_MUTI T = perbill_from_percent T 30"
definition SERVICE_MUTI :: "'t config_scheme \<Rightarrow> u32" where "SERVICE_MUTI T = perbill_from_percent T 70"
definition ISSUE_MUTI :: "'t config_scheme \<Rightarrow> u32" where "ISSUE_MUTI T = perbill_from_percent T 20"
definition EACH_SHARE_MUTI :: "'t config_scheme \<Rightarrow> u32" where "EACH_SHARE_MUTI T = perbill_from_percent T 80"
definition IDLE_PUNI_MUTI :: "'t config_scheme \<Rightarrow> u32" where "IDLE_PUNI_MUTI T = perbill_from_percent T 10"
definition SERVICE_PUNI_MUTI :: "'t config_scheme \<Rightarrow> u32" where "SERVICE_PUNI_MUTI T = perbill_from_percent T 25"

lemmas muti_defs = IDLE_MUTI_def SERVICE_MUTI_def ISSUE_MUTI_def EACH_SHARE_MUTI_def IDLE_PUNI_MUTI_def
  SERVICE_PUNI_MUTI_def

text \<open>\<open>SminerAccount\<close> is \<open>PalletId::get().into_account_truncating()\<close>, the reward pot.\<close>

record sm_config = ca_config +
  SminerAccount :: AccountId
  ItemLimit :: nat
  OneDayBlock :: BlockNumber

record MinerInfo =
  beneficiary :: AccountId
  peer_id :: PeerId
  collaterals :: Balance
  debt :: Balance
  miner_state :: string
  idle_space :: u128
  service_space :: u128
  m_lock_space :: u128

record RewardOrder =
  order_reward :: Balance
  each_share :: Balance
  award_count :: u8
  has_issued :: bool

record Reward =
  total_reward :: Balance
  reward_issued :: Balance
  currently_available_reward :: Balance
  order_list :: "RewardOrder list"

record FaucetRecord =
  last_claim_time :: BlockNumber

datatype sm_event =
    Registered AccountId Balance
  | DrawFaucetMoney
  | FaucetTopUpMoney AccountId
  | LessThan24Hours BlockNumber BlockNumber
  | AlreadyFrozen AccountId
  | IncreaseCollateral AccountId Balance
  | Deposit Balance
  | UpdataBeneficiary AccountId AccountId
  | UpdataIp AccountId PeerId PeerId
  | Receive AccountId Balance

record sm_state = ca_state +
  MinerItems :: "AccountId \<rightharpoonup> MinerInfo"
  AllMiner :: "AccountId list"
  RewardMap :: "AccountId \<rightharpoonup> Reward"
  FaucetRecordMap :: "AccountId \<rightharpoonup> FaucetRecord"
  CurrencyReward :: Balance
  sm_events :: "sm_event list"

abbreviation SMErr :: "sminer_error \<Rightarrow> dispatch_error" where
  "SMErr \<equiv> dispatch_error.Sminer"

abbreviation try_mutate_miner ::
  "AccountId \<Rightarrow> sminer_error \<Rightarrow> (MinerInfo \<Rightarrow> ('s sm_state_scheme, MinerInfo) act) \<Rightarrow> ('s sm_state_scheme, unit) act" where
  "try_mutate_miner acc e f \<equiv> try_mutate_some MinerItems MinerItems_update acc (SMErr e) f"

abbreviation try_get_miner :: "AccountId \<Rightarrow> sminer_error \<Rightarrow> ('s sm_state_scheme, MinerInfo) act" where
  "try_get_miner acc e \<equiv> gets_some (\<lambda>s. MinerItems s acc) (SMErr e)"

definition sm_deposit_event :: "sm_event \<Rightarrow> ('s sm_state_scheme, unit) act" where
  "sm_deposit_event ev = modify (sm_events_update (\<lambda>es. es @ [ev]))"

definition vec_to_bound :: "'t sm_config_scheme \<Rightarrow> 'a list \<Rightarrow> ('s, 'a list) act" where
  "vec_to_bound T param = ok_or (bounded (ItemLimit T) param) (SMErr SM_StorageLimitReached)"

section \<open>Power, collateral limit and state\<close>

text \<open>The sum of the two powers is unchecked.\<close>

definition calculate_power :: "'t config_scheme \<Rightarrow> u128 \<Rightarrow> u128 \<Rightarrow> u128" where
  "calculate_power T idle_space' service_space' =
     perbill_mul_floor T (IDLE_MUTI T) idle_space' + perbill_mul_floor T (SERVICE_MUTI T) service_space'"

definition check_collateral_limit :: "u128 \<Rightarrow> dispatch_error + Balance" where
  "check_collateral_limit pow =
     (case checked_div pow T_BYTE of
        None \<Rightarrow> Inl (SMErr SM_Overflow)
      | Some tibs \<Rightarrow>
          (case checked_mul BASE_LIMIT (1 + tibs) of
             None \<Rightarrow> Inl (SMErr SM_Overflow)
           | Some limit \<Rightarrow> Inr limit))"

definition check_state :: "AccountId \<Rightarrow> ('s sm_state_scheme, string) act" where
  "check_state acc = bnd (try_get_miner acc SM_NotMiner) (\<lambda>m. ret (miner_state m))"

section \<open>Extrinsics\<close>

definition regnstk ::
  "'t sm_config_scheme \<Rightarrow> origin \<Rightarrow> AccountId \<Rightarrow> PeerId \<Rightarrow> Balance \<Rightarrow> ('s sm_state_scheme, unit) act" where
  "regnstk T origin beneficiary' peer_id' staking_val = transactional (
     bnd (ensure_signed origin) (\<lambda>sender.
     andthen (ensures (\<lambda>s. \<not> contains_key (MinerItems s) sender) (SMErr SM_AlreadyRegistered))
    (andthen (reserve T sender staking_val)
    (bnd (vec_to_bound T STATE_POSITIVE) (\<lambda>st.
     andthen (modify (MinerItems_update (\<lambda>m. m(sender \<mapsto>
       \<lparr>beneficiary = beneficiary', peer_id = peer_id', collaterals = staking_val, debt = 0,
        miner_state = st, idle_space = 0, service_space = 0, m_lock_space = 0\<rparr>))))
    (bnd (gets_some (\<lambda>s. try_push (ItemLimit T) (AllMiner s) sender) (SMErr SM_StorageLimitReached)) (\<lambda>all_miner.
     andthen (modify (AllMiner_update (\<lambda>_. all_miner)))
    (andthen (modify (RewardMap_update (\<lambda>m. m(sender \<mapsto>
       \<lparr>total_reward = 0, reward_issued = 0, currently_available_reward = 0, order_list = []\<rparr>))))
     (sm_deposit_event (Registered sender staking_val))))))))))"

definition increase_collateral ::
  "'t sm_config_scheme \<Rightarrow> origin \<Rightarrow> Balance \<Rightarrow> ('s sm_state_scheme, unit) act" where
  "increase_collateral T origin collaterals' = transactional (
     bnd (ensure_signed origin) (\<lambda>sender.
     andthen (ensures (\<lambda>s. contains_key (MinerItems s) sender) (SMErr SM_NotMiner))
    (bnd (try_mutate MinerItems MinerItems_update sender (\<lambda>miner_info_opt.
       bnd (ok_or miner_info_opt (SMErr SM_ConversionError)) (\<lambda>miner_info.
       bnd (if debt miner_info > 0
            then if debt miner_info > collaterals'
                 then bnd (ok_or (checked_sub (debt miner_info) collaterals') (SMErr SM_Overflow)) (\<lambda>d. ret (d, 0))
                 else bnd (ok_or (checked_sub collaterals' (debt miner_info)) (SMErr SM_Overflow)) (\<lambda>r. ret (0, r))
            else ret (debt miner_info, collaterals')) (\<lambda>(debt', remaining).
       bnd (ok_or (checked_add (collaterals miner_info) remaining) (SMErr SM_Overflow)) (\<lambda>balance.
       bnd (if miner_state miner_info = STATE_FROZEN
            then bnd (lift (check_collateral_limit (calculate_power T (idle_space miner_info) (service_space miner_info))))
                   (\<lambda>limit. if balance \<ge> limit then vec_to_bound T STATE_POSITIVE else ret (miner_state miner_info))
            else ret (miner_state miner_info)) (\<lambda>st.
       andthen (reserve T sender remaining)
       (ret (balance, Some (miner_info\<lparr>debt := debt', collaterals := balance, miner_state := st\<rparr>)))))))))
     (\<lambda>balance. sm_deposit_event (IncreaseCollateral sender balance)))))"

definition update_beneficiary :: "origin \<Rightarrow> AccountId \<Rightarrow> ('s sm_state_scheme, unit) act" where
  "update_beneficiary origin beneficiary' = transactional (
     bnd (ensure_signed origin) (\<lambda>sender.
     andthen (ensures (\<lambda>s. contains_key (MinerItems s) sender) (SMErr SM_NotMiner))
    (andthen (try_mutate_miner sender SM_ConversionError (\<lambda>m. ret (m\<lparr>beneficiary := beneficiary'\<rparr>)))
     (sm_deposit_event (UpdataBeneficiary sender beneficiary')))))"

definition update_peer_id :: "origin \<Rightarrow> PeerId \<Rightarrow> ('s sm_state_scheme, unit) act" where
  "update_peer_id origin peer_id' = transactional (
     bnd (ensure_signed origin) (\<lambda>sender.
     andthen (ensures (\<lambda>s. contains_key (MinerItems s) sender) (SMErr SM_NotMiner))
    (bnd (try_mutate MinerItems MinerItems_update sender (\<lambda>miner_info_opt.
       bnd (ok_or miner_info_opt (SMErr SM_ConversionError)) (\<lambda>m.
       ret (peer_id m, Some (m\<lparr>peer_id := peer_id'\<rparr>)))))
     (\<lambda>old. sm_deposit_event (UpdataIp sender old peer_id')))))"

definition receive_reward :: "'t sm_config_scheme \<Rightarrow> origin \<Rightarrow> ('s sm_state_scheme, unit) act" where
  "receive_reward T origin = transactional (
     bnd (ensure_signed origin) (\<lambda>sender.
     bnd (gets (\<lambda>s. MinerItems s sender)) (\<lambda>miner_opt.
     (case miner_opt of
        None \<Rightarrow> ret ()
      | Some miner \<Rightarrow>
          andthen (ensure (miner_state miner = STATE_POSITIVE) (SMErr SM_NotpositiveState))
          (try_mutate_some RewardMap RewardMap_update sender (SMErr SM_Unexpected) (\<lambda>reward.
             andthen (ensure (currently_available_reward reward \<noteq> 0) (SMErr SM_NoReward))
            (andthen (transfer T (SminerAccount T) sender (currently_available_reward reward))
            (bnd (ok_or (checked_add (reward_issued reward) (currently_available_reward reward)) (SMErr SM_Overflow)) (\<lambda>issued.
             andthen (sm_deposit_event (Receive sender (currently_available_reward reward)))
             (ret (reward\<lparr>reward_issued := issued, currently_available_reward := 0\<rparr>)))))))))))"

definition faucet_top_up :: "'t sm_config_scheme \<Rightarrow> origin \<Rightarrow> Balance \<Rightarrow> ('s sm_state_scheme, unit) act" where
  "faucet_top_up T origin award = transactional (
     bnd (ensure_signed origin) (\<lambda>sender.
     andthen (transfer T sender (SminerAccount T) award)
     (sm_deposit_event (FaucetTopUpMoney sender))))"

definition faucet :: "'t sm_config_scheme \<Rightarrow> origin \<Rightarrow> AccountId \<Rightarrow> ('s sm_state_scheme, unit) act" where
  "faucet T origin to' = transactional (
     bnd (ensure_signed origin) (\<lambda>_.
     bnd (gets (\<lambda>s. contains_key (FaucetRecordMap s) to')) (\<lambda>known.
     andthen
      (if \<not> known then
         andthen (modify (FaucetRecordMap_update (\<lambda>m. m(to' \<mapsto> \<lparr>last_claim_time = 0\<rparr>))))
        (bnd (gets block_number) (\<lambda>now.
         andthen (transfer T (SminerAccount T) to' FAUCET_VALUE)
         (modify (FaucetRecordMap_update (\<lambda>m. m(to' \<mapsto> \<lparr>last_claim_time = now\<rparr>))))))
       else
         bnd (gets_some (\<lambda>s. FaucetRecordMap s to') (SMErr SM_DataNotExist)) (\<lambda>faucet_record.
         bnd (gets block_number) (\<lambda>now.
         bnd (if now \<ge> OneDayBlock T
              then bnd (ok_or (checked_sub now (OneDayBlock T)) (SMErr SM_Overflow)) (\<lambda>day_ago.
                   ret (last_claim_time faucet_record \<le> day_ago))
              else ret (last_claim_time faucet_record \<le> 0)) (\<lambda>flag.
         andthen (act_when (\<not> flag) (sm_deposit_event (LessThan24Hours (last_claim_time faucet_record) now)))
        (andthen (ensure flag (SMErr SM_LessThan24Hours))
        (andthen (transfer T (SminerAccount T) to' FAUCET_VALUE)
         (modify (FaucetRecordMap_update (\<lambda>m. m(to' \<mapsto> \<lparr>last_claim_time = now\<rparr>))))))))))
      (sm_deposit_event DrawFaucetMoney))))"

section \<open>Space of a miner\<close>

definition add_miner_idle_space :: "AccountId \<Rightarrow> u128 \<Rightarrow> ('s sm_state_scheme, unit) act" where
  "add_miner_idle_space acc increment =
     andthen (ensures (\<lambda>s. contains_key (MinerItems s) acc) (SMErr SM_NotMiner))
    (bnd (check_state acc) (\<lambda>state.
     if state = STATE_EXIT then ret ()
     else try_mutate_miner acc SM_ConversionError (\<lambda>m.
       bnd (ok_or (checked_add (idle_space m) increment) (SMErr SM_Overflow)) (\<lambda>v. ret (m\<lparr>idle_space := v\<rparr>)))))"

definition sub_miner_idle_space :: "AccountId \<Rightarrow> u128 \<Rightarrow> ('s sm_state_scheme, unit) act" where
  "sub_miner_idle_space acc increment =
     bnd (gets (\<lambda>s. contains_key (MinerItems s) acc)) (\<lambda>known.
     if \<not> known then ret () else
     bnd (check_state acc) (\<lambda>state.
     if state = STATE_EXIT then ret ()
     else try_mutate_miner acc SM_ConversionError (\<lambda>m.
       bnd (ok_or (checked_sub (idle_space m) increment) (SMErr SM_Overflow)) (\<lambda>v. ret (m\<lparr>idle_space := v\<rparr>)))))"

definition add_miner_service_space :: "AccountId \<Rightarrow> u128 \<Rightarrow> ('s sm_state_scheme, unit) act" where
  "add_miner_service_space acc increment =
     bnd (gets (\<lambda>s. contains_key (MinerItems s) acc)) (\<lambda>known.
     if \<not> known then ret () else
     bnd (check_state acc) (\<lambda>state.
     if state = STATE_EXIT then ret ()
     else try_mutate_miner acc SM_ConversionError (\<lambda>m.
       bnd (ok_or (checked_add (service_space m) increment) (SMErr SM_Overflow)) (\<lambda>v. ret (m\<lparr>service_space := v\<rparr>)))))"

definition sub_miner_service_space :: "AccountId \<Rightarrow> u128 \<Rightarrow> ('s sm_state_scheme, unit) act" where
  "sub_miner_service_space acc increment =
     bnd (gets (\<lambda>s. contains_key (MinerItems s) acc)) (\<lambda>known.
     if \<not> known then ret () else
     bnd (check_state acc) (\<lambda>state.
     if state = STATE_EXIT then ret ()
     else try_mutate_miner acc SM_ConversionError (\<lambda>m.
       bnd (ok_or (checked_sub (service_space m) increment) (SMErr SM_Overflow)) (\<lambda>v. ret (m\<lparr>service_space := v\<rparr>)))))"

definition lock_space :: "AccountId \<Rightarrow> u128 \<Rightarrow> ('s sm_state_scheme, unit) act" where
  "lock_space acc space =
     try_mutate_miner acc SM_NotExisted (\<lambda>m.
       bnd (ok_or (checked_add (m_lock_space m) space) (SMErr SM_Overflow)) (\<lambda>l.
       bnd (ok_or (checked_sub (idle_space m) space) (SMErr SM_Overflow)) (\<lambda>i.
       ret (m\<lparr>m_lock_space := l, idle_space := i\<rparr>))))"

definition unlock_space :: "AccountId \<Rightarrow> u128 \<Rightarrow> ('s sm_state_scheme, unit) act" where
  "unlock_space acc space =
     try_mutate MinerItems MinerItems_update acc (\<lambda>miner_opt.
       (case miner_opt of
          None \<Rightarrow> ret ((), None)
        | Some m \<Rightarrow>
            bnd (ok_or (checked_sub (m_lock_space m) space) (SMErr SM_Overflow)) (\<lambda>l.
            bnd (ok_or (checked_add (idle_space m) space) (SMErr SM_Overflow)) (\<lambda>i.
            ret ((), Some (m\<lparr>m_lock_space := l, idle_space := i\<rparr>))))))"

definition unlock_space_to_service :: "AccountId \<Rightarrow> u128 \<Rightarrow> ('s sm_state_scheme, unit) act" where
  "unlock_space_to_service acc space =
     try_mutate_miner acc SM_NotExisted (\<lambda>m.
       bnd (ok_or (checked_sub (m_lock_space m) space) (SMErr SM_Overflow)) (\<lambda>l.
       bnd (ok_or (checked_add (service_space m) space) (SMErr SM_Overflow)) (\<lambda>v.
       ret (m\<lparr>m_lock_space := l, service_space := v\<rparr>))))"

section \<open>Rewards\<close>

text \<open>The loop over the reward orders: each unfinished order releases one more share.\<close>

fun release_orders :: "RewardOrder list \<Rightarrow> Balance \<Rightarrow> (RewardOrder list \<times> Balance) option" where
  "release_orders [] available = Some ([], available)"
| "release_orders (order # orders) available =
     (if award_count order = RELEASE_NUMBER
      then map_option (\<lambda>(os, a). (order # os, a)) (release_orders orders available)
      else (case checked_add available (each_share order) of
              None \<Rightarrow> None
            | Some available' \<Rightarrow>
                map_option (\<lambda>(os, a). (order\<lparr>award_count := award_count order + 1\<rparr> # os, a))
                  (release_orders orders available')))"

definition calculate_miner_reward ::
  "'t sm_config_scheme \<Rightarrow> AccountId \<Rightarrow> u128 \<Rightarrow> u128 \<Rightarrow> u128 \<Rightarrow> u128 \<Rightarrow> u128 \<Rightarrow> ('s sm_state_scheme, unit) act" where
  "calculate_miner_reward T miner total_reward' total_idle_space total_service_space miner_idle_space miner_service_space =
     (let total_power = calculate_power T total_idle_space total_service_space;
          miner_power = calculate_power T miner_idle_space miner_service_space;
          miner_prop = perbill_from_rational T miner_power total_power;
          this_round_reward = perbill_mul_floor T miner_prop total_reward';
          share = perbill_mul_floor T (EACH_SHARE_MUTI T) this_round_reward
      in
     bnd (ok_or (checked_div share (ucast RELEASE_NUMBER)) (SMErr SM_Overflow)) (\<lambda>each_share'.
     let issued = perbill_mul_floor T (ISSUE_MUTI T) this_round_reward;
         order = \<lparr>order_reward = this_round_reward, each_share = each_share', award_count = 1, has_issued = True\<rparr>
     in
     andthen (try_mutate_some RewardMap RewardMap_update miner (SMErr SM_Unexpected) (\<lambda>reward_info.
       bnd (ok_or (release_orders (order_list reward_info) (currently_available_reward reward_info)) (SMErr SM_Overflow))
         (\<lambda>(orders, available).
       let orders = (if length orders = unat RELEASE_NUMBER then tl orders else orders) in
       bnd (ok_or (checked_add available issued) (SMErr SM_Overflow)) (\<lambda>available.
       bnd (ok_or (checked_add available (each_share order)) (SMErr SM_Overflow)) (\<lambda>available.
       bnd (ok_or (checked_add (total_reward reward_info) (order_reward order)) (SMErr SM_Overflow)) (\<lambda>total.
       bnd (ok_or (try_push (unat RELEASE_NUMBER) orders order) (SMErr SM_BoundedVecError)) (\<lambda>orders.
       ret (reward_info\<lparr>currently_available_reward := available, total_reward := total, order_list := orders\<rparr>))))))))
    (bnd (gets_some (\<lambda>s. checked_sub (CurrencyReward s) (order_reward order)) (SMErr SM_Overflow)) (\<lambda>v.
     modify (CurrencyReward_update (\<lambda>_. v))))))"

section \<open>Punishment\<close>

text \<open>
  In the second branch the collateral is set to zero before the debt is computed from it; the
  additions to \<open>CurrencyReward\<close> are unchecked.
\<close>

definition deposit_punish :: "'t sm_config_scheme \<Rightarrow> AccountId \<Rightarrow> Balance \<Rightarrow> ('s sm_state_scheme, unit) act" where
  "deposit_punish T miner punish_amount =
     try_mutate_miner miner SM_NotMiner (\<lambda>miner_info.
       bnd (if collaterals miner_info > punish_amount then
              andthen (unreserve T miner punish_amount)
             (andthen (transfer T miner (SminerAccount T) punish_amount)
             (andthen (modify (CurrencyReward_update (\<lambda>reward. reward + punish_amount)))
             (bnd (ok_or (checked_sub (collaterals miner_info) punish_amount) (SMErr SM_Overflow)) (\<lambda>c.
              ret (miner_info\<lparr>collaterals := c\<rparr>)))))
            else
              andthen (unreserve T miner (collaterals miner_info))
             (andthen (transfer T miner (SminerAccount T) (collaterals miner_info))
             (andthen (modify (CurrencyReward_update (\<lambda>reward. reward + collaterals miner_info)))
             (let miner_info = miner_info\<lparr>collaterals := 0\<rparr> in
              bnd (ok_or (checked_sub punish_amount (collaterals miner_info)) (SMErr SM_Overflow)) (\<lambda>d.
              ret (miner_info\<lparr>debt := d\<rparr>)))))) (\<lambda>miner_info.
       bnd (lift (check_collateral_limit (calculate_power T (idle_space miner_info) (service_space miner_info)))) (\<lambda>limit.
       if collaterals miner_info < limit
       then bnd (ok_or (bounded (ItemLimit T) STATE_FROZEN) (SMErr SM_BoundedVecError)) (\<lambda>st.
            ret (miner_info\<lparr>miner_state := st\<rparr>))
       else ret miner_info)))"

definition idle_punish :: "'t sm_config_scheme \<Rightarrow> AccountId \<Rightarrow> u128 \<Rightarrow> u128 \<Rightarrow> ('s sm_state_scheme, unit) act" where
  "idle_punish T miner idle_space' service_space' =
     bnd (lift (check_collateral_limit (calculate_power T idle_space' service_space'))) (\<lambda>limit.
     deposit_punish T miner (perbill_mul_floor T (IDLE_PUNI_MUTI T) limit))"

definition service_punish :: "'t sm_config_scheme \<Rightarrow> AccountId \<Rightarrow> u128 \<Rightarrow> u128 \<Rightarrow> ('s sm_state_scheme, unit) act" where
  "service_punish T miner idle_space' service_space' =
     bnd (lift (check_collateral_limit (calculate_power T idle_space' service_space'))) (\<lambda>limit.
     deposit_punish T miner (perbill_mul_floor T (SERVICE_PUNI_MUTI T) limit))"

definition clear_punish :: "'t sm_config_scheme \<Rightarrow> AccountId \<Rightarrow> u8 \<Rightarrow> u128 \<Rightarrow> u128 \<Rightarrow> ('s sm_state_scheme, unit) act" where
  "clear_punish T miner level idle_space' service_space' =
     bnd (lift (check_collateral_limit (calculate_power T idle_space' service_space'))) (\<lambda>limit.
     bnd (if level = 1 then ret (perbill_mul_floor T (perbill_from_percent T 30) limit)
          else if level = 2 then ret (perbill_mul_floor T (perbill_from_percent T 60) limit)
          else if level = 3 then ret limit
          else throw (SMErr SM_Unexpected)) (\<lambda>punish_amount.
     deposit_punish T miner punish_amount))"

section \<open>Leaving\<close>

text \<open>
  Both ways out give the rewards that were not paid back to the pot's accounting; they differ
  in the state they leave the miner in.
\<close>

definition give_up_rewards :: "AccountId \<Rightarrow> ('s sm_state_scheme, unit) act" where
  "give_up_rewards acc =
     andthen (bnd (gets (\<lambda>s. RewardMap s acc)) (\<lambda>reward_opt.
       (case reward_opt of
          None \<Rightarrow> ret ()
        | Some reward_info \<Rightarrow>
            bnd (ok_or (checked_sub (total_reward reward_info) (reward_issued reward_info)) (SMErr SM_Overflow)) (\<lambda>reward.
            modify (CurrencyReward_update (\<lambda>v. v + reward))))))
    (andthen (modify (AllMiner_update (filter (\<lambda>a. a \<noteq> acc))))
     (modify (RewardMap_update (\<lambda>m. m(acc := None)))))"

definition force_miner_exit :: "'t sm_config_scheme \<Rightarrow> AccountId \<Rightarrow> ('s sm_state_scheme, unit) act" where
  "force_miner_exit T acc =
     andthen (give_up_rewards acc)
     (try_mutate_miner acc SM_Unexpected (\<lambda>m.
        bnd (ok_or (bounded (ItemLimit T) STATE_OFFLINE) (SMErr SM_BoundedVecError)) (\<lambda>st.
        ret (m\<lparr>miner_state := st\<rparr>))))"

definition execute_exit :: "'t sm_config_scheme \<Rightarrow> AccountId \<Rightarrow> ('s sm_state_scheme, unit) act" where
  "execute_exit T acc =
     andthen (give_up_rewards acc)
     (try_mutate_miner acc SM_NotMiner (\<lambda>m.
        bnd (vec_to_bound T STATE_EXIT) (\<lambda>st. ret (m\<lparr>miner_state := st\<rparr>))))"

definition withdraw :: "'t sm_config_scheme \<Rightarrow> AccountId \<Rightarrow> ('s sm_state_scheme, unit) act" where
  "withdraw T acc =
     bnd (try_get_miner acc SM_NotMiner) (\<lambda>m.
     andthen (unreserve T acc (collaterals m))
     (modify (MinerItems_update (\<lambda>ms. ms(acc := None)))))"

definition on_nonzero_unbalanced :: "'t sm_config_scheme \<Rightarrow> Balance \<Rightarrow> ('s sm_state_scheme, unit) act" where
  "on_nonzero_unbalanced T numeric_amount =
     andthen (modify (\<lambda>s. s\<lparr>balances := cur_resolve_creating T (SminerAccount T) numeric_amount (balances s)\<rparr>))
    (andthen (modify (CurrencyReward_update (\<lambda>v. v + numeric_amount)))
     (sm_deposit_event (Deposit numeric_amount)))"

section \<open>The rest of the trait \<open>MinerControl\<close>\<close>

definition get_power :: "AccountId \<Rightarrow> ('s sm_state_scheme, u128 \<times> u128) act" where
  "get_power acc =
     andthen (ensures (\<lambda>s. contains_key (MinerItems s) acc) (SMErr SM_NotMiner))
    (bnd (try_get_miner acc SM_NotMiner) (\<lambda>m. ret (idle_space m, service_space m)))"

definition get_miner_idle_space :: "AccountId \<Rightarrow> ('s sm_state_scheme, u128) act" where
  "get_miner_idle_space acc = bnd (try_get_miner acc SM_NotExisted) (\<lambda>m. ret (idle_space m))"

definition miner_is_exist :: "AccountId \<Rightarrow> 's sm_state_scheme \<Rightarrow> bool" where
  "miner_is_exist acc s = contains_key (MinerItems s) acc"

definition get_miner_state :: "AccountId \<Rightarrow> ('s sm_state_scheme, string) act" where
  "get_miner_state acc = bnd (try_get_miner acc SM_NotMiner) (\<lambda>m. ret (miner_state m))"

definition get_all_miner :: "('s sm_state_scheme, AccountId list) act" where
  "get_all_miner = gets AllMiner"

definition get_miner_count :: "'s sm_state_scheme \<Rightarrow> u32" where
  "get_miner_count s = of_nat (card (dom (MinerItems s)))"

definition get_reward :: "'s sm_state_scheme \<Rightarrow> u128" where
  "get_reward s = CurrencyReward s"

definition is_positive :: "AccountId \<Rightarrow> ('s sm_state_scheme, bool) act" where
  "is_positive miner = bnd (get_miner_state miner) (\<lambda>st. ret (st = STATE_POSITIVE))"

definition is_lock :: "AccountId \<Rightarrow> ('s sm_state_scheme, bool) act" where
  "is_lock miner = bnd (get_miner_state miner) (\<lambda>st. ret (st = STATE_LOCK))"

definition update_miner_state :: "'t sm_config_scheme \<Rightarrow> AccountId \<Rightarrow> string \<Rightarrow> ('s sm_state_scheme, unit) act" where
  "update_miner_state T miner state =
     andthen (ensure (state \<in> {STATE_POSITIVE, STATE_FROZEN, STATE_EXIT, STATE_LOCK}) (SMErr SM_Overflow))
     (try_mutate_miner miner SM_NotMiner (\<lambda>m.
        bnd (ok_or (bounded (ItemLimit T) state) (SMErr SM_BoundedVecError)) (\<lambda>st.
        ret (m\<lparr>miner_state := st\<rparr>))))"

definition test_update_miner_idle_space :: "AccountId \<Rightarrow> u128 \<Rightarrow> ('s sm_state_scheme, unit) act" where
  "test_update_miner_idle_space acc space = try_mutate_miner acc SM_Overflow (\<lambda>m. ret (m\<lparr>idle_space := space\<rparr>))"

end
