(* ===== verification/Sminer_Props.thy ===== *)
theory Sminer_Props
  imports Sminer
begin

text \<open>
  Correctness of the sminer pallet: how rewards are released (\<open>reward_wf\<close>), that the reward pot
  covers what it owes (\<open>solvent\<close>), that collateral is backed by reserved balance
  (\<open>collateral_ok\<close>) and that the list of miners agrees with the maps (\<open>roster_ok\<close>); what
  punishments and collateral payments do; and the laws of a miner's space on which the file
  bank relies.
\<close>

section \<open>Reward orders\<close>

text \<open>
  The newest order has released one share, the one before two, and so on; an order that has
  released all its shares is finished.
\<close>

fun countdown :: "nat \<Rightarrow> nat list" where
  "countdown 0 = []"
| "countdown (Suc n) = Suc n # countdown n"

definition shares_left :: "RewardOrder list \<Rightarrow> nat" where
  "shares_left os = sum_list (map (\<lambda>order. (180 - unat (award_count order)) * unat (each_share order)) os)"

definition counts :: "RewardOrder list \<Rightarrow> nat list" where
  "counts = map (\<lambda>order. unat (award_count order))"

definition reward_wf :: "Reward \<Rightarrow> bool" where
  "reward_wf r \<longleftrightarrow> length (order_list r) \<le> 180 \<and> counts (order_list r) = countdown (length (order_list r))
     \<and> unat (reward_issued r) + unat (currently_available_reward r) + shares_left (order_list r)
         \<le> unat (total_reward r)"

definition owed :: "Reward \<Rightarrow> nat" where
  "owed r = unat (total_reward r) - unat (reward_issued r)"

lemma counts_simps [simp]:
  "counts [] = []" "counts (order # os) = unat (award_count order) # counts os"
  "counts (os @ os') = counts os @ counts os'" "length (counts os) = length os"
  by (simp_all add: counts_def)

lemma shares_left_simps [simp]:
  "shares_left [] = 0"
  "shares_left (order # os) = (180 - unat (award_count order)) * unat (each_share order) + shares_left os"
  "shares_left (os @ os') = shares_left os + shares_left os'"
  by (simp_all add: shares_left_def)

lemma countdown_le: "c \<in> set (countdown n) \<Longrightarrow> 0 < c \<and> c \<le> n"
  by (induction n) auto

lemma length_countdown [simp]: "length (countdown n) = n"
  by (induction n) auto

lemma countdown_Suc: "map Suc (countdown n) @ [1] = countdown (Suc n)"
  by (induction n) auto

lemma unat_RELEASE_NUMBER [simp]: "unat RELEASE_NUMBER = 180"
  by (simp add: RELEASE_NUMBER_def)

lemma release_orders_spec:
  assumes "release_orders os a = Some (os', a')" and "\<forall>c\<in>set (counts os). c \<le> 180"
  shows "counts os' = map (\<lambda>c. if c = 180 then c else Suc c) (counts os)
    \<and> unat a' + shares_left os' = unat a + shares_left os \<and> length os' = length os"
  using assms
proof (induction os a arbitrary: os' a' rule: release_orders.induct)
  case (2 order os a)
  have done_iff: "award_count order = RELEASE_NUMBER \<longleftrightarrow> unat (award_count order) = 180"
    by (simp add: word_unat_eq_iff)
  show ?case
  proof (cases "award_count order = RELEASE_NUMBER")
    case True
    with 2 done_iff show ?thesis by auto
  next
    case False
    then have "unat (award_count order) < 180" using 2 done_iff by auto
    moreover from this have "unat (award_count order + 1) = Suc (unat (award_count order))"
      by (subst unat_add_eq) auto
    moreover have "(180 - unat (award_count order)) * e = e + (180 - Suc (unat (award_count order))) * e" for e
      unfolding Suc_diff_Suc [OF \<open>unat (award_count order) < 180\<close>, symmetric] by (rule mult_Suc)
    ultimately show ?thesis using 2 False done_iff by (auto split: option.splits simp: checked_add_Some)
  qed
qed auto

text \<open>One round on the order list of a well-formed reward.\<close>

lemma order_round:
  assumes "release_orders os a = Some (os', a')" and "length os \<le> 180" and "counts os = countdown (length os)"
    and "award_count order = 1"
    and "os'' = (if length os' = 180 then tl os' else os') @ [order]"
  shows "length os'' \<le> 180" and "counts os'' = countdown (length os'')"
    and "unat a' + shares_left os'' = unat a + shares_left os + 179 * unat (each_share order)"
proof -
  have le: "\<forall>c\<in>set (counts os). c \<le> 180" using assms(2,3) countdown_le by fastforce
  have spec: "counts os' = map (\<lambda>c. if c = 180 then c else Suc c) (counts os)"
    "unat a' + shares_left os' = unat a + shares_left os" "length os' = length os"
    using release_orders_spec [OF assms(1) le] by auto
  have "length os'' \<le> 180 \<and> counts os'' = countdown (length os'')
    \<and> unat a' + shares_left os'' = unat a + shares_left os + 179 * unat (each_share order)"
  proof (cases "length os = 180")
    case False
    then have "map (\<lambda>c. if c = 180 then c else Suc c) (countdown (length os)) = map Suc (countdown (length os))"
      using assms(2) countdown_le by fastforce
    then have "counts os' = map Suc (countdown (length os))" using spec(1) assms(3) by argo
    with False show ?thesis using assms spec(2,3) countdown_Suc [of "length os"] by simp
  next
    case True
    then obtain first rest where os': "os' = first # rest" using spec by (cases os') auto
    have cd: "countdown 180 = 180 # countdown 179" using countdown.simps(2) [of 179] by (simp del: countdown.simps)
    have "map (\<lambda>c. if c = 180 then c else Suc c) (countdown 179) = map Suc (countdown 179)"
      using countdown_le by fastforce
    then have "unat (award_count first) = 180" "counts rest = map Suc (countdown 179)"
      using spec True os' assms(3) cd by auto
    then show ?thesis using True assms spec countdown_Suc [of 179] os' by (simp add: counts_def)
  qed
  then show "length os'' \<le> 180" and "counts os'' = countdown (length os'')"
    and "unat a' + shares_left os'' = unat a + shares_left os + 179 * unat (each_share order)" by auto
qed


text \<open>What a miner earns in one round, and how it is split.\<close>

definition round_reward :: "'t sm_config_scheme \<Rightarrow> u128 \<Rightarrow> u128 \<Rightarrow> u128 \<Rightarrow> u128 \<Rightarrow> u128 \<Rightarrow> u128" where
  "round_reward T tr ti ts mi ms =
     perbill_mul_floor T (perbill_from_rational T (calculate_power T mi ms) (calculate_power T ti ts)) tr"

lemma round_split:
  assumes "perbill_laws T"
  shows "unat (perbill_mul_floor T (ISSUE_MUTI T) r) = 20 * unat r div 100"
    and "unat (perbill_mul_floor T (EACH_SHARE_MUTI T) r) = 80 * unat r div 100"
  using assms by (simp_all add: muti_defs perbill_percent_floor)

lemma round_wf:
  fixes rew :: Reward
  assumes "unat e = 80 * unat r div 100 div 180"
    and "release_orders (order_list rew) (currently_available_reward rew) = Some (os, a)"
    and "unat a1 = unat a + 20 * unat r div 100" and "unat a2 = unat a1 + unat e"
    and "unat tot = unat (total_reward rew) + unat r" and "reward_wf rew"
    and "os1 = (if length os = 180 then tl os else os) @ [order]" and "award_count order = 1" and "each_share order = e"
  shows "reward_wf (rew\<lparr>currently_available_reward := a2, total_reward := tot, order_list := os1\<rparr>)"
proof -
  have "180 * unat e \<le> 80 * unat r div 100" unfolding assms(1) by simp
  then have "20 * unat r div 100 + 180 * unat e \<le> unat r" by linarith
  then show ?thesis
    using order_round [OF assms(2) _ _ assms(8,7)] assms by (simp add: reward_wf_def)
qed

lemma wp_calculate_miner_reward:
  assumes "perbill_laws T"
    and "\<And>rew rew' cr. RewardMap s miner = Some rew \<Longrightarrow>
        unat (CurrencyReward s) = unat cr + unat (round_reward T tr ti ts mi ms) \<Longrightarrow>
        unat (total_reward rew') = unat (total_reward rew) + unat (round_reward T tr ti ts mi ms) \<Longrightarrow>
        reward_issued rew' = reward_issued rew \<Longrightarrow> (reward_wf rew \<Longrightarrow> reward_wf rew') \<Longrightarrow>
        Q () (CurrencyReward_update (\<lambda>_. cr) (RewardMap_update (\<lambda>m. m(miner \<mapsto> rew')) s))"
  shows "wp (calculate_miner_reward T miner tr ti ts mi ms) Q any_error s"
  unfolding calculate_miner_reward_def Let_def round_reward_def [symmetric]
  by (auto simp: wp_rules arith_wp round_split [OF assms(1)] intro!: assms(2) round_wf)

section \<open>Invariants\<close>

definition rewards_ok :: "'s sm_state_scheme \<Rightarrow> bool" where
  "rewards_ok s \<longleftrightarrow> finite (dom (RewardMap s)) \<and> (\<forall>a r. RewardMap s a = Some r \<longrightarrow> reward_wf r)"

definition solvent :: "'t sm_config_scheme \<Rightarrow> 's sm_state_scheme \<Rightarrow> bool" where
  "solvent T s \<longleftrightarrow>
     unat (CurrencyReward s) + total_over owed (RewardMap s) \<le> unat (free (balances s (SminerAccount T)))"

definition collateral_ok :: "'s sm_state_scheme \<Rightarrow> bool" where
  "collateral_ok s \<longleftrightarrow>
     (\<forall>a m. MinerItems s a = Some m \<longrightarrow> unat (collaterals m) \<le> unat (reserved (balances s a)))"

definition roster_ok :: "'t sm_config_scheme \<Rightarrow> 's sm_state_scheme \<Rightarrow> bool" where
  "roster_ok T s \<longleftrightarrow> distinct (AllMiner s) \<and> set (AllMiner s) = dom (RewardMap s)
     \<and> dom (RewardMap s) \<subseteq> dom (MinerItems s) \<and> SminerAccount T \<notin> dom (MinerItems s)"

definition sm_inv :: "'t sm_config_scheme \<Rightarrow> 's sm_state_scheme \<Rightarrow> bool" where
  "sm_inv T s \<longleftrightarrow> rewards_ok s \<and> solvent T s \<and> collateral_ok s \<and> roster_ok T s"

lemmas sm_inv_defs = sm_inv_def rewards_ok_def solvent_def collateral_ok_def roster_ok_def

named_theorems sm_inv_rules \<open>operations that keep the invariants of the sminer pallet\<close>

lemma sm_inv_frame:
  assumes "sm_inv T s" and "MinerItems t = MinerItems s" and "AllMiner t = AllMiner s"
    and "RewardMap t = RewardMap s" and "CurrencyReward t = CurrencyReward s"
    and "unat (free (balances s (SminerAccount T))) \<le> unat (free (balances t (SminerAccount T)))"
    and "\<And>a. a \<in> dom (MinerItems s) \<Longrightarrow> unat (reserved (balances s a)) \<le> unat (reserved (balances t a))"
  shows "sm_inv T t"
proof -
  have "collateral_ok t"
    unfolding collateral_ok_def
  proof (intro allI impI)
    fix a m assume "MinerItems t a = Some m"
    then have m: "MinerItems s a = Some m" using assms(2) by simp
    then have "unat (collaterals m) \<le> unat (reserved (balances s a))"
      using assms(1) by (simp add: sm_inv_def collateral_ok_def)
    also have "\<dots> \<le> unat (reserved (balances t a))" using m by (intro assms(7)) auto
    finally show "unat (collaterals m) \<le> unat (reserved (balances t a))" .
  qed
  with assms(1-6) show ?thesis by (simp add: sm_inv_def rewards_ok_def solvent_def roster_ok_def)
qed

lemma sm_inv_miner_upd:
  assumes "sm_inv T s" and "MinerItems s a = Some m" and "collaterals m' = collaterals m"
  shows "sm_inv T (MinerItems_update (\<lambda>ms. ms(a \<mapsto> m')) s)"
proof -
  have "dom ((MinerItems s)(a \<mapsto> m')) = dom (MinerItems s)" using assms(2) by auto
  with assms show ?thesis by (simp add: sm_inv_defs)
qed

lemma wp_vec_to_bound [wp_rules]:
  "wp (vec_to_bound T xs) Q E =
     (\<lambda>s. if length xs \<le> ItemLimit T then Q xs s else E (SMErr SM_StorageLimitReached) s)"
  by (auto simp: vec_to_bound_def bounded_def wp_rules fun_eq_iff)

lemma wp_sm_deposit_event [wp_rules]:
  "wp (sm_deposit_event ev) Q E = (\<lambda>s. Q () (sm_events_update (\<lambda>es. es @ [ev]) s))"
  by (simp add: sm_deposit_event_def wp_rules)

lemma sm_inv_events [simp]: "sm_inv T (sm_events_update f s) = sm_inv T s"
  by (simp add: sm_inv_defs)

lemma reward_wf_issued: "reward_wf r \<Longrightarrow> unat (reward_issued r) + unat (currently_available_reward r) \<le> unat (total_reward r)"
  by (simp add: reward_wf_def)

text \<open>The four kinds of change: a new miner, a changed reward, a changed miner, a miner gone.\<close>

lemma sm_inv_register:
  assumes "sm_inv T s" and "MinerItems s a = None" and "a \<noteq> SminerAccount T"
    and "MinerItems t = (MinerItems s)(a \<mapsto> m)" and "AllMiner t = AllMiner s @ [a]"
    and "RewardMap t = (RewardMap s)(a \<mapsto> r)" and "reward_wf r" and "owed r = 0"
    and "CurrencyReward t = CurrencyReward s"
    and "free (balances t (SminerAccount T)) = free (balances s (SminerAccount T))"
    and "unat (collaterals m) \<le> unat (reserved (balances t a))"
    and "\<And>c. c \<noteq> a \<Longrightarrow> reserved (balances t c) = reserved (balances s c)"
  shows "sm_inv T t"
proof -
  have none: "RewardMap s a = None" "a \<notin> set (AllMiner s)"
    using assms(1,2) by (auto simp: sm_inv_def roster_ok_def)
  with assms show ?thesis by (auto simp: sm_inv_defs)
qed

lemma sm_inv_reward:
  assumes "sm_inv T s" and "RewardMap s a = Some r" and "RewardMap t = (RewardMap s)(a \<mapsto> r')"
    and "reward_wf r \<Longrightarrow> reward_wf r'" and "MinerItems t = MinerItems s" and "AllMiner t = AllMiner s"
    and "\<And>c. reserved (balances t c) = reserved (balances s c)"
    and "reward_wf r \<Longrightarrow> unat (CurrencyReward t) + owed r' + unat (free (balances s (SminerAccount T)))
        \<le> unat (CurrencyReward s) + owed r + unat (free (balances t (SminerAccount T)))"
  shows "sm_inv T t"
proof -
  have "reward_wf r" using assms(1,2) by (simp add: sm_inv_def rewards_ok_def)
  moreover have "total_over owed (RewardMap t) + owed r = total_over owed (RewardMap s) + owed r'"
    using assms(1,2) unfolding assms(3) by (intro total_over_upd) (auto simp: sm_inv_def rewards_ok_def)
  moreover have "dom (RewardMap t) = dom (RewardMap s)" using assms(2,3) by auto
  ultimately show ?thesis using assms by (auto simp: sm_inv_defs)
qed

lemma sm_inv_miner:
  assumes "sm_inv T s" and "MinerItems s a = Some m" and "MinerItems t = (MinerItems s)(a \<mapsto> m')"
    and "RewardMap t = RewardMap s" and "AllMiner t = AllMiner s"
    and "unat (collaterals m) \<le> unat (reserved (balances s a)) \<Longrightarrow> unat (collaterals m') \<le> unat (reserved (balances t a))"
    and "\<And>c. c \<noteq> a \<Longrightarrow> reserved (balances t c) = reserved (balances s c)"
    and "a \<noteq> SminerAccount T \<Longrightarrow> unat (CurrencyReward t) + unat (free (balances s (SminerAccount T)))
        \<le> unat (CurrencyReward s) + unat (free (balances t (SminerAccount T)))"
  shows "sm_inv T t"
proof -
  have "dom (MinerItems t) = dom (MinerItems s)" using assms(2,3) by auto
  moreover have "a \<noteq> SminerAccount T" using assms(1,2) by (auto simp: sm_inv_def roster_ok_def)
  ultimately show ?thesis using assms by (auto simp: sm_inv_defs)
qed

lemma sm_inv_leave:
  assumes "sm_inv T s" and "RewardMap t = (RewardMap s)(a := None)" and "AllMiner t = filter (\<lambda>b. b \<noteq> a) (AllMiner s)"
    and "MinerItems t = MinerItems s" and "balances t = balances s"
    and "unat (CurrencyReward t) = unat (CurrencyReward s) + (case RewardMap s a of None \<Rightarrow> 0 | Some r \<Rightarrow> owed r)"
  shows "sm_inv T t"
proof -
  have fin: "finite (dom (RewardMap s))" using assms(1) by (simp add: sm_inv_def rewards_ok_def)
  have "unat (CurrencyReward t) + total_over owed (RewardMap t) = unat (CurrencyReward s) + total_over owed (RewardMap s)"
  proof (cases "RewardMap s a")
    case None
    then have "(RewardMap s)(a := None) = RewardMap s" by (simp add: fun_upd_idem)
    then show ?thesis using assms(2,6) None by simp
  next
    case (Some r)
    then show ?thesis using total_over_del [OF fin Some, of owed] assms(2,6) by simp
  qed
  with assms show ?thesis by (auto simp: sm_inv_defs split: if_splits)
qed

lemma sm_inv_pot: "sm_inv T s \<Longrightarrow> MinerItems s a = Some m \<Longrightarrow> a \<noteq> SminerAccount T"
  by (auto simp: sm_inv_def roster_ok_def)

lemma sm_inv_slack:
  assumes "sm_inv T s" and "RewardMap s a = Some r"
  shows "unat (CurrencyReward s) + owed r \<le> unat (free (balances s (SminerAccount T)))"
  using assms total_over_ge [of "RewardMap s" a r owed] by (auto simp: sm_inv_def rewards_ok_def solvent_def)

section \<open>Operations\<close>

lemma regnstk_inv [sm_inv_rules]:
  assumes "currency_laws T" and "sm_inv T s" and "a \<noteq> SminerAccount T"
  shows "wp (regnstk T (SignedOrigin a) b p v) (\<lambda>_. sm_inv T) (\<lambda>_. sm_inv T) s"
  using assms
  by (auto simp: regnstk_def wp_rules arith_wp contains_key_def reserve_moves owed_def reward_wf_def
      elim!: sm_inv_register)

lemma increase_collateral_inv [sm_inv_rules]:
  assumes "currency_laws T" and "sm_inv T s"
  shows "wp (increase_collateral T (SignedOrigin a) v) (\<lambda>_. sm_inv T) (\<lambda>_. sm_inv T) s"
proof -
  { fix m and m' :: MinerInfo and bs and r :: Balance
    assume "MinerItems s a = Some m" and "cur_reserve T a r (balances s) = Inr bs"
      and "unat (collaterals m') = unat (collaterals m) + unat r"
    then have "sm_inv T (MinerItems_update (\<lambda>ms. ms(a \<mapsto> m')) (s\<lparr>balances := bs\<rparr>))"
      using assms by (elim sm_inv_miner) (auto simp: reserve_moves [OF assms(1)]) }
  with assms(2) show ?thesis
    by (auto simp: increase_collateral_def wp_rules checked_add_Some)
qed

lemma update_beneficiary_inv [sm_inv_rules]:
  "sm_inv T s \<Longrightarrow> wp (update_beneficiary origin b) (\<lambda>_. sm_inv T) (\<lambda>_. sm_inv T) s"
  by (auto simp: update_beneficiary_def wp_rules intro: sm_inv_miner_upd)

lemma update_peer_id_inv [sm_inv_rules]:
  "sm_inv T s \<Longrightarrow> wp (update_peer_id origin p) (\<lambda>_. sm_inv T) (\<lambda>_. sm_inv T) s"
  by (auto simp: update_peer_id_def wp_rules intro: sm_inv_miner_upd)

lemma receive_reward_inv [sm_inv_rules]:
  assumes "currency_laws T" and "sm_inv T s"
  shows "wp (receive_reward T (SignedOrigin a)) (\<lambda>_. sm_inv T) (\<lambda>_. sm_inv T) s"
proof -
  { fix m r bs and i :: Balance
    assume "MinerItems s a = Some m" and r: "RewardMap s a = Some r"
      and tr: "cur_transfer T (SminerAccount T) a (currently_available_reward r) (balances s) = Inr bs"
      and i: "unat i = unat (reward_issued r) + unat (currently_available_reward r)"
    then have "SminerAccount T \<noteq> a" using sm_inv_pot assms(2) by metis
    note moved = transfer_moves [OF assms(1) tr this]
    have "sm_inv T (RewardMap_update (\<lambda>m. m(a \<mapsto> r\<lparr>reward_issued := i, currently_available_reward := 0\<rparr>))
        (sm_events_update f (s\<lparr>balances := bs\<rparr>)))" for f
      by (rule sm_inv_reward [OF assms(2) r, where r' = "r\<lparr>reward_issued := i, currently_available_reward := 0\<rparr>"])
        (use i in \<open>auto simp: moved reward_wf_def owed_def\<close>) }
  with assms(2) show ?thesis
    by (auto simp: receive_reward_def wp_rules checked_add_Some)
qed

lemma faucet_top_up_inv [sm_inv_rules]:
  assumes "currency_laws T" and "sm_inv T s" and "a \<noteq> SminerAccount T"
  shows "wp (faucet_top_up T (SignedOrigin a) v) (\<lambda>_. sm_inv T) (\<lambda>_. sm_inv T) s"
  using assms
  by (auto simp: faucet_top_up_def wp_rules transfer_moves elim!: sm_inv_frame)

lemma calculate_miner_reward_inv [sm_inv_rules]:
  assumes "perbill_laws T" and "sm_inv T s"
  shows "wp (calculate_miner_reward T a tr ti ts mi ms) (\<lambda>_. sm_inv T) any_error s"
  using assms(1)
  by (rule wp_calculate_miner_reward) (use assms(2) in \<open>auto simp: owed_def elim!: sm_inv_reward\<close>)

lemma deposit_punish_inv [sm_inv_rules]:
  assumes "currency_laws T" and "sm_inv T s"
  shows "wp (deposit_punish T a v) (\<lambda>_. sm_inv T) any_error s"
proof -
  { fix m and m' :: MinerInfo and bs and p :: Balance
    assume m: "MinerItems s a = Some m"
      and tr: "cur_transfer T a (SminerAccount T) p (cur_unreserve T a p (balances s)) = Inr bs"
      and m': "unat (collaterals m') + unat p = unat (collaterals m)"
    have ne: "a \<noteq> SminerAccount T" using sm_inv_pot assms(2) m by metis
    note moved = transfer_moves [OF assms(1) tr ne]
    have "unat (CurrencyReward s) + unat p < 2 ^ 128"
      using moved(2) unat_lt [of "free (bs (SminerAccount T))"] ne assms
      by (simp add: unreserve_moves sm_inv_def solvent_def)
    then have "sm_inv T (MinerItems_update (\<lambda>ms. ms(a \<mapsto> m')) (CurrencyReward_update (\<lambda>r. r + p) (s\<lparr>balances := bs\<rparr>)))"
      using assms m m' ne by (elim sm_inv_miner) (auto simp: moved unreserve_moves unat_add_eq) }
  with assms(2) show ?thesis
    by (auto simp: deposit_punish_def wp_rules checked_sub_Some)
qed


lemma punish_inv [sm_inv_rules]:
  assumes "currency_laws T" and "sm_inv T s"
  shows "wp (idle_punish T a i v) (\<lambda>_. sm_inv T) any_error s"
    and "wp (service_punish T a i v) (\<lambda>_. sm_inv T) any_error s"
    and "wp (clear_punish T a n i v) (\<lambda>_. sm_inv T) any_error s"
  using deposit_punish_inv [OF assms]
  by (auto simp: idle_punish_def service_punish_def clear_punish_def wp_rules)

lemma give_up_rewards_inv:
  assumes "sm_inv T s"
  shows "wp (give_up_rewards a) (\<lambda>_. sm_inv T) any_error s"
proof -
  have "unat (CurrencyReward s + n) = unat (CurrencyReward s) + owed r"
    if "RewardMap s a = Some r" and "unat (total_reward r) = unat (reward_issued r) + unat n" for r and n :: Balance
    using sm_inv_slack [OF assms that(1)] that(2) unat_lt [of "free (balances s (SminerAccount T))"]
    by (subst unat_add_eq) (auto simp: owed_def)
  then show ?thesis
    using assms
    by (auto simp: give_up_rewards_def wp_rules checked_sub_Some elim!: sm_inv_leave)
qed

lemma wp_andthen_any: "wp m (\<lambda>_. I) any_error s \<Longrightarrow> (\<And>t. I t \<Longrightarrow> wp n Q any_error t) \<Longrightarrow> wp (andthen m n) Q any_error s"
  unfolding wp_andthen by (erule wp_mono) auto

lemma exit_inv [sm_inv_rules]:
  assumes "sm_inv T s"
  shows "wp (force_miner_exit T a) (\<lambda>_. sm_inv T) any_error s"
    and "wp (execute_exit T a) (\<lambda>_. sm_inv T) any_error s"
  unfolding force_miner_exit_def execute_exit_def
  by (rule wp_andthen_any [OF give_up_rewards_inv [OF assms]];
      auto simp: wp_rules intro: sm_inv_miner_upd)+

lemma withdraw_inv [sm_inv_rules]:
  assumes "currency_laws T" and "sm_inv T s" and "a \<notin> set (AllMiner s)"
  shows "wp (withdraw T a) (\<lambda>_. sm_inv T) any_error s"
proof -
  have "a \<noteq> SminerAccount T" if "MinerItems s a = Some m" for m using sm_inv_pot assms(2) that by metis
  with assms show ?thesis
    by (auto simp: withdraw_def wp_rules sm_inv_defs unreserve_moves [OF assms(1)] split: if_splits)
qed

lemma on_nonzero_unbalanced_inv [sm_inv_rules]:
  assumes "currency_laws T" and "sm_inv T s"
    and "unat (free (balances s (SminerAccount T))) + unat n < 2 ^ 128"
  shows "wp (on_nonzero_unbalanced T n) (\<lambda>_. sm_inv T) any_error s"
proof -
  have "cur_resolve_creating T (SminerAccount T) n (balances s) =
      (balances s)(SminerAccount T := (balances s (SminerAccount T))\<lparr>free := free (balances s (SminerAccount T)) + n\<rparr>)"
    using assms(1,3) by (simp add: currency_laws_def resolve_law_def)
  moreover have "unat (CurrencyReward s) + unat n < 2 ^ 128"
    using assms(2,3) by (simp add: sm_inv_def solvent_def)
  ultimately show ?thesis
    using assms(2,3) by (auto simp: on_nonzero_unbalanced_def wp_rules sm_inv_defs unat_add_eq)
qed

lemmas miner_space_defs = add_miner_idle_space_def sub_miner_idle_space_def add_miner_service_space_def
  sub_miner_service_space_def lock_space_def unlock_space_def unlock_space_to_service_def check_state_def

lemma miner_space_inv [sm_inv_rules]:
  assumes "sm_inv T s"
  shows "wp (add_miner_idle_space a n) (\<lambda>_. sm_inv T) (\<lambda>_. sm_inv T) s"
    and "wp (sub_miner_idle_space a n) (\<lambda>_. sm_inv T) (\<lambda>_. sm_inv T) s"
    and "wp (add_miner_service_space a n) (\<lambda>_. sm_inv T) (\<lambda>_. sm_inv T) s"
    and "wp (sub_miner_service_space a n) (\<lambda>_. sm_inv T) (\<lambda>_. sm_inv T) s"
    and "wp (lock_space a n) (\<lambda>_. sm_inv T) (\<lambda>_. sm_inv T) s"
    and "wp (unlock_space_to_service a n) (\<lambda>_. sm_inv T) (\<lambda>_. sm_inv T) s"
  using assms by (auto simp: miner_space_defs wp_rules intro: sm_inv_miner_upd)

lemma unlock_space_inv [sm_inv_rules]:
  assumes "sm_inv T s"
  shows "wp (unlock_space a n) (\<lambda>_. sm_inv T) (\<lambda>_. sm_inv T) s"
proof -
  have "MinerItems_update (\<lambda>m. m(a := None)) s = s" if "MinerItems s a = None"
    using that by (intro sm_state.equality) (auto simp: fun_upd_idem)
  with assms show ?thesis by (auto simp: unlock_space_def wp_rules intro: sm_inv_miner_upd)
qed

lemma update_miner_state_inv [sm_inv_rules]:
  assumes "sm_inv T s"
  shows "wp (update_miner_state T a st) (\<lambda>_. sm_inv T) (\<lambda>_. sm_inv T) s"
  using assms by (auto simp: update_miner_state_def wp_rules intro: sm_inv_miner_upd)


section \<open>Reachable states\<close>

text \<open>
  A step is a call that succeeded; a failed call is rolled back with its transaction. Signed
  calls do not come from the pot, which is derived from the pallet id and has no key.
  \<open>withdraw\<close> is only used after one of the two exits (the file bank checks the miner's state
  first). The faucet is left out: it pays from the same pot without touching the accounts, see
  \<open>faucet_spends_the_pot\<close>. Other parts of the runtime may credit the pot and may not touch
  what miners have reserved.
\<close>

inductive sm_step :: "'t sm_config_scheme \<Rightarrow> 's sm_state_scheme \<Rightarrow> 's sm_state_scheme \<Rightarrow> bool" for T where
  register: "a \<noteq> SminerAccount T \<Longrightarrow> regnstk T (SignedOrigin a) b p v s = (Inr (), t) \<Longrightarrow> sm_step T s t"
| collateral: "increase_collateral T (SignedOrigin a) v s = (Inr (), t) \<Longrightarrow> sm_step T s t"
| beneficiary: "update_beneficiary origin b s = (Inr (), t) \<Longrightarrow> sm_step T s t"
| peer: "update_peer_id origin p s = (Inr (), t) \<Longrightarrow> sm_step T s t"
| receive: "receive_reward T (SignedOrigin a) s = (Inr (), t) \<Longrightarrow> sm_step T s t"
| top_up: "a \<noteq> SminerAccount T \<Longrightarrow> faucet_top_up T (SignedOrigin a) v s = (Inr (), t) \<Longrightarrow> sm_step T s t"
| reward: "calculate_miner_reward T a tr ti ts mi ms s = (Inr (), t) \<Longrightarrow> sm_step T s t"
| punish_idle: "idle_punish T a i v s = (Inr (), t) \<Longrightarrow> sm_step T s t"
| punish_service: "service_punish T a i v s = (Inr (), t) \<Longrightarrow> sm_step T s t"
| punish_clear: "clear_punish T a n i v s = (Inr (), t) \<Longrightarrow> sm_step T s t"
| force_exit: "force_miner_exit T a s = (Inr (), t) \<Longrightarrow> sm_step T s t"
| exit: "execute_exit T a s = (Inr (), t) \<Longrightarrow> sm_step T s t"
| leave: "a \<notin> set (AllMiner s) \<Longrightarrow> withdraw T a s = (Inr (), t) \<Longrightarrow> sm_step T s t"
| deposit: "unat (free (balances s (SminerAccount T))) + unat n < 2 ^ 128 \<Longrightarrow>
    on_nonzero_unbalanced T n s = (Inr (), t) \<Longrightarrow> sm_step T s t"
| idle_up: "add_miner_idle_space a v s = (Inr (), t) \<Longrightarrow> sm_step T s t"
| idle_down: "sub_miner_idle_space a v s = (Inr (), t) \<Longrightarrow> sm_step T s t"
| service_up: "add_miner_service_space a v s = (Inr (), t) \<Longrightarrow> sm_step T s t"
| service_down: "sub_miner_service_space a v s = (Inr (), t) \<Longrightarrow> sm_step T s t"
| lock: "lock_space a v s = (Inr (), t) \<Longrightarrow> sm_step T s t"
| unlock: "unlock_space a v s = (Inr (), t) \<Longrightarrow> sm_step T s t"
| serve: "unlock_space_to_service a v s = (Inr (), t) \<Longrightarrow> sm_step T s t"
| state: "update_miner_state T a st s = (Inr (), t) \<Longrightarrow> sm_step T s t"
| elsewhere: "MinerItems t = MinerItems s \<Longrightarrow> AllMiner t = AllMiner s \<Longrightarrow> RewardMap t = RewardMap s \<Longrightarrow>
    CurrencyReward t = CurrencyReward s \<Longrightarrow> free (balances s (SminerAccount T)) \<le> free (balances t (SminerAccount T)) \<Longrightarrow>
    (\<And>a. a \<in> dom (MinerItems s) \<Longrightarrow> reserved (balances s a) \<le> reserved (balances t a)) \<Longrightarrow> sm_step T s t"

inductive sm_reachable :: "'t sm_config_scheme \<Rightarrow> 's sm_state_scheme \<Rightarrow> bool" for T where
  genesis: "MinerItems s = Map.empty \<Longrightarrow> RewardMap s = Map.empty \<Longrightarrow> AllMiner s = [] \<Longrightarrow> CurrencyReward s = 0 \<Longrightarrow>
    sm_reachable T s"
| step: "sm_reachable T s \<Longrightarrow> sm_step T s t \<Longrightarrow> sm_reachable T t"

lemma sm_step_inv:
  assumes "currency_laws T" and "perbill_laws T" and "sm_inv T s" and "sm_step T s t"
  shows "sm_inv T t"
  using assms(4)
proof cases
  case elsewhere
  with assms(3) show ?thesis by (intro sm_inv_frame [OF assms(3)]) (auto simp: word_order)
qed (erule wpD [rotated]; use assms(1-3) in \<open>auto intro: sm_inv_rules\<close>)+

lemma sm_reachable_inv:
  assumes "currency_laws T" and "perbill_laws T" and "sm_reachable T s"
  shows "sm_inv T s"
  using assms(3)
proof (induction rule: sm_reachable.induct)
  case (genesis s)
  then show ?case by (simp add: sm_inv_defs)
qed (rule sm_step_inv [OF assms(1,2)])

section \<open>The space of a miner\<close>

definition space_of :: "'s sm_state_scheme \<Rightarrow> AccountId \<Rightarrow> (nat \<times> nat \<times> nat) option" where
  "space_of s a = map_option (\<lambda>m. (unat (service_space m), unat (m_lock_space m), unat (idle_space m))) (MinerItems s a)"

lemma space_of_upd [simp]:
  "space_of (MinerItems_update (\<lambda>f. f(a \<mapsto> m)) s)
     = (space_of s)(a \<mapsto> (unat (service_space m), unat (m_lock_space m), unat (idle_space m)))"
  by (auto simp: space_of_def fun_eq_iff)

lemma space_of_frame: "MinerItems t = MinerItems s \<Longrightarrow> space_of t = space_of s"
  by (simp add: space_of_def fun_eq_iff)

lemma lock_space_moves:
  assumes "lock_space a n s = (Inr (), t)"
  shows "\<exists>u l r. space_of s a = Some (u, l, unat n + r) \<and> space_of t = (space_of s)(a \<mapsto> (u, l + unat n, r))"
proof -
  have "wp (lock_space a n) (\<lambda>_ t. \<exists>u l r. space_of s a = Some (u, l, unat n + r)
      \<and> space_of t = (space_of s)(a \<mapsto> (u, l + unat n, r))) any_error s"
    by (auto simp: lock_space_def wp_rules arith_wp) (auto simp: space_of_def)
  from wpD [OF this assms] show ?thesis .
qed

lemma unlock_space_moves:
  assumes "unlock_space a n s = (Inr (), t)" and "space_of s a \<noteq> None"
  shows "\<exists>u l r. space_of s a = Some (u, unat n + l, r) \<and> space_of t = (space_of s)(a \<mapsto> (u, l, r + unat n))"
proof -
  have "wp (unlock_space a n) (\<lambda>_ t. \<exists>u l r. space_of s a = Some (u, unat n + l, r)
      \<and> space_of t = (space_of s)(a \<mapsto> (u, l, r + unat n))) any_error s"
    using assms(2) by (auto simp: unlock_space_def wp_rules arith_wp) (auto simp: space_of_def)
  from wpD [OF this assms(1)] show ?thesis .
qed

lemma unlock_space_to_service_moves:
  assumes "unlock_space_to_service a n s = (Inr (), t)"
  shows "\<exists>u l r. space_of s a = Some (u, unat n + l, r) \<and> space_of t = (space_of s)(a \<mapsto> (u + unat n, l, r))"
proof -
  have "wp (unlock_space_to_service a n) (\<lambda>_ t. \<exists>u l r. space_of s a = Some (u, unat n + l, r)
      \<and> space_of t = (space_of s)(a \<mapsto> (u + unat n, l, r))) any_error s"
    by (auto simp: unlock_space_to_service_def wp_rules arith_wp) (auto simp: space_of_def)
  from wpD [OF this assms] show ?thesis .
qed

interpretation mc: space_ledger space_of lock_space unlock_space unlock_space_to_service
proof
  fix s :: "'s sm_state_scheme" and a and n :: u128 and u l r
  assume *: "space_of s a = Some (u, l, r)" "unat n \<le> l"
  show "\<exists>t. unlock_space a n s = (Inr (), t)" if "r + unat n < 2 ^ 128"
    using * that by (auto simp: space_of_def unlock_space_def run_simps checked_sub_def checked_add_def)
  show "\<exists>t. unlock_space_to_service a n s = (Inr (), t)" if "u + unat n < 2 ^ 128"
    using * that by (auto simp: space_of_def unlock_space_to_service_def run_simps checked_sub_def checked_add_def)
qed (erule lock_space_moves unlock_space_to_service_moves unlock_space_moves; assumption?)+

section \<open>A concrete configuration\<close>

definition sm_conf :: "'t \<Rightarrow> 't sm_config_scheme" where
  "sm_conf more' = ca_conf (sm_config_ext 2 10000 28800 more')"

lemma sm_conf_laws: "currency_laws (sm_conf m)" "perbill_laws (sm_conf m)" "iter_laws (sm_conf m)"
  by (simp_all add: sm_conf_def ca_conf_def sh_conf_laws)

lemmas sm_run = sh_run reserve_def unreserve_def ca_conf_def sm_conf_def ref_reserve_def ref_unreserve_def saturating_add_def
  ex_ca_with_def ex_oss_with_def miner_state_defs sm_deposit_event_def vec_to_bound_def try_push_def
  regnstk_def increase_collateral_def check_collateral_limit_def BASE_LIMIT_def deposit_punish_def Let_def

definition ex_miner :: MinerInfo where
  "ex_miner = \<lparr>beneficiary = 11, peer_id = [], collaterals = 5000, debt = 0, miner_state = STATE_POSITIVE,
     idle_space = 3 * G_BYTE, service_space = 0, m_lock_space = 0\<rparr>"

definition ex_reward :: Reward where
  "ex_reward = \<lparr>total_reward = 1000, reward_issued = 0, currently_available_reward = 204,
     order_list = [\<lparr>order_reward = 1000, each_share = 4, award_count = 1, has_issued = True\<rparr>]\<rparr>"

definition ex_sm_with :: "'s \<Rightarrow> 's sm_state_scheme" where
  "ex_sm_with more' = ex_ca_with (sm_state_ext [10 \<mapsto> ex_miner] [10] [10 \<mapsto> ex_reward] Map.empty 700 [] more')
     \<lparr>balances := ex_balances(2 := \<lparr>free = 2000, reserved = 0\<rparr>, 10 := \<lparr>free = 1000000, reserved = 5000\<rparr>)\<rparr>"

definition ex_sm0 :: sm_state where
  "ex_sm0 = ex_ca_with (sm_state_ext Map.empty [] Map.empty Map.empty 0 [] ())"

lemma ex_sm0_reachable: "sm_reachable T ex_sm0"
  by (rule sm_reachable.genesis) (simp_all add: ex_sm0_def ex_ca_with_def ex_oss_with_def ex_sh_with_def)

lemma ex_register: "\<exists>t. regnstk (sm_conf ()) (SignedOrigin 10) 11 [] 5000 ex_sm0 = (Inr (), t)
    \<and> RewardMap t 10 \<noteq> None \<and> MinerItems t 10 \<noteq> None \<and> AllMiner t = [10]"
  by (simp add: sm_run ex_sm0_def)

section \<open>Properties\<close>








text \<open>
  A successful \<open>receive_reward\<close> of a registered miner pays exactly the available reward
  from the pot to the miner, records it as issued and leaves nothing available.
\<close>
theorem receive_reward_correct:
  assumes "currency_laws T" and "a \<noteq> SminerAccount T" and "MinerItems s a = Some m"
    and "receive_reward T (SignedOrigin a) s = (Inr (), t)"
  shows "\<exists>r. RewardMap s a = Some r \<and> miner_state m = STATE_POSITIVE \<and> currently_available_reward r \<noteq> 0
     \<and> RewardMap t = (RewardMap s)(a \<mapsto> r\<lparr>reward_issued := reward_issued r + currently_available_reward r,
          currently_available_reward := 0\<rparr>)
     \<and> unat (reward_issued r) + unat (currently_available_reward r) < 2 ^ 128
     \<and> unat (free (balances t a)) = unat (free (balances s a)) + unat (currently_available_reward r)
     \<and> unat (free (balances s (SminerAccount T)))
         = unat (free (balances t (SminerAccount T))) + unat (currently_available_reward r)"
    (is "?Q t")
proof -
  have "SminerAccount T \<noteq> a" using assms(2) by simp
  note moved = transfer_moves [OF assms(1) _ this]
  have "wp (receive_reward T (SignedOrigin a)) (\<lambda>_. ?Q) any_error s"
    using assms(2,3)
    by (auto simp: receive_reward_def wp_rules checked_add_def moved split: if_splits)
  from wpD [OF this assms(4)] show ?thesis .
qed

lemma ex_receive: "\<exists>t. receive_reward (sm_conf ()) (SignedOrigin 10) (ex_sm_with ()) = (Inr (), t)"
  by (simp add: sm_run receive_reward_def ex_sm_with_def ex_reward_def ex_miner_def)

theorem receive_reward_correct_witness:
  "\<exists>t :: sm_state. receive_reward (sm_conf ()) (SignedOrigin 10) (ex_sm_with ()) = (Inr (), t)
     \<and> unat (free (balances t 10)) = 1000204"
proof -
  obtain t :: sm_state where t: "receive_reward (sm_conf ()) (SignedOrigin 10) (ex_sm_with ()) = (Inr (), t)"
    using ex_receive by blast
  have "MinerItems (ex_sm_with () :: sm_state) 10 = Some ex_miner" "RewardMap (ex_sm_with () :: sm_state) 10 = Some ex_reward"
    "balances (ex_sm_with () :: sm_state) 10 = \<lparr>free = 1000000, reserved = 5000\<rparr>"
    by (simp_all add: ex_sm_with_def ex_ca_with_def ex_oss_with_def ex_sh_with_def)
  with receive_reward_correct [OF sm_conf_laws(1) _ this(1) t] t show ?thesis
    by (auto simp: sm_conf_def ca_conf_def sh_conf_def ref_ext_def ex_reward_def)
qed


text \<open>The collateral limit: 2000 units of base currency for each started TiB of power.\<close>

lemma check_collateral_limit_Inr:
  "check_collateral_limit p = Inr l \<longleftrightarrow> unat l = 2000000000000000 * (1 + unat p div 2 ^ 40)"
proof -
  have "unat (p div T_BYTE) = unat p div 2 ^ 40" by (simp add: unat_div)
  moreover have "unat p div 2 ^ 40 < 2 ^ 128 - 1" using unat_lt [of p] by simp
  ultimately have "unat (1 + p div T_BYTE) = 1 + unat p div 2 ^ 40" by (subst unat_add_eq) auto
  moreover have "unat BASE_LIMIT = 2000000000000000" by (simp add: BASE_LIMIT_def)
  moreover have "check_collateral_limit p = Inr l \<longleftrightarrow> checked_mul BASE_LIMIT (1 + p div T_BYTE) = Some l"
    by (auto simp: check_collateral_limit_def checked_div_def split: option.split)
  ultimately show ?thesis by (simp only: checked_mul_Some)
qed

text \<open>The miner after a punishment of \<open>p\<close>.\<close>

definition punished :: "Balance \<Rightarrow> Balance \<Rightarrow> MinerInfo \<Rightarrow> MinerInfo" where
  "punished p limit m =
     (let left = (if p < collaterals m then collaterals m - p else 0)
      in m\<lparr>collaterals := left, debt := (if p < collaterals m then debt m else p),
           miner_state := (if left < limit then STATE_FROZEN else miner_state m)\<rparr>)"

lemma punished_cases:
  "p < collaterals m \<Longrightarrow> collaterals m - p < limit \<Longrightarrow>
     punished p limit m = m\<lparr>collaterals := collaterals m - p, miner_state := STATE_FROZEN\<rparr>"
  "p < collaterals m \<Longrightarrow> \<not> collaterals m - p < limit \<Longrightarrow> punished p limit m = m\<lparr>collaterals := collaterals m - p\<rparr>"
  "\<not> p < collaterals m \<Longrightarrow> 0 < limit \<Longrightarrow>
     punished p limit m = m\<lparr>collaterals := 0, debt := p, miner_state := STATE_FROZEN\<rparr>"
  "\<not> p < collaterals m \<Longrightarrow> \<not> 0 < limit \<Longrightarrow> punished p limit m = m\<lparr>collaterals := 0, debt := p\<rparr>"
  by (simp_all add: punished_def Let_def)

lemma wp_deposit_punish:
  assumes "MinerItems s a = Some m" and "q = (if p < collaterals m then p else collaterals m)"
    and "\<And>bs limit. cur_transfer T a (SminerAccount T) q (cur_unreserve T a q (balances s)) = Inr bs \<Longrightarrow>
      check_collateral_limit (calculate_power T (idle_space m) (service_space m)) = Inr limit \<Longrightarrow>
      Q () (MinerItems_update (\<lambda>ms. ms(a \<mapsto> punished p limit m))
        (CurrencyReward_update (\<lambda>r. r + q) (s\<lparr>balances := bs\<rparr>)))"
  shows "wp (deposit_punish T a p) Q any_error s"
proof (cases "p < collaterals m")
  case True
  then have "checked_sub (collaterals m) p = Some (collaterals m - p)" by (simp add: checked_sub_def word_order)
  with True show ?thesis
    using assms(1,2) assms(3)
    by (auto simp: deposit_punish_def wp_rules bounded_def punished_cases)
next
  case False
  then show ?thesis
    using assms(1,2) assms(3)
    by (auto simp: deposit_punish_def wp_rules checked_sub_def bounded_def punished_cases)
qed

text \<open>
  C29: a punishment takes the amount from the miner's collateral, or all of the collateral when
  it is not enough, moves it from the reserved balance to the pot and to the undistributed
  rewards, and freezes the miner when its collateral falls below the limit for its power. When
  the collateral is used up the debt becomes the whole amount, although the collateral has
  been taken.
\<close>
theorem deposit_punish_correct:
  assumes "currency_laws T" and "a \<noteq> SminerAccount T" and "MinerItems s a = Some m"
    and "collaterals m \<le> reserved (balances s a)"
    and "unat (free (balances s a)) + unat (reserved (balances s a)) < 2 ^ 128"
    and "deposit_punish T a p s = (Inr (), t)"
  shows "\<exists>limit. check_collateral_limit (calculate_power T (idle_space m) (service_space m)) = Inr limit
     \<and> unat limit = 2000000000000000 * (1 + unat (calculate_power T (idle_space m) (service_space m)) div 2 ^ 40)
     \<and> MinerItems t = (MinerItems s)(a \<mapsto> punished p limit m)
     \<and> unat (reserved (balances t a)) = unat (reserved (balances s a)) - min (unat p) (unat (collaterals m))
     \<and> free (balances t a) = free (balances s a)
     \<and> unat (free (balances t (SminerAccount T)))
         = unat (free (balances s (SminerAccount T))) + min (unat p) (unat (collaterals m))
     \<and> CurrencyReward t = CurrencyReward s + (if p < collaterals m then p else collaterals m)"
    (is "?Q t")
proof -
  define q where "q = (if p < collaterals m then p else collaterals m)"
  then have uq: "unat q = min (unat p) (unat (collaterals m))" by (auto simp: word_order)
  then have le: "unat q \<le> unat (reserved (balances s a))" using assms(4) by (simp add: word_order)
  have "wp (deposit_punish T a p) (\<lambda>_. ?Q) any_error s"
    using assms(3) q_def
  proof (rule wp_deposit_punish)
    fix bs limit
    assume tr: "cur_transfer T a (SminerAccount T) q (cur_unreserve T a q (balances s)) = Inr bs"
      and limit: "check_collateral_limit (calculate_power T (idle_space m) (service_space m)) = Inr limit"
    note moved = transfer_moves [OF assms(1) tr assms(2)] unreserve_moves [OF assms(1)]
    have "unat (reserved (bs a)) = unat (reserved (balances s a)) - unat q" "free (bs a) = free (balances s a)"
      "unat (free (bs (SminerAccount T))) = unat (free (balances s (SminerAccount T))) + unat q"
      using moved le assms(2,5) by (auto simp: word_unat_eq_iff)
    with limit check_collateral_limit_Inr [THEN iffD1, OF limit] show "?Q (MinerItems_update
        (\<lambda>ms. ms(a \<mapsto> punished p limit m)) (CurrencyReward_update (\<lambda>r. r + q) (s\<lparr>balances := bs\<rparr>)))"
      by (simp add: uq q_def [symmetric])
  qed
  from wpD [OF this assms(6)] show ?thesis .
qed


lemma ex_power: "calculate_power (sm_conf ()) (3 * G_BYTE) 0 = 966367641"
  by (simp add: calculate_power_def muti_defs sm_conf_def ca_conf_def sh_conf_def ref_ext_def ref_mul_floor_def
      ref_from_percent_def size_defs)

lemma ex_punish: "\<exists>t. deposit_punish (sm_conf ()) 10 7000 (ex_sm_with ()) = (Inr (), t)"
  using ex_power by (simp add: sm_run ex_sm_with_def ex_miner_def)

lemma ex_sm_fields:
  "MinerItems (ex_sm_with m) = [10 \<mapsto> ex_miner]" "RewardMap (ex_sm_with m) = [10 \<mapsto> ex_reward]"
  "AllMiner (ex_sm_with m) = [10]" "CurrencyReward (ex_sm_with m) = 700" "block_number (ex_sm_with m) = 100"
  "FaucetRecordMap (ex_sm_with m) = Map.empty"
  "balances (ex_sm_with m) = ex_balances(2 := \<lparr>free = 2000, reserved = 0\<rparr>, 10 := \<lparr>free = 1000000, reserved = 5000\<rparr>)"
  by (simp_all add: ex_sm_with_def ex_ca_with_def ex_oss_with_def ex_sh_with_def)

lemma sm_conf_account [simp]: "SminerAccount (sm_conf m) = 2" "OneDayBlock (sm_conf m) = 28800" "ItemLimit (sm_conf m) = 10000"
  by (simp_all add: sm_conf_def ca_conf_def sh_conf_def ref_ext_def)

theorem deposit_punish_correct_witness:
  "\<exists>t :: sm_state. deposit_punish (sm_conf ()) 10 7000 (ex_sm_with ()) = (Inr (), t)
     \<and> unat (free (balances t 2)) = 7000 \<and> (\<exists>m. MinerItems t 10 = Some m \<and> debt m = 7000)"
proof -
  obtain t :: sm_state where t: "deposit_punish (sm_conf ()) 10 7000 (ex_sm_with ()) = (Inr (), t)"
    using ex_punish by blast
  from deposit_punish_correct [OF sm_conf_laws(1) _ _ _ _ t, of ex_miner] t show ?thesis
    by (auto simp: ex_sm_fields ex_miner_def punished_def)
qed

text \<open>
  \<open>increase_collateral\<close> pays a debt off without a payment: as long as the amount does not
  exceed the debt, the call only lowers the debt, and no balance changes.
\<close>
theorem debt_paid_for_free:
  assumes "currency_laws T" and "MinerItems s a = Some m" and "v \<le> debt m"
    and "increase_collateral T (SignedOrigin a) v s = (Inr (), t)"
  shows "\<exists>m'. MinerItems t a = Some m' \<and> unat (debt m') = unat (debt m) - unat v
     \<and> collaterals m' = collaterals m
     \<and> (\<forall>c. free (balances t c) = free (balances s c) \<and> reserved (balances t c) = reserved (balances s c))"
    (is "?Q t")
proof -
  have same: "free (bs c) = free (balances s c) \<and> reserved (bs c) = reserved (balances s c)"
    if "cur_reserve T a 0 (balances s) = Inr bs" for bs c
    using reserve_moves [OF assms(1) that] by (cases "c = a") (auto simp: word_unat_eq_iff)
  have "wp (increase_collateral T (SignedOrigin a) v) (\<lambda>_. ?Q) any_error s"
  proof -
    consider "debt m = 0" "v = 0" | "0 < debt m" "v = debt m" | "0 < debt m" "v < debt m"
      using assms(3) by (fastforce simp: word_order word_unat_eq_iff)
    then show ?thesis
    proof cases
      case 3
      then show ?thesis using assms(2)
        by (auto simp: increase_collateral_def wp_rules checked_sub_Some checked_add_def same)
    qed (use assms(2) in \<open>auto simp: increase_collateral_def wp_rules checked_sub_def checked_add_def same\<close>)
  qed
  from wpD [OF this assms(4)] show ?thesis .
qed


definition ex_debtor :: sm_state where
  "ex_debtor = (ex_sm_with ())\<lparr>MinerItems := [10 \<mapsto> ex_miner\<lparr>debt := 7000\<rparr>]\<rparr>"

lemma ex_pay_debt: "\<exists>t. increase_collateral (sm_conf ()) (SignedOrigin 10) 7000 ex_debtor = (Inr (), t)"
  by (simp add: sm_run ex_debtor_def ex_sm_with_def ex_miner_def)

theorem debt_paid_for_free_witness:
  "\<exists>t. increase_collateral (sm_conf ()) (SignedOrigin 10) 7000 ex_debtor = (Inr (), t)
     \<and> (\<exists>m. MinerItems t 10 = Some m \<and> unat (debt m) = 0) \<and> free (balances t 10) = 1000000"
proof -
  obtain t where t: "increase_collateral (sm_conf ()) (SignedOrigin 10) 7000 ex_debtor = (Inr (), t)"
    using ex_pay_debt by blast
  have m: "MinerItems ex_debtor 10 = Some (ex_miner\<lparr>debt := 7000\<rparr>)" by (simp add: ex_debtor_def)
  have "free (balances ex_debtor 10) = 1000000" by (simp add: ex_debtor_def ex_sm_fields)
  with debt_paid_for_free [OF sm_conf_laws(1) m _ t] t show ?thesis by auto
qed

text \<open>
  The space of a miner that \<open>lock_space\<close> took for a deal is given back exactly by
  \<open>unlock_space\<close>, which cannot fail, and turned into service space by
  \<open>unlock_space_to_service\<close>.
\<close>
theorem miner_space_settled:
  fixes s t t' :: "'s sm_state_scheme"
  assumes "lock_space a n s = (Inr (), t)" and "space_of t' = space_of t"
  shows "(\<forall>v. unlock_space a n t' = (Inr (), v) \<longrightarrow> space_of v = space_of s)
    \<and> (\<exists>v. unlock_space a n t' = (Inr (), v))
    \<and> (\<forall>v. unlock_space_to_service a n t' = (Inr (), v) \<longrightarrow>
         (\<exists>u l r. space_of s a = Some (u, l, unat n + r) \<and> space_of v = (space_of s)(a \<mapsto> (u + unat n, l, r))))"
proof -
  have "\<exists>v. unlock_space a n t' = (Inr (), v)"
    by (intro mc.deal_can_be_abandoned [OF assms]) (use unat_lt [where 'a = 128] in \<open>auto simp: space_of_def\<close>)
  then show ?thesis
    using mc.deal_abandoned [OF assms] mc.deal_stored [OF assms] by blast
qed

lemma ex_miner_lock: "\<exists>t. lock_space 10 (8 * M_BYTE) (ex_sm_with ()) = (Inr (), t)"
  by (simp add: sm_run lock_space_def ex_sm_with_def ex_miner_def)

theorem miner_space_settled_witness:
  "\<exists>t v :: sm_state. lock_space 10 (8 * M_BYTE) (ex_sm_with ()) = (Inr (), t)
     \<and> unlock_space 10 (8 * M_BYTE) t = (Inr (), v) \<and> space_of v = space_of (ex_sm_with () :: sm_state)"
proof -
  obtain t :: sm_state where t: "lock_space 10 (8 * M_BYTE) (ex_sm_with ()) = (Inr (), t)" using ex_miner_lock by blast
  with miner_space_settled [OF t refl] show ?thesis by blast
qed

text \<open>
  A successful \<open>faucet\<close> call pays the fixed amount out of the reward pot, leaves the
  accounting of rewards as it is, and serves a recipient again only after a day's blocks.
\<close>
theorem faucet_spends_the_pot:
  assumes "currency_laws T" and "b \<noteq> SminerAccount T" and "faucet T (SignedOrigin a) b s = (Inr (), t)"
  shows "unat (free (balances s (SminerAccount T))) = unat (free (balances t (SminerAccount T))) + 10 ^ 16
     \<and> CurrencyReward t = CurrencyReward s \<and> RewardMap t = RewardMap s
     \<and> FaucetRecordMap t = (FaucetRecordMap s)(b \<mapsto> \<lparr>last_claim_time = block_number s\<rparr>)
     \<and> (\<forall>rec. FaucetRecordMap s b = Some rec \<longrightarrow>
          unat (last_claim_time rec) + unat (OneDayBlock T) \<le> unat (block_number s) \<or> unat (last_claim_time rec) = 0)"
    (is "?Q t")
proof -
  have "SminerAccount T \<noteq> b" using assms(2) by simp
  note moved = transfer_moves [OF assms(1) _ this]
  have "unat FAUCET_VALUE = 10 ^ 16" by (simp add: FAUCET_VALUE_def)
  then have "wp (faucet T (SignedOrigin a) b) (\<lambda>_. ?Q) any_error s"
    by (auto simp: faucet_def wp_rules checked_sub_Some moved contains_key_def word_order)
  from wpD [OF this assms(3)] show ?thesis .
qed


definition ex_faucet :: sm_state where
  "ex_faucet = (ex_sm_with ())\<lparr>balances := ex_balances(2 := \<lparr>free = 2 * FAUCET_VALUE, reserved = 0\<rparr>),
     block_number := 30000, FaucetRecordMap := [12 \<mapsto> \<lparr>last_claim_time = 1000\<rparr>]\<rparr>"

lemma ex_draw: "\<exists>t. faucet (sm_conf ()) (SignedOrigin 10) 12 ex_faucet = (Inr (), t)"
  by (simp add: sm_run faucet_def ex_faucet_def ex_sm_with_def FAUCET_VALUE_def)

theorem faucet_spends_the_pot_witness:
  "\<exists>t. faucet (sm_conf ()) (SignedOrigin 10) 12 ex_faucet = (Inr (), t)
     \<and> unat (free (balances t 2)) = 10 ^ 16 \<and> CurrencyReward t = 700"
proof -
  obtain t where t: "faucet (sm_conf ()) (SignedOrigin 10) 12 ex_faucet = (Inr (), t)" using ex_draw by blast
  have "unat (free (balances ex_faucet 2)) = 2 * 10 ^ 16" by (simp add: ex_faucet_def FAUCET_VALUE_def)
  moreover have "CurrencyReward ex_faucet = 700" by (simp add: ex_faucet_def ex_sm_fields)
  ultimately show ?thesis using faucet_spends_the_pot [OF sm_conf_laws(1) _ t] t by auto
qed

end
