(* ===== verification/Staking.thy ===== *)
theory Staking
  imports Sminer_Props
begin

text \<open>
  The part of the staking pallet (\<open>c-pallets/staking\<close>) that the CESS pallets use: which
  controller a stash is bonded to, the ledger of a stash with its unlocking chunks, and the
  slash that a TEE worker's stash receives. The currency's \<open>slash\<close> and \<open>set_lock\<close>, the handler
  of slashed funds and the fixed-point type \<open>Perquintill\<close> are parameters.

  The lemmas show that slashing keeps the ledger's total equal to the sum of its parts, reports
  exactly what it took, and by how much it can exceed the amount asked for.
\<close>

section \<open>Types and storage\<close>

record UnlockChunk =
  chunk_value :: Balance
  chunk_era :: u32

record StakingLedger =
  stash :: AccountId
  stake_total :: Balance
  stake_active :: Balance
  unlocking :: "UnlockChunk list"
  claimed_rewards :: "u32 list"

record ValidatorPrefs =
  commission :: u32
  blocked :: bool

datatype st_event =
    EraPaid u32 Balance Balance
  | Rewarded AccountId Balance
  | Slashed AccountId Balance
  | SlashReported AccountId u32 u32
  | OldSlashingReportDiscarded u32
  | StakersElected
  | BondedEvent AccountId Balance
  | Unbonded AccountId Balance
  | Withdrawn AccountId Balance
  | Kicked AccountId AccountId
  | StakingElectionFailed
  | Chilled AccountId
  | PayoutStarted u32 AccountId
  | ValidatorPrefsSet AccountId ValidatorPrefs

text \<open>The locks that the balances pallet keeps for this pallet, under \<open>STAKING_ID\<close>.\<close>

type_synonym locks = "AccountId \<rightharpoonup> Balance"

record st_config = sm_config +
  BondingDuration :: u32
  minimum_balance :: Balance
  perquintill_from_rational_up :: "Balance \<Rightarrow> Balance \<Rightarrow> u64"
  perquintill_mul_ceil :: "u64 \<Rightarrow> Balance \<Rightarrow> Balance"
  perbill_mul :: "u32 \<Rightarrow> Balance \<Rightarrow> Balance"
  cur_slash :: "AccountId \<Rightarrow> Balance \<Rightarrow> balances \<Rightarrow> Balance \<times> Balance \<times> balances"
  cur_set_lock :: "AccountId \<Rightarrow> Balance \<Rightarrow> locks \<Rightarrow> locks"
  slash_on_unbalanced :: "Balance \<Rightarrow> balances \<Rightarrow> balances"

record st_state = sm_state +
  Bonded :: "AccountId \<rightharpoonup> AccountId"
  Ledger :: "AccountId \<rightharpoonup> StakingLedger"
  MinValidatorBond :: Balance
  CurrentEra :: "u32 option"
  Locks :: locks
  st_events :: "st_event list"

section \<open>Ledgers\<close>

definition default_from :: "AccountId \<Rightarrow> StakingLedger" where
  "default_from stash' = \<lparr>stash = stash', stake_total = 0, stake_active = 0, unlocking = [], claimed_rewards = []\<rparr>"

definition consolidate_unlocked :: "u32 \<Rightarrow> StakingLedger \<Rightarrow> StakingLedger" where
  "consolidate_unlocked current_era l =
     l\<lparr>stake_total := fold (\<lambda>chunk t. saturating_sub t (chunk_value chunk))
          (filter (\<lambda>chunk. \<not> chunk_era chunk > current_era) (unlocking l)) (stake_total l),
       unlocking := filter (\<lambda>chunk. chunk_era chunk > current_era) (unlocking l)\<rparr>"

text \<open>The loop takes chunks from the back; the list is therefore walked in reverse.\<close>

fun rebond_loop :: "Balance \<Rightarrow> UnlockChunk list \<Rightarrow> Balance \<Rightarrow> Balance \<Rightarrow> UnlockChunk list \<times> Balance \<times> Balance" where
  "rebond_loop v [] active unlocking_balance = ([], active, unlocking_balance)"
| "rebond_loop v (chunk # rest) active unlocking_balance =
     (if unlocking_balance + chunk_value chunk \<le> v
      then let unlocking_balance = unlocking_balance + chunk_value chunk;
               active = active + chunk_value chunk
           in if unlocking_balance \<ge> v then (rest, active, unlocking_balance)
              else rebond_loop v rest active unlocking_balance
      else let diff = v - unlocking_balance
           in (chunk\<lparr>chunk_value := chunk_value chunk - diff\<rparr> # rest, active + diff, unlocking_balance + diff))"

definition rebond :: "Balance \<Rightarrow> StakingLedger \<Rightarrow> StakingLedger \<times> Balance" where
  "rebond v l =
     (case rebond_loop v (rev (unlocking l)) (stake_active l) 0 of
        (chunks, active, unlocking_balance) \<Rightarrow>
          (l\<lparr>unlocking := rev chunks, stake_active := active\<rparr>, unlocking_balance))"

section \<open>Slashing\<close>

definition slash_out_of ::
  "'t st_config_scheme \<Rightarrow> Balance \<Rightarrow> u64 option \<Rightarrow> Balance \<Rightarrow> Balance \<Rightarrow> Balance \<Rightarrow> Balance \<times> Balance \<times> Balance" where
  "slash_out_of T minimum_balance' maybe_proportional target slash_remaining total' =
     (let wanted = (case maybe_proportional of
                      Some ratio \<Rightarrow> perquintill_mul_ceil T ratio target
                    | None \<Rightarrow> slash_remaining);
          from_target = min (min wanted target) slash_remaining;
          left = target - from_target;
          from_target = (if left < minimum_balance' then saturating_add left from_target else from_target);
          left = (if left < minimum_balance' then 0 else left)
      in (left, saturating_sub slash_remaining from_target, saturating_sub total' from_target))"

fun slash_chunks ::
  "'t st_config_scheme \<Rightarrow> Balance \<Rightarrow> u64 option \<Rightarrow> nat list \<Rightarrow> UnlockChunk list \<Rightarrow> Balance \<Rightarrow> Balance
     \<Rightarrow> UnlockChunk list \<times> Balance \<times> Balance" where
  "slash_chunks T minimum_balance' ratio [] chunks remaining total' = (chunks, remaining, total')"
| "slash_chunks T minimum_balance' ratio (i # is) chunks remaining total' =
     (if remaining = 0 then (chunks, remaining, total')
      else if i < length chunks then
        (case slash_out_of T minimum_balance' ratio (chunk_value (chunks ! i)) remaining total' of
           (v, remaining', total'') \<Rightarrow>
             slash_chunks T minimum_balance' ratio is (chunks[i := (chunks ! i)\<lparr>chunk_value := v\<rparr>]) remaining' total'')
      else (chunks, remaining, total'))"

fun first_position :: "('a \<Rightarrow> bool) \<Rightarrow> 'a list \<Rightarrow> nat option" where
  "first_position P [] = None"
| "first_position P (x # xs) = (if P x then Some 0 else map_option Suc (first_position P xs))"

definition ledger_slash ::
  "'t st_config_scheme \<Rightarrow> Balance \<Rightarrow> Balance \<Rightarrow> u32 \<Rightarrow> StakingLedger \<Rightarrow> StakingLedger \<times> Balance" where
  "ledger_slash T slash_amount minimum_balance' slash_era l =
     (if slash_amount = 0 then (l, 0)
      else
        let slashable_chunks_start = slash_era + BondingDuration T;
            len = length (unlocking l);
            (maybe_proportional, slash_chunks_priority) =
              (case first_position (\<lambda>c. chunk_era c \<ge> slashable_chunks_start) (unlocking l) of
                 Some first \<Rightarrow>
                   let unbonding_affected_balance =
                         fold (\<lambda>c sum. saturating_add sum (chunk_value c)) (drop first (unlocking l)) 0;
                       affected_balance = saturating_add (stake_active l) unbonding_affected_balance
                   in (Some (perquintill_from_rational_up T slash_amount affected_balance),
                       [first..<len] @ rev [0..<first])
               | None \<Rightarrow> (None, rev [0..<len]));
            (active, remaining, total1) =
              slash_out_of T minimum_balance' maybe_proportional (stake_active l) slash_amount (stake_total l);
            (chunks, remaining, total2) =
              slash_chunks T minimum_balance' maybe_proportional slash_chunks_priority (unlocking l) remaining total1
        in (l\<lparr>stake_active := active, stake_total := total2,
              unlocking := filter (\<lambda>c. chunk_value c \<noteq> 0) chunks\<rparr>,
            saturating_sub (stake_total l) total2))"

definition st_deposit_event :: "st_event \<Rightarrow> ('s st_state_scheme, unit) act" where
  "st_deposit_event ev = modify (st_events_update (\<lambda>es. es @ [ev]))"

definition update_ledger :: "'t st_config_scheme \<Rightarrow> AccountId \<Rightarrow> StakingLedger \<Rightarrow> ('s st_state_scheme, unit) act" where
  "update_ledger T controller l =
     andthen (modify (\<lambda>s. s\<lparr>Locks := cur_set_lock T (stash l) (stake_total l) (Locks s)\<rparr>))
     (modify (Ledger_update (\<lambda>m. m(controller \<mapsto> l))))"

text \<open>Returns the slashed imbalance and what is left of the reward payout.\<close>

definition do_slash ::
  "'t st_config_scheme \<Rightarrow> AccountId \<Rightarrow> Balance \<Rightarrow> Balance \<Rightarrow> Balance \<Rightarrow> u32 \<Rightarrow> ('s st_state_scheme, Balance \<times> Balance) act" where
  "do_slash T stash' v reward_payout slashed_imbalance slash_era =
     bnd (gets (\<lambda>s. Bonded s stash')) (\<lambda>controller_opt.
     (case controller_opt of
        None \<Rightarrow> ret (reward_payout, slashed_imbalance)
      | Some controller \<Rightarrow>
          bnd (gets (\<lambda>s. Ledger s controller)) (\<lambda>ledger_opt.
          (case ledger_opt of
             None \<Rightarrow> ret (reward_payout, slashed_imbalance)
           | Some l \<Rightarrow>
               (case ledger_slash T v (minimum_balance T) slash_era l of (l', slashed) \<Rightarrow>
                if slashed = 0 then ret (reward_payout, slashed_imbalance)
                else
                  bnd (gets (\<lambda>s. cur_slash T stash' slashed (balances s))) (\<lambda>(imbalance, missing, bs).
                  andthen (modify (\<lambda>s. s\<lparr>balances := bs\<rparr>))
                 (andthen (update_ledger T controller l')
                 (andthen (st_deposit_event (Slashed stash' slashed))
                  (ret (if missing \<noteq> 0 then saturating_sub reward_payout missing else reward_payout,
                        slashed_imbalance + imbalance))))))))))"

text \<open>
  \<open>slash_scheduler\<close> calls \<open>apply_slash\<close> with a slash that has no nominators, no reporters and
  no payout: the whole imbalance goes to the handler of slashed funds.
\<close>

definition apply_scheduler_slash :: "'t st_config_scheme \<Rightarrow> AccountId \<Rightarrow> Balance \<Rightarrow> u32 \<Rightarrow> ('s st_state_scheme, unit) act" where
  "apply_scheduler_slash T validator own slash_era =
     bnd (do_slash T validator own 0 0 slash_era) (\<lambda>(_, slashed_imbalance).
     modify (\<lambda>s. s\<lparr>balances := slash_on_unbalanced T slashed_imbalance (balances s)\<rparr>))"

definition slash_scheduler :: "'t st_config_scheme \<Rightarrow> AccountId \<Rightarrow> ('s st_state_scheme, unit) act" where
  "slash_scheduler T stash' =
     bnd (gets MinValidatorBond) (\<lambda>min_bond.
     bnd (gets_some CurrentEra Panicked) (\<lambda>slash_era.
     apply_scheduler_slash T stash' (perbill_mul T (perbill_from_percent T 5) min_bond) slash_era))"

definition find_stash_account_id :: "'s st_state_scheme \<Rightarrow> AccountId \<Rightarrow> AccountId option" where
  "find_stash_account_id s ctrl_account_id = map_option stash (Ledger s ctrl_account_id)"


section \<open>The ledger's invariant\<close>

definition chunk_sum :: "UnlockChunk list \<Rightarrow> nat" where
  "chunk_sum cs = sum_list (map (\<lambda>c. unat (chunk_value c)) cs)"

definition ledger_wf :: "StakingLedger \<Rightarrow> bool" where
  "ledger_wf l \<longleftrightarrow> unat (stake_total l) = unat (stake_active l) + chunk_sum (unlocking l)"

lemma chunk_sum_simps [simp]:
  "chunk_sum [] = 0" "chunk_sum (c # cs) = unat (chunk_value c) + chunk_sum cs"
  "chunk_sum (cs @ ds) = chunk_sum cs + chunk_sum ds" "chunk_sum (rev cs) = chunk_sum cs"
  by (simp_all add: chunk_sum_def flip: rev_map)

lemma chunk_sum_update:
  "i < length cs \<Longrightarrow> chunk_sum (cs[i := c]) + unat (chunk_value (cs ! i)) = chunk_sum cs + unat (chunk_value c)"
  by (induction cs arbitrary: i) (auto simp: nth_Cons split: nat.splits)

lemma chunk_sum_nth: "i < length cs \<Longrightarrow> unat (chunk_value (cs ! i)) \<le> chunk_sum cs"
  by (induction cs arbitrary: i) (auto simp: nth_Cons trans_le_add2 split: nat.splits)

lemma chunk_sum_nonzero [simp]: "chunk_sum (filter (\<lambda>c. chunk_value c \<noteq> 0) cs) = chunk_sum cs"
  by (induction cs) auto

lemma slash_out_of_takes:
  assumes "slash_out_of T mb ratio target rem tot = (left, rem', tot')" and "unat target \<le> unat tot"
  shows "\<exists>d. unat target = unat left + d \<and> unat tot = unat tot' + d \<and> unat rem' = unat rem - d
      \<and> d \<le> unat rem + (unat mb - 1)"
proof -
  define f where "f = min (min (case ratio of Some r \<Rightarrow> perquintill_mul_ceil T r target | None \<Rightarrow> rem) target) rem"
  have f: "unat f \<le> unat target" "unat f \<le> unat rem"
    unfolding f_def by (auto simp: min_def word_order)
  then have left: "unat (target - f) = unat target - unat f" by (simp add: unat_minus_eq)
  have "saturating_add (target - f) f = target"
    using f left unat_lt [of target] by (simp add: saturating_add_def)
  then have eqs: "left = (if target - f < mb then 0 else target - f)"
    "rem' = saturating_sub rem (if target - f < mb then target else f)"
    "tot' = saturating_sub tot (if target - f < mb then target else f)"
    using assms(1) unfolding slash_out_of_def Let_def f_def [symmetric] by (auto split: if_splits)
  show ?thesis
  proof (cases "target - f < mb")
    case True
    then have "unat target \<le> unat rem + (unat mb - 1)" using f left by (simp add: word_order)
    with True show ?thesis using eqs assms(2) by (intro exI [of _ "unat target"]) (simp add: unat_saturating_sub)
  next
    case False
    with f left eqs assms(2) show ?thesis by (intro exI [of _ "unat f"]) (simp add: unat_saturating_sub)
  qed
qed

lemma slash_chunks_takes:
  assumes "slash_chunks T mb ratio is cs rem tot = (cs', rem', tot')" and "chunk_sum cs \<le> unat tot"
  shows "\<exists>d. chunk_sum cs = chunk_sum cs' + d \<and> unat tot = unat tot' + d
      \<and> d \<le> (if rem = 0 then 0 else unat rem + (unat mb - 1))"
  using assms
proof (induction "is" arbitrary: cs rem tot)
  case (Cons i "is")
  show ?case
  proof (cases "rem = 0 \<or> \<not> i < length cs")
    case True
    with Cons.prems show ?thesis by auto
  next
    case False
    obtain v rem1 tot1 where step: "slash_out_of T mb ratio (chunk_value (cs ! i)) rem tot = (v, rem1, tot1)"
      by (metis prod_cases3)
    let ?cs = "cs[i := (cs ! i)\<lparr>chunk_value := v\<rparr>]"
    have "unat (chunk_value (cs ! i)) \<le> unat tot"
      using chunk_sum_nth [of i cs] False Cons.prems(2) by linarith
    from slash_out_of_takes [OF step this] obtain d where d:
      "unat (chunk_value (cs ! i)) = unat v + d" "unat tot = unat tot1 + d" "unat rem1 = unat rem - d"
      "d \<le> unat rem + (unat mb - 1)" by blast
    have sum: "chunk_sum cs = chunk_sum ?cs + d"
      using chunk_sum_update [of i cs "(cs ! i)\<lparr>chunk_value := v\<rparr>"] d(1) False by simp
    have "slash_chunks T mb ratio is ?cs rem1 tot1 = (cs', rem', tot')" "chunk_sum ?cs \<le> unat tot1"
      using Cons.prems False step sum d(2) by auto
    from Cons.IH [OF this] obtain e where e: "chunk_sum ?cs = chunk_sum cs' + e" "unat tot1 = unat tot' + e"
      "e \<le> (if rem1 = 0 then 0 else unat rem1 + (unat mb - 1))" by blast
    have "rem1 = 0 \<longleftrightarrow> unat rem \<le> d" using d(3) by (simp add: word_unat_eq_iff)
    then have "d + e \<le> unat rem + (unat mb - 1)" using d(3,4) e(3) by (auto split: if_splits)
    with sum d(2) e(1,2) False show ?thesis by (intro exI [of _ "d + e"]) auto
  qed
qed auto

text \<open>
  C19: slashing a ledger keeps its total equal to the active stake plus the unlocking chunks,
  returns exactly what was taken, and takes at most the amount asked for plus less than one
  minimum balance, the dust of the last part it touches.
\<close>
theorem ledger_slash_correct:
  assumes "ledger_wf l" and "ledger_slash T amount' mb era l = (l', slashed)"
  shows "ledger_wf l' \<and> unat (stake_total l) = unat (stake_total l') + unat slashed
    \<and> unat slashed \<le> unat amount' + (unat mb - 1) \<and> (amount' = 0 \<longrightarrow> slashed = 0) \<and> stash l' = stash l"
proof (cases "amount' = 0")
  case True
  with assms show ?thesis by (auto simp: ledger_slash_def)
next
  case False
  then obtain ratio "is" active rem tot1 cs rem' tot2 where
    act: "slash_out_of T mb ratio (stake_active l) amount' (stake_total l) = (active, rem, tot1)"
    and chunks: "slash_chunks T mb ratio is (unlocking l) rem tot1 = (cs, rem', tot2)"
    and l': "l' = l\<lparr>stake_active := active, stake_total := tot2, unlocking := filter (\<lambda>c. chunk_value c \<noteq> 0) cs\<rparr>"
    and sl: "slashed = saturating_sub (stake_total l) tot2"
    using assms(2) by (auto simp: ledger_slash_def Let_def split: prod.splits option.splits)
  have "unat (stake_active l) \<le> unat (stake_total l)" using assms(1) by (simp add: ledger_wf_def)
  from slash_out_of_takes [OF act this] obtain d where d: "unat (stake_active l) = unat active + d"
    "unat (stake_total l) = unat tot1 + d" "unat rem = unat amount' - d" "d \<le> unat amount' + (unat mb - 1)" by blast
  then have "chunk_sum (unlocking l) \<le> unat tot1" using assms(1) by (simp add: ledger_wf_def)
  from slash_chunks_takes [OF chunks this] obtain e where e: "chunk_sum (unlocking l) = chunk_sum cs + e"
    "unat tot1 = unat tot2 + e" "e \<le> (if rem = 0 then 0 else unat rem + (unat mb - 1))" by blast
  have "rem = 0 \<longleftrightarrow> unat amount' \<le> d" using d(3) by (simp add: word_unat_eq_iff)
  then have "d + e \<le> unat amount' + (unat mb - 1)" using d(3,4) e(3) by (auto split: if_splits)
  with d e False l' sl assms(1) show ?thesis by (auto simp: ledger_wf_def unat_saturating_sub)
qed


lemma rebond_loop_moves:
  assumes "rebond_loop v cs act ub = (cs', act', ub')" and "unat ub \<le> unat v"
    and "unat act + chunk_sum cs < 2 ^ 128" and "unat ub + chunk_sum cs < 2 ^ 128"
  shows "unat ub' = min (unat v) (unat ub + chunk_sum cs) \<and> unat act' + unat ub = unat act + unat ub'
    \<and> chunk_sum cs' + unat ub' = chunk_sum cs + unat ub"
  using assms
proof (induction v cs act ub rule: rebond_loop.induct)
  case (2 v chunk rest act ub)
  have adds: "unat (ub + chunk_value chunk) = unat ub + unat (chunk_value chunk)"
    "unat (act + chunk_value chunk) = unat act + unat (chunk_value chunk)"
    using 2 by (simp_all add: unat_add_eq)
  consider "ub + chunk_value chunk \<le> v" "ub + chunk_value chunk \<ge> v"
    | "ub + chunk_value chunk \<le> v" "\<not> ub + chunk_value chunk \<ge> v" | "\<not> ub + chunk_value chunk \<le> v" by blast
  then show ?case
  proof cases
    case 1
    with 2 adds show ?thesis by (simp add: word_order)
  next
    case both: 2
    then have loop: "rebond_loop v rest (act + chunk_value chunk) (ub + chunk_value chunk) = (cs', act', ub')"
      using 2 by (simp add: Let_def)
    have le: "unat (ub + chunk_value chunk) \<le> unat v" using both(1) by (simp add: word_order)
    have "unat (act + chunk_value chunk) + chunk_sum rest < 2 ^ 128" "unat (ub + chunk_value chunk) + chunk_sum rest < 2 ^ 128"
      using 2 adds by simp_all
    from "2.IH" [OF both(1) refl refl both(2) loop le this] adds show ?thesis by simp
  next
    case 3
    have diff: "unat (v - ub) = unat v - unat ub" "unat v < unat ub + unat (chunk_value chunk)"
      using 2 3 adds by (simp_all add: unat_minus_eq word_order)
    then have "unat (act + (v - ub)) = unat act + (unat v - unat ub)"
      "unat (chunk_value chunk - (v - ub)) = unat (chunk_value chunk) - (unat v - unat ub)"
      using 2 by (simp_all add: unat_add_eq unat_minus_eq)
    moreover have "ub' = v" "act' = act + (v - ub)" "cs' = chunk\<lparr>chunk_value := chunk_value chunk - (v - ub)\<rparr> # rest"
      using 2 3 by (auto simp: Let_def)
    ultimately show ?thesis using "2.prems"(2) diff(2) by simp
  qed
qed simp

text \<open>
  C35: rebonding moves as much as asked for, or all there is, from the unlocking chunks back to
  the active stake, and leaves the total and its balance with the parts unchanged.
\<close>
theorem rebond_correct:
  assumes "ledger_wf l" and "rebond v l = (l', r)"
  shows "ledger_wf l' \<and> unat r = min (unat v) (chunk_sum (unlocking l))
    \<and> unat (stake_active l') = unat (stake_active l) + unat r \<and> stake_total l' = stake_total l
    \<and> chunk_sum (unlocking l) = chunk_sum (unlocking l') + unat r"
proof -
  obtain cs act where loop: "rebond_loop v (rev (unlocking l)) (stake_active l) 0 = (cs, act, r)"
    and l': "l' = l\<lparr>unlocking := rev cs, stake_active := act\<rparr>"
    using assms(2) by (auto simp: rebond_def split: prod.splits)
  have "unat (stake_active l) + chunk_sum (unlocking l) < 2 ^ 128"
    using assms(1) unat_lt [of "stake_total l"] by (simp add: ledger_wf_def)
  with rebond_loop_moves [OF loop] l' assms(1) show ?thesis by (auto simp: ledger_wf_def)
qed

section \<open>A concrete configuration\<close>

text \<open>Multiplication by parts of a billion, rounded to the nearest number.\<close>

definition ref_mul_near :: "u32 \<Rightarrow> u128 \<Rightarrow> u128" where
  "ref_mul_near p x = of_nat ((2 * unat p * unat x + 999999999) div 2000000000)"

lemma ref_mul_near_bounds:
  assumes "unat (p :: u32) \<le> 10 ^ 9"
  shows "2 * 10 ^ 9 * unat (ref_mul_near p x) \<le> 2 * unat p * unat x + 10 ^ 9"
    and "2 * unat p * unat x \<le> 2 * 10 ^ 9 * unat (ref_mul_near p x) + 10 ^ 9"
proof -
  let ?n = "2 * unat p * unat x + 999999999"
  have "?n \<le> 2000000000 * unat x + 999999999" using assms by simp
  then have "?n div 2000000000 \<le> (2000000000 * unat x + 999999999) div 2000000000" by (rule div_le_mono)
  then have "?n div 2000000000 \<le> unat x" by simp
  then have "unat (ref_mul_near p x) = ?n div 2000000000"
    using unat_lt [of x] by (simp add: ref_mul_near_def unat_of_nat)
  moreover have "2000000000 * (?n div 2000000000) + ?n mod 2000000000 = ?n" by (rule mult_div_mod_eq)
  moreover have "?n mod 2000000000 < 2000000000" by simp
  ultimately have "2000000000 * unat (ref_mul_near p x) \<le> ?n" "?n < 2000000000 * unat (ref_mul_near p x) + 2000000000" by linarith+
  then show "2 * 10 ^ 9 * unat (ref_mul_near p x) \<le> 2 * unat p * unat x + 10 ^ 9"
    and "2 * unat p * unat x \<le> 2 * 10 ^ 9 * unat (ref_mul_near p x) + 10 ^ 9" by simp_all
qed

definition st_conf :: "'t \<Rightarrow> 't st_config_scheme" where
  "st_conf more' = sm_conf (st_config_ext 28 10 (\<lambda>a b. 0) (\<lambda>r v. v) ref_mul_near
     (\<lambda>a v bs. if v \<le> free (bs a) then (v, 0, bs(a := (bs a)\<lparr>free := free (bs a) - v\<rparr>))
               else (free (bs a), v - free (bs a), bs(a := (bs a)\<lparr>free := 0\<rparr>)))
     (\<lambda>a v ls. ls(a \<mapsto> v)) (\<lambda>v bs. bs) more')"

lemma st_conf_laws: "currency_laws (st_conf m)" "perbill_laws (st_conf m)" "iter_laws (st_conf m)"
  by (simp_all add: st_conf_def sm_conf_laws)

definition ex_ledger :: StakingLedger where
  "ex_ledger = \<lparr>stash = 30, stake_total = 150, stake_active = 100,
     unlocking = [\<lparr>chunk_value = 20, chunk_era = 3\<rparr>, \<lparr>chunk_value = 30, chunk_era = 4\<rparr>], claimed_rewards = []\<rparr>"

text \<open>A slash of 95 with a minimum balance of 10 takes the whole active stake of 100.\<close>

lemma ledger_slash_exceeds:
  "ledger_slash (st_conf ()) 95 10 1 ex_ledger = (ex_ledger\<lparr>stake_total := 50, stake_active := 0\<rparr>, 100)"
  by (simp add: ledger_slash_def ex_ledger_def Let_def slash_out_of_def saturating_add_def saturating_sub_def
      st_conf_def sm_conf_def ca_conf_def sh_conf_def ref_ext_def min_def)

theorem ledger_slash_correct_witness:
  "ledger_wf ex_ledger \<and> unat (100 :: Balance) \<le> unat (95 :: Balance) + (unat (10 :: Balance) - 1)"
proof -
  have "ledger_wf ex_ledger" by (simp add: ledger_wf_def ex_ledger_def)
  with ledger_slash_correct [OF this ledger_slash_exceeds] show ?thesis by blast
qed

theorem rebond_correct_witness:
  "\<exists>l r. rebond 40 ex_ledger = (l, r) \<and> unat r = 40 \<and> unat (stake_active l) = 140"
proof -
  obtain l r where lr: "rebond 40 ex_ledger = (l, r)" by (cases "rebond 40 ex_ledger")
  have "ledger_wf ex_ledger" by (simp add: ledger_wf_def ex_ledger_def)
  from rebond_correct [OF this lr] lr show ?thesis by (auto simp: ex_ledger_def)
qed

end
