(* ===== verification/Scheduler_Credit.thy ===== *)
theory Scheduler_Credit
  imports Staking
begin

text \<open>
  The scheduler-credit pallet (\<open>c-pallets/scheduler-credit\<close>): the bytes a TEE worker processed
  and the punishments it received in a period become a credit value, and the values of the
  last five periods become the credit score that elections use. Arithmetic on \<open>Perbill\<close> and
  \<open>Percent\<close> is a parameter with the laws \<open>credit_laws\<close>.

  The lemmas show that values and scores never exceed the full score, what a period's end
  stores, and that the unchecked square of the punishments is exact up to 6553 of them.
\<close>

section \<open>Types and storage\<close>

definition FULL_CREDIT_SCORE :: u32 where "FULL_CREDIT_SCORE = 1000"

definition PERIOD_WEIGHT :: "nat list" where "PERIOD_WEIGHT = [50, 20, 15, 10, 5]"

record sc_config = st_config +
  PeriodDuration :: BlockNumber
  perbill_from_rational64 :: "u64 \<Rightarrow> u64 \<Rightarrow> u32"
  perbill_mul32 :: "u32 \<Rightarrow> u32 \<Rightarrow> u32"
  percent_mul :: "nat \<Rightarrow> u32 \<Rightarrow> u32"

record SchedulerCounterEntry =
  proceed_block_size :: u64
  punishment_count :: u32

definition default_entry :: SchedulerCounterEntry where
  "default_entry = \<lparr>proceed_block_size = 0, punishment_count = 0\<rparr>"

record sc_state = st_state +
  CurrentCounters :: "AccountId \<rightharpoonup> SchedulerCounterEntry"
  HistoryCreditValues :: "u32 \<times> AccountId \<rightharpoonup> u32"

abbreviation SCErr :: "credit_error \<Rightarrow> dispatch_error" where
  "SCErr \<equiv> dispatch_error.Credit"

text \<open>
  \<open>Perbill::from_rational\<close> stays within one, \<open>Perbill * n\<close> does not exceed \<open>n\<close>, and \<open>Percent * n\<close>
  rounds to the nearest integer.
\<close>

definition credit_laws :: "'t sc_config_scheme \<Rightarrow> bool" where
  "credit_laws T \<longleftrightarrow>
     (\<forall>a b. unat (perbill_from_rational64 T a b) \<le> 10 ^ 9)
   \<and> (\<forall>p x. unat p \<le> 10 ^ 9 \<longrightarrow> unat (perbill_mul32 T p x) \<le> unat x)
   \<and> (\<forall>p x. p \<le> 100 \<longrightarrow> 100 * unat (percent_mul T p x) \<le> p * unat x + 50
        \<and> p * unat x \<le> 100 * unat (percent_mul T p x) + 50)"

section \<open>Counters\<close>

definition increase_block_size :: "u64 \<Rightarrow> SchedulerCounterEntry \<Rightarrow> dispatch_error + SchedulerCounterEntry" where
  "increase_block_size block_size e =
     (case checked_add (proceed_block_size e) block_size of
        None \<Rightarrow> Inl (SCErr SC_Overflow) | Some v \<Rightarrow> Inr (e\<lparr>proceed_block_size := v\<rparr>))"

definition increase_punishment_count :: "SchedulerCounterEntry \<Rightarrow> dispatch_error + SchedulerCounterEntry" where
  "increase_punishment_count e =
     (case checked_add (punishment_count e) 1 of
        None \<Rightarrow> Inl (SCErr SC_Overflow) | Some v \<Rightarrow> Inr (e\<lparr>punishment_count := v\<rparr>))"

definition punishment_part :: "SchedulerCounterEntry \<Rightarrow> u32" where
  "punishment_part e = (if punishment_count e \<noteq> 0 then (10 * punishment_count e) ^ 2 else 0)"

definition figure_credit_value :: "'t sc_config_scheme \<Rightarrow> SchedulerCounterEntry \<Rightarrow> u64 \<Rightarrow> u32" where
  "figure_credit_value T e total_block_size =
     (if total_block_size \<noteq> 0
      then saturating_sub
             (perbill_mul32 T (perbill_from_rational64 T (proceed_block_size e) total_block_size) FULL_CREDIT_SCORE)
             (punishment_part e)
      else 0)"

text \<open>\<open>mutate\<close> writes the entry back whether or not the closure succeeded.\<close>

definition mutate_counter ::
  "AccountId \<Rightarrow> (SchedulerCounterEntry \<Rightarrow> dispatch_error + SchedulerCounterEntry) \<Rightarrow> ('s sc_state_scheme, unit) act" where
  "mutate_counter scheduler_id f =
     bnd (gets (\<lambda>s. get_or default_entry (CurrentCounters s) scheduler_id)) (\<lambda>scb.
     (case f scb of
        Inr e \<Rightarrow> modify (CurrentCounters_update (\<lambda>m. m(scheduler_id \<mapsto> e)))
      | Inl err \<Rightarrow> andthen (modify (CurrentCounters_update (\<lambda>m. m(scheduler_id \<mapsto> scb)))) (throw err)))"

definition record_proceed_block_size :: "AccountId \<Rightarrow> u64 \<Rightarrow> ('s sc_state_scheme, unit) act" where
  "record_proceed_block_size scheduler_id block_size = mutate_counter scheduler_id (increase_block_size block_size)"

definition record_punishment :: "AccountId \<Rightarrow> ('s sc_state_scheme, unit) act" where
  "record_punishment scheduler_id = mutate_counter scheduler_id increase_punishment_count"

section \<open>Credit values and scores\<close>

text \<open>The total is an unchecked sum.\<close>

definition total_block_size :: "'t config_scheme \<Rightarrow> 's sc_state_scheme \<Rightarrow> u64" where
  "total_block_size T s =
     fold (\<lambda>a t. t + proceed_block_size (the (CurrentCounters s a))) (iter_keys T (dom (CurrentCounters s))) 0"

definition figure_credit_values :: "'t sc_config_scheme \<Rightarrow> u32 \<Rightarrow> ('s sc_state_scheme, unit) act" where
  "figure_credit_values T period =
     bnd (gets (total_block_size T)) (\<lambda>total_size.
     bnd (gets CurrentCounters) (\<lambda>counters.
     andthen (for_each (\<lambda>ctrl_account_id.
         modify (HistoryCreditValues_update (\<lambda>m. m((period, ctrl_account_id) \<mapsto>
           figure_credit_value T (the (counters ctrl_account_id)) total_size))))
       (iter_keys T (dom counters)))
    (andthen (modify (CurrentCounters_update (\<lambda>_. Map.empty)))
     (let history_depth = of_nat (length PERIOD_WEIGHT) in
      act_when (period \<ge> history_depth)
        (modify (HistoryCreditValues_update (\<lambda>m. remove_prefix m (saturating_sub period history_depth))))))))"

definition sc_on_initialize :: "'t sc_config_scheme \<Rightarrow> BlockNumber \<Rightarrow> ('s sc_state_scheme, unit) act" where
  "sc_on_initialize T now =
     andthen (ensure (PeriodDuration T \<noteq> 0) Panicked)
     (act_when (now mod PeriodDuration T = 0)
        (figure_credit_values T (saturating_sub (now div PeriodDuration T) 1)))"

definition credit_score :: "'t sc_config_scheme \<Rightarrow> (u32 \<times> AccountId \<rightharpoonup> u32) \<Rightarrow> u32 \<Rightarrow> AccountId \<Rightarrow> u32" where
  "credit_score T history last_period ctrl_account_id =
     fold (\<lambda>(index, w) score.
         if last_period \<ge> of_nat index
         then score + percent_mul T w (get_or 0 history (saturating_sub last_period (of_nat index), ctrl_account_id))
         else score)
       (enumerate 0 PERIOD_WEIGHT) 0"

definition figure_credit_scores :: "'t sc_config_scheme \<Rightarrow> 's sc_state_scheme \<Rightarrow> (AccountId \<rightharpoonup> u32)" where
  "figure_credit_scores T s =
     (let period = block_number s div PeriodDuration T in
      if period = 0 then Map.empty
      else
        let last_period = saturating_sub period 1;
            keys = iter_keys T {a. HistoryCreditValues s (last_period, a) \<noteq> None}
        in fold (\<lambda>ctrl_account_id result.
             (case find_stash_account_id s ctrl_account_id of
                Some stash_account_id \<Rightarrow>
                  result(stash_account_id \<mapsto> credit_score T (HistoryCreditValues s) last_period ctrl_account_id)
              | None \<Rightarrow> result)) keys Map.empty)"

definition full_credit :: u32 where
  "full_credit = FULL_CREDIT_SCORE"

definition credits :: "'t sc_config_scheme \<Rightarrow> u64 \<Rightarrow> 's sc_state_scheme \<Rightarrow> (AccountId \<rightharpoonup> u32)" where
  "credits T epoch_index s = figure_credit_scores T s"

section \<open>Bounds\<close>

lemma figure_credit_value_le:
  assumes "credit_laws T"
  shows "unat (figure_credit_value T e n) \<le> 1000"
proof -
  have "unat (perbill_mul32 T (perbill_from_rational64 T (proceed_block_size e) n) FULL_CREDIT_SCORE)
      \<le> unat FULL_CREDIT_SCORE"
    using assms by (simp add: credit_laws_def)
  then show ?thesis
    by (auto simp: figure_credit_value_def unat_saturating_sub FULL_CREDIT_SCORE_def intro: le_trans [OF diff_le_self])
qed

definition history_ok :: "'s sc_state_scheme \<Rightarrow> bool" where
  "history_ok s \<longleftrightarrow> (\<forall>k v. HistoryCreditValues s k = Some v \<longrightarrow> unat v \<le> 1000)"

lemma percent_mul_le:
  assumes "credit_laws T" and "w \<le> 100" and "unat v \<le> 1000"
  shows "unat (percent_mul T w v) \<le> 10 * w"
proof -
  have "100 * unat (percent_mul T w v) \<le> w * unat v + 50" using assms by (simp add: credit_laws_def)
  also have "\<dots> \<le> w * 1000 + 50" using assms(3) by (intro add_le_mono1 mult_le_mono2)
  finally show ?thesis by linarith
qed

lemma credit_score_le:
  assumes "credit_laws T" and "\<And>k v. history k = Some v \<Longrightarrow> unat v \<le> 1000"
  shows "unat (credit_score T history p a) \<le> 1000"
proof -
  have get: "unat (get_or 0 history k) \<le> 1000" for k
    using assms(2) by (auto simp: get_or_def split: option.split)
  have step: "unat (fold (\<lambda>(index, w) score. if p \<ge> of_nat index
      then score + percent_mul T w (get_or 0 history (saturating_sub p (of_nat index), a)) else score) iws score)
        \<le> unat score + 10 * sum_list (map snd iws)"
    if "\<forall>(i, w) \<in> set iws. w \<le> 100" and "unat score + 10 * sum_list (map snd iws) < 2 ^ 32" for iws :: "(nat \<times> nat) list" and score
    using that
  proof (induction iws arbitrary: score)
    case (Cons iw iws)
    obtain i w where iw: "iw = (i, w)" by fastforce
    let ?m = "percent_mul T w (get_or 0 history (saturating_sub p (of_nat i), a))"
    have m: "unat ?m \<le> 10 * w" using Cons.prems iw get by (intro percent_mul_le [OF assms(1)]) auto
    then have add: "unat (score + ?m) = unat score + unat ?m" using Cons.prems iw by (intro unat_add_eq) auto
    show ?case
    proof (cases "p \<ge> of_nat i")
      case True
      have "unat (score + ?m) + 10 * sum_list (map snd iws) < 2 ^ 32" using Cons.prems iw add m by simp
      with Cons.IH [of "score + ?m"] Cons.prems(1) iw True add m show ?thesis by simp
    next
      case False
      with Cons.IH [of score] Cons.prems iw show ?thesis by simp
    qed
  qed simp
  show ?thesis
    unfolding credit_score_def
    by (rule order_trans [OF step]) (simp_all add: PERIOD_WEIGHT_def)
qed


section \<open>Reachable states\<close>

inductive sc_reachable :: "'t sc_config_scheme \<Rightarrow> 's sc_state_scheme \<Rightarrow> bool" for T where
  genesis: "HistoryCreditValues s = Map.empty \<Longrightarrow> sc_reachable T s"
| proceed: "sc_reachable T s \<Longrightarrow> sc_reachable T (snd (record_proceed_block_size a n s))"
| punish: "sc_reachable T s \<Longrightarrow> sc_reachable T (snd (record_punishment a s))"
| block: "sc_reachable T s \<Longrightarrow> sc_reachable T (snd (sc_on_initialize T now s))"
| elsewhere: "sc_reachable T s \<Longrightarrow> HistoryCreditValues t = HistoryCreditValues s \<Longrightarrow> sc_reachable T t"

lemma mutate_counter_history: "HistoryCreditValues (snd (mutate_counter a f s)) = HistoryCreditValues s"
  by (auto simp: mutate_counter_def run_simps split: sum.split)

text \<open>What a period's end does to the history, in one step.\<close>

lemma store_values:
  "for_each (\<lambda>a. modify (HistoryCreditValues_update (\<lambda>m. m((p, a) \<mapsto> f a)))) as s =
     (Inr (), HistoryCreditValues_update (\<lambda>m. \<lambda>k. if fst k = p \<and> snd k \<in> set as then Some (f (snd k)) else m k) s)"
proof (induction as arbitrary: s)
  case Nil
  then show ?case by (simp add: ret_def)
next
  case (Cons a as)
  then show ?case by (auto simp: andthen_def bnd_def modify_def fun_eq_iff intro!: sc_state.equality)
qed

lemma unat_history_depth: "unat (of_nat (length PERIOD_WEIGHT) :: u32) = 5"
  by (simp add: PERIOD_WEIGHT_def)

lemma figure_credit_values_eq:
  assumes "iter_laws T" and "finite (dom (CurrentCounters s))"
  shows "figure_credit_values T p s = (Inr (), s\<lparr>CurrentCounters := Map.empty,
     HistoryCreditValues := (\<lambda>(q, a).
       if 5 \<le> unat p \<and> unat q = unat p - 5 then None
       else if q = p \<and> a \<in> dom (CurrentCounters s)
       then Some (figure_credit_value T (the (CurrentCounters s a)) (total_block_size T s))
       else HistoryCreditValues s (q, a))\<rparr>)"
proof -
  have keys: "set (iter_keys T (dom (CurrentCounters s))) = dom (CurrentCounters s)"
    using assms by (simp add: iter_laws_def)
  have "unat (saturating_sub p (of_nat (length PERIOD_WEIGHT))) = unat p - 5"
    by (simp add: unat_saturating_sub unat_history_depth)
  then have "q = saturating_sub p (of_nat (length PERIOD_WEIGHT)) \<longleftrightarrow> unat q = unat p - 5" for q
    by (simp add: word_unat_eq_iff)
  moreover have "of_nat (length PERIOD_WEIGHT) \<le> p \<longleftrightarrow> 5 \<le> unat p"
    unfolding word_order unat_history_depth ..
  ultimately show ?thesis
    unfolding figure_credit_values_def
    by (auto simp: run_simps store_values keys Let_def remove_prefix_def fun_eq_iff intro!: sc_state.equality)
qed

lemma sc_on_initialize_history:
  assumes "credit_laws T" and "history_ok s"
  shows "history_ok (snd (sc_on_initialize T now s))"
  using assms figure_credit_value_le [OF assms(1)]
  by (auto simp: sc_on_initialize_def figure_credit_values_def run_simps store_values Let_def history_ok_def
      remove_prefix_def split: if_splits)

lemma sc_reachable_history:
  assumes "credit_laws T" and "sc_reachable T s"
  shows "history_ok s"
  using assms(2)
proof (induction rule: sc_reachable.induct)
  case (block s now)
  then show ?case using sc_on_initialize_history [OF assms(1)] by blast
qed (auto simp: history_ok_def record_proceed_block_size_def record_punishment_def mutate_counter_history)

section \<open>Properties\<close>

text \<open>
  C31: the credit score handed to the election never exceeds the full score of 1000, in any
  state reached by recording work, recording punishments and ending periods.
\<close>
theorem credit_scores_bounded:
  assumes "credit_laws T" and "sc_reachable T s" and "figure_credit_scores T s a = Some score"
  shows "unat score \<le> unat full_credit"
proof -
  have hist: "\<And>k v. HistoryCreditValues s k = Some v \<Longrightarrow> unat v \<le> 1000"
    using sc_reachable_history [OF assms(1,2)] by (auto simp: history_ok_def)
  have "\<forall>x. fold (\<lambda>c result. (case find_stash_account_id s c of Some st \<Rightarrow>
        result(st \<mapsto> credit_score T (HistoryCreditValues s) p c) | None \<Rightarrow> result)) keys m a = Some x \<longrightarrow> unat x \<le> 1000"
    if "\<forall>x. m a = Some x \<longrightarrow> unat x \<le> 1000" for keys m p
    using that
  proof (induction keys arbitrary: m)
    case (Cons c keys)
    show ?case
    proof (cases "find_stash_account_id s c")
      case (Some st)
      have "\<forall>x. (m(st \<mapsto> credit_score T (HistoryCreditValues s) p c)) a = Some x \<longrightarrow> unat x \<le> 1000"
        using Cons.prems credit_score_le [OF assms(1) hist] by auto
      with Cons.IH [of "m(st \<mapsto> credit_score T (HistoryCreditValues s) p c)"] Some show ?thesis by (simp add: fun_upd_def)
    qed (use Cons in simp)
  qed simp
  then show ?thesis
    using assms(3) by (fastforce simp: figure_credit_scores_def Let_def full_credit_def FULL_CREDIT_SCORE_def split: if_splits)
qed

text \<open>
  At a period's end every counter becomes one credit value of that period, the counters are
  cleared, the values that fall out of the five-period window are removed, and all other
  values stay.
\<close>
theorem period_end:
  assumes "iter_laws T" and "finite (dom (CurrentCounters s))" and "PeriodDuration T \<noteq> 0"
    and "now mod PeriodDuration T = 0" and "p = saturating_sub (now div PeriodDuration T) 1"
  shows "sc_on_initialize T now s = (Inr (), s\<lparr>CurrentCounters := Map.empty,
     HistoryCreditValues := (\<lambda>(q, a).
       if 5 \<le> unat p \<and> unat q = unat p - 5 then None
       else if q = p \<and> a \<in> dom (CurrentCounters s)
       then Some (figure_credit_value T (the (CurrentCounters s a)) (total_block_size T s))
       else HistoryCreditValues s (q, a))\<rparr>)"
  using assms(3,4) figure_credit_values_eq [OF assms(1,2), of p]
  by (simp add: sc_on_initialize_def run_simps assms(5) [symmetric])

text \<open>
  The punishment part is the square of ten times the number of punishments as long as
  there are at most 6553 of them; the multiplication is unchecked, and 32768 punishments cost
  nothing.
\<close>
theorem punishment_part_exact:
  "unat (punishment_part e) =
     (if unat (punishment_count e) \<le> 6553 then (10 * unat (punishment_count e)) ^ 2
      else (10 * unat (punishment_count e)) ^ 2 mod 2 ^ 32)
   \<and> punishment_part (e\<lparr>punishment_count := 32768\<rparr>) = 0"
proof -
  let ?c = "unat (punishment_count e)"
  have "unat (punishment_part e) = (10 * ?c) ^ 2 mod 2 ^ 32"
    by (auto simp: punishment_part_def power2_eq_square unat_word_ariths mod_mult_left_eq mod_mult_right_eq)
  moreover have "(10 * ?c) ^ 2 < 2 ^ 32" if "?c \<le> 6553"
  proof -
    have "(10 * ?c) ^ 2 \<le> (10 * 6553) ^ 2" using that by (intro power_mono) auto
    then show ?thesis by simp
  qed
  moreover have "punishment_part (e\<lparr>punishment_count := 32768\<rparr>) = 0"
    by (simp add: punishment_part_def)
  ultimately show ?thesis by auto
qed


section \<open>A concrete configuration\<close>

definition ref_percent_mul :: "nat \<Rightarrow> u32 \<Rightarrow> u32" where
  "ref_percent_mul p x = of_nat ((p * unat x + 49) div 100)"

definition ref_perbill_mul32 :: "u32 \<Rightarrow> u32 \<Rightarrow> u32" where
  "ref_perbill_mul32 p x = of_nat (unat p * unat x div 10 ^ 9)"

definition ref_from_rational64 :: "u64 \<Rightarrow> u64 \<Rightarrow> u32" where
  "ref_from_rational64 a b = of_nat (if unat a \<ge> unat b then 10 ^ 9 else unat a * 10 ^ 9 div unat b)"

definition sc_conf :: "'t \<Rightarrow> 't sc_config_scheme" where
  "sc_conf more' = st_conf (sc_config_ext 7200 ref_from_rational64 ref_perbill_mul32 ref_percent_mul more')"

lemma sc_conf_laws: "currency_laws (sc_conf m)" "perbill_laws (sc_conf m)" "iter_laws (sc_conf m)"
  by (simp_all add: sc_conf_def st_conf_laws)

lemma sc_conf_simps [simp]:
  "PeriodDuration (sc_conf m) = 7200" "perbill_from_rational64 (sc_conf m) = ref_from_rational64"
  "perbill_mul32 (sc_conf m) = ref_perbill_mul32" "percent_mul (sc_conf m) = ref_percent_mul"
  by (simp_all add: sc_conf_def st_conf_def sm_conf_def ca_conf_def sh_conf_def ref_ext_def)

lemma ref_from_rational64_le: "unat (ref_from_rational64 a b) \<le> 10 ^ 9"
proof (cases "unat a \<ge> unat b")
  case False
  then have "unat a * 10 ^ 9 div unat b \<le> unat b * 10 ^ 9 div unat b" by (intro div_le_mono) simp
  with False show ?thesis by (simp add: ref_from_rational64_def unat_of_nat)
qed (simp add: ref_from_rational64_def)

lemma ref_perbill_mul32_le:
  assumes "unat p \<le> 10 ^ 9"
  shows "unat (ref_perbill_mul32 p x) \<le> unat x"
proof -
  have "unat p * unat x div 10 ^ 9 \<le> 10 ^ 9 * unat x div 10 ^ 9" using assms by (intro div_le_mono mult_le_mono1)
  then have "unat p * unat x div 10 ^ 9 \<le> unat x" by simp
  then show ?thesis
    unfolding ref_perbill_mul32_def unat_of_nat by (rule le_trans [OF mod_less_eq_dividend])
qed

lemma ref_percent_mul_near:
  assumes "p \<le> 100"
  shows "100 * unat (ref_percent_mul p x) \<le> p * unat x + 50 \<and> p * unat x \<le> 100 * unat (ref_percent_mul p x) + 50"
proof -
  have "p * unat x \<le> 100 * unat x" using assms by (intro mult_le_mono1)
  moreover have "unat x < 4294967296" using unat_lt [of x] by simp
  ultimately have "p * unat x + 49 < 4294967296 * 100" by linarith
  then have "(p * unat x + 49) div 100 < 2 ^ 32" by (simp add: div_less_iff_less_mult)
  then have "unat (ref_percent_mul p x) = (p * unat x + 49) div 100"
    by (simp add: ref_percent_mul_def unat_of_nat)
  moreover have "100 * ((n + 49) div 100) \<le> n + 50 \<and> n \<le> 100 * ((n + 49) div 100) + 50" for n :: nat
    by linarith
  ultimately show ?thesis by simp
qed

lemma sc_conf_credit: "credit_laws (sc_conf m)"
  using ref_from_rational64_le ref_perbill_mul32_le ref_percent_mul_near by (auto simp: credit_laws_def)

definition ex_sc_with :: "'s \<Rightarrow> 's sc_state_scheme" where
  "ex_sc_with more' = (ex_sm_with (st_state_ext [30 \<mapsto> 31] [31 \<mapsto> ex_ledger] 1000 (Some 3) [30 \<mapsto> 150] []
     (sc_state_ext [31 \<mapsto> \<lparr>proceed_block_size = 300, punishment_count = 1\<rparr>] [(0, 31) \<mapsto> 400] more')))\<lparr>block_number := 7200\<rparr>"

lemma ex_sc_fields:
  "CurrentCounters (ex_sc_with m) = [31 \<mapsto> \<lparr>proceed_block_size = 300, punishment_count = 1\<rparr>]"
  "HistoryCreditValues (ex_sc_with m) = [(0, 31) \<mapsto> 400]" "block_number (ex_sc_with m) = 7200"
  "Ledger (ex_sc_with m) = [31 \<mapsto> ex_ledger]" "Bonded (ex_sc_with m) = [30 \<mapsto> 31]"
  by (simp_all add: ex_sc_with_def ex_sm_with_def ex_ca_with_def ex_oss_with_def ex_sh_with_def)

definition ex_sc_reached :: sc_state where
  "ex_sc_reached = (snd (sc_on_initialize (sc_conf ()) 7200
     ((ex_sc_with ())\<lparr>HistoryCreditValues := Map.empty\<rparr>)))\<lparr>block_number := 7200\<rparr>"

lemma ex_sc_reached: "sc_reachable (sc_conf ()) ex_sc_reached"
proof -
  have "sc_reachable (sc_conf ()) ((ex_sc_with () :: sc_state)\<lparr>HistoryCreditValues := Map.empty\<rparr>)"
    by (rule sc_reachable.genesis) simp
  from sc_reachable.block [OF this, of 7200] show ?thesis
    unfolding ex_sc_reached_def by (rule sc_reachable.elsewhere) simp
qed

lemma ex_first_period: "saturating_sub (7200 div PeriodDuration (sc_conf m)) 1 = 0"
  by (simp add: saturating_sub_def)

theorem period_end_witness:
  "HistoryCreditValues (snd (sc_on_initialize (sc_conf ()) 7200 (ex_sc_with () :: sc_state))) (0, 31) = Some 900"
proof -
  have fin: "finite (dom (CurrentCounters (ex_sc_with () :: sc_state)))" by (simp add: ex_sc_fields)
  have "total_block_size (sc_conf ()) (ex_sc_with () :: sc_state) = 300"
    by (simp add: total_block_size_def ex_sc_fields sc_conf_def st_conf_def sm_conf_def ca_conf_def sh_conf_def ref_ext_def)
  then show ?thesis
    using period_end [OF sc_conf_laws(3) [of "()"] fin _ _ ex_first_period [of "()", symmetric]]
    by (simp add: ex_sc_fields figure_credit_value_def punishment_part_def ref_perbill_mul32_def
        ref_from_rational64_def FULL_CREDIT_SCORE_def saturating_sub_def)
qed

theorem credit_scores_bounded_witness:
  "\<exists>score. figure_credit_scores (sc_conf ()) ex_sc_reached 30 = Some score \<and> unat score \<le> 1000"
proof -
  let ?s = "(ex_sc_with () :: sc_state)\<lparr>HistoryCreditValues := Map.empty\<rparr>"
  have "finite (dom (CurrentCounters ?s))" by (simp add: ex_sc_fields)
  note eq = figure_credit_values_eq [OF sc_conf_laws(3) [of "()"] this, of 0]
  have "\<exists>v. HistoryCreditValues ex_sc_reached = (\<lambda>(q, a). if q = 0 \<and> a = 31 then Some v else None)"
    by (rule exI [of _ "figure_credit_value (sc_conf ()) \<lparr>proceed_block_size = 300, punishment_count = 1\<rparr>
        (total_block_size (sc_conf ()) ?s)"]) (simp add: ex_sc_reached_def sc_on_initialize_def run_simps ex_first_period [simplified] eq
        ex_sc_fields fun_eq_iff)
  moreover have "block_number ex_sc_reached = 7200" by (simp add: ex_sc_reached_def)
  moreover have "Ledger ex_sc_reached = [31 \<mapsto> ex_ledger]"
    by (simp add: ex_sc_reached_def sc_on_initialize_def run_simps ex_first_period [simplified] eq ex_sc_fields)
  moreover have "iter_keys (sc_conf ()) {a. a = 31} = [31]"
    by (simp add: sc_conf_def st_conf_def sm_conf_def ca_conf_def sh_conf_def ref_ext_def)
  ultimately obtain score where "figure_credit_scores (sc_conf ()) ex_sc_reached 30 = Some score"
    by (force simp: figure_credit_scores_def Let_def saturating_sub_def find_stash_account_id_def ex_ledger_def)
  with credit_scores_bounded [OF sc_conf_credit ex_sc_reached this] show ?thesis
    by (simp add: full_credit_def FULL_CREDIT_SCORE_def)
qed

end
