(* ===== verification/Reader.thy ===== *)
theory Reader
  imports Prelude
begin

text \<open>
  What the certificate library of \<open>utils/\<close> is written in: Rust's \<open>Result\<close>, with a panic as a
  third outcome, and readers, the functions that take bytes from the front of an input and
  either fail or return a value. An \<open>untrusted::Input\<close> is a byte string and an
  \<open>untrusted::Reader\<close> the bytes that are still to be read; a reader is a function of them
  that returns the rest.

  The lemmas say, for each way of composing readers, that it takes a prefix of its input
  (\<open>consumes\<close>), that it does not panic (\<open>no_panic\<close>), and what a successful run did
  (\<open>rd_inv\<close>).
\<close>

section \<open>Results and readers\<close>

datatype ('a, 'e) result = Ok 'a | Err 'e | Panic

type_synonym ('a, 'e) reader = "bytes \<Rightarrow> ('a \<times> bytes, 'e) result"

named_theorems rd_defs \<open>the definitions of the readers' vocabulary\<close>
named_theorems rd_inv \<open>what a successful run did\<close>
named_theorems no_panic_intros \<open>composing readers that do not panic\<close>
named_theorems consumes_intros \<open>composing readers that take a prefix of their input\<close>

text \<open>\<open>?\<close> on a result.\<close>

definition res_bind :: "('a, 'e) result \<Rightarrow> ('a \<Rightarrow> ('b, 'e) result) \<Rightarrow> ('b, 'e) result" where
  "res_bind r f = (case r of Ok x \<Rightarrow> f x | Err e \<Rightarrow> Err e | Panic \<Rightarrow> Panic)"

definition res_map_err :: "'f \<Rightarrow> ('a, 'e) result \<Rightarrow> ('a, 'f) result" where
  "res_map_err e r = (case r of Ok x \<Rightarrow> Ok x | Err _ \<Rightarrow> Err e | Panic \<Rightarrow> Panic)"

definition rd_ret :: "'a \<Rightarrow> ('a, 'e) reader" where
  "rd_ret x = (\<lambda>i. Ok (x, i))"

definition rd_err :: "'e \<Rightarrow> ('a, 'e) reader" where
  "rd_err e = (\<lambda>i. Err e)"

definition rd_bind :: "('a, 'e) reader \<Rightarrow> ('a \<Rightarrow> ('b, 'e) reader) \<Rightarrow> ('b, 'e) reader" where
  "rd_bind m f = (\<lambda>i. res_bind (m i) (\<lambda>(x, i'). f x i'))"

definition rd_then :: "('a, 'e) reader \<Rightarrow> ('b, 'e) reader \<Rightarrow> ('b, 'e) reader" where
  "rd_then m n = rd_bind m (\<lambda>_. n)"

definition rd_map_err :: "'f \<Rightarrow> ('a, 'e) reader \<Rightarrow> ('a, 'f) reader" where
  "rd_map_err e m = (\<lambda>i. res_map_err e (m i))"

text \<open>A result that does not read, inside a reader.\<close>

definition rd_lift :: "('a, 'e) result \<Rightarrow> ('a, 'e) reader" where
  "rd_lift r = (\<lambda>i. res_bind r (\<lambda>x. Ok (x, i)))"

definition read_byte :: "'e \<Rightarrow> (u8, 'e) reader" where
  "read_byte e = (\<lambda>i. case i of [] \<Rightarrow> Err e | b # i' \<Rightarrow> Ok (b, i'))"

definition read_bytes :: "'e \<Rightarrow> nat \<Rightarrow> (bytes, 'e) reader" where
  "read_bytes e n = (\<lambda>i. if n \<le> length i then Ok (take n i, drop n i) else Err e)"

definition read_bytes_to_end :: "(bytes, 'e) reader" where
  "read_bytes_to_end = (\<lambda>i. Ok (i, []))"

definition at_end :: "(bool, 'e) reader" where
  "at_end = (\<lambda>i. Ok (i = [], i))"

definition peek :: "u8 \<Rightarrow> (bool, 'e) reader" where
  "peek b = (\<lambda>i. Ok (i \<noteq> [] \<and> hd i = b, i))"

text \<open>Runs a reader on the whole of an input; what it leaves unread is the given error.\<close>

definition read_all :: "'e \<Rightarrow> ('a, 'e) reader \<Rightarrow> bytes \<Rightarrow> ('a, 'e) result" where
  "read_all e m i = res_bind (m i) (\<lambda>(x, rest). if rest = [] then Ok x else Err e)"

text \<open>The same on an input that may be missing.\<close>

definition read_all_optional :: "'e \<Rightarrow> (bytes option \<Rightarrow> ('a \<times> bytes, 'e) result) \<Rightarrow> bytes option \<Rightarrow> ('a, 'e) result" where
  "read_all_optional e f input =
     (case input of
        Some i \<Rightarrow> read_all e (\<lambda>i. f (Some i)) i
      | None \<Rightarrow> res_bind (f None) (\<lambda>(x, _). Ok x))"

text \<open>Runs a reader and returns the bytes it took along with its value.\<close>

definition read_partial :: "('a, 'e) reader \<Rightarrow> (bytes \<times> 'a, 'e) reader" where
  "read_partial m = (\<lambda>i. res_bind (m i) (\<lambda>(x, rest). Ok ((take (length i - length rest) i, x), rest)))"

lemmas rd_run [rd_defs] =
  res_bind_def res_map_err_def rd_ret_def rd_err_def rd_bind_def rd_then_def rd_map_err_def rd_lift_def
  read_byte_def read_bytes_def read_bytes_to_end_def at_end_def peek_def read_all_def read_partial_def

section \<open>Successful runs\<close>

lemma res_bind_Ok [rd_inv]: "res_bind r f = Ok y \<longleftrightarrow> (\<exists>x. r = Ok x \<and> f x = Ok y)"
  by (cases r) (simp_all add: res_bind_def)

lemma res_map_err_Ok [rd_inv]: "res_map_err e r = Ok y \<longleftrightarrow> r = Ok y"
  by (cases r) (simp_all add: res_map_err_def)

lemma rd_bind_Ok [rd_inv]: "rd_bind m f i = Ok (y, r) \<longleftrightarrow> (\<exists>x i'. m i = Ok (x, i') \<and> f x i' = Ok (y, r))"
  by (auto simp: rd_bind_def res_bind_Ok)

lemma rd_then_Ok [rd_inv]: "rd_then m n i = Ok (y, r) \<longleftrightarrow> (\<exists>x i'. m i = Ok (x, i') \<and> n i' = Ok (y, r))"
  by (simp add: rd_then_def rd_bind_Ok)

lemma rd_ret_Ok [rd_inv]: "rd_ret x i = Ok (y, r) \<longleftrightarrow> y = x \<and> r = i"
  by (auto simp: rd_ret_def)

lemma rd_err_Ok [rd_inv]: "rd_err e i \<noteq> Ok y"
  by (simp add: rd_err_def)

lemma rd_map_err_Ok [rd_inv]: "rd_map_err e m i = Ok y \<longleftrightarrow> m i = Ok y"
  by (simp add: rd_map_err_def res_map_err_Ok)

lemma rd_lift_Ok [rd_inv]: "rd_lift s i = Ok (y, r) \<longleftrightarrow> s = Ok y \<and> r = i"
  by (auto simp: rd_lift_def res_bind_Ok)

lemma read_byte_Ok [rd_inv]: "read_byte e i = Ok (b, r) \<longleftrightarrow> i = b # r"
  by (auto simp: read_byte_def split: list.splits)

lemma read_bytes_Ok [rd_inv]: "read_bytes e n i = Ok (v, r) \<longleftrightarrow> i = v @ r \<and> length v = n"
  by (auto simp: read_bytes_def)

lemma read_bytes_to_end_Ok [rd_inv]: "read_bytes_to_end i = Ok (v, r) \<longleftrightarrow> v = i \<and> r = []"
  by (auto simp: read_bytes_to_end_def)

lemma at_end_Ok [rd_inv]: "at_end i = Ok (b, r) \<longleftrightarrow> b = (i = []) \<and> r = i"
  by (auto simp: at_end_def)

lemma peek_Ok [rd_inv]: "peek c i = Ok (b, r) \<longleftrightarrow> b = (i \<noteq> [] \<and> hd i = c) \<and> r = i"
  by (auto simp: peek_def)

lemma read_all_Ok [rd_inv]: "read_all e m i = Ok x \<longleftrightarrow> m i = Ok (x, [])"
  by (auto simp: read_all_def res_bind_Ok split: if_splits)

lemma rd_if_Ok [rd_inv]: "(if c then m else n) i = Ok y \<longleftrightarrow> (if c then m i = Ok y else n i = Ok y)"
  by simp

section \<open>Readers take a prefix\<close>

definition consumes :: "('a, 'e) reader \<Rightarrow> bool" where
  "consumes m \<longleftrightarrow> (\<forall>i x r. m i = Ok (x, r) \<longrightarrow> (\<exists>p. i = p @ r))"

lemma consumesD: "consumes m \<Longrightarrow> m i = Ok (x, r) \<Longrightarrow> \<exists>p. i = p @ r"
  by (simp add: consumes_def)

lemma consumes_bind [consumes_intros]: "consumes m \<Longrightarrow> (\<And>x. consumes (f x)) \<Longrightarrow> consumes (rd_bind m f)"
  unfolding consumes_def rd_bind_Ok by (metis append.assoc)

lemma consumes_then [consumes_intros]: "consumes m \<Longrightarrow> consumes n \<Longrightarrow> consumes (rd_then m n)"
  unfolding rd_then_def by (rule consumes_bind)

lemma consumes_if [consumes_intros]: "(c \<Longrightarrow> consumes m) \<Longrightarrow> (\<not> c \<Longrightarrow> consumes n) \<Longrightarrow> consumes (if c then m else n)"
  by simp

lemma consumes_basic [consumes_intros]:
  "consumes (rd_ret x)" "consumes (rd_err e)" "consumes (rd_lift s)" "consumes (read_byte e)" "consumes (read_bytes e n)"
  "consumes read_bytes_to_end" "consumes at_end" "consumes (peek c)" "consumes m \<Longrightarrow> consumes (rd_map_err e m)"
  by (simp_all add: consumes_def rd_inv)

lemma read_partial_Ok [rd_inv]:
  assumes "consumes m"
  shows "read_partial m i = Ok ((d, x), r) \<longleftrightarrow> m i = Ok (x, r) \<and> i = d @ r"
proof -
  have "take (length i - length r) i = d \<longleftrightarrow> i = d @ r" if "m i = Ok (x, r)"
    using consumesD [OF assms that] by auto
  then show ?thesis by (auto simp: read_partial_def res_bind_Ok)
qed

section \<open>Readers that do not panic\<close>

definition no_panic :: "('a, 'e) reader \<Rightarrow> bool" where
  "no_panic m \<longleftrightarrow> (\<forall>i. m i \<noteq> Panic)"

lemma no_panicD: "no_panic m \<Longrightarrow> m i \<noteq> Panic"
  by (simp add: no_panic_def)

lemma res_bind_Panic: "res_bind r f = Panic \<longleftrightarrow> r = Panic \<or> (\<exists>x. r = Ok x \<and> f x = Panic)"
  by (cases r) (simp_all add: res_bind_def)

lemma no_panic_bind_Ok: "no_panic m \<Longrightarrow> (\<And>x i r. m i = Ok (x, r) \<Longrightarrow> no_panic (f x)) \<Longrightarrow> no_panic (rd_bind m f)"
  by (auto simp: no_panic_def rd_bind_def res_bind_Panic)

lemma no_panic_bind [no_panic_intros]: "no_panic m \<Longrightarrow> (\<And>x. no_panic (f x)) \<Longrightarrow> no_panic (rd_bind m f)"
  by (rule no_panic_bind_Ok)

lemma no_panic_then [no_panic_intros]: "no_panic m \<Longrightarrow> no_panic n \<Longrightarrow> no_panic (rd_then m n)"
  unfolding rd_then_def by (rule no_panic_bind)

lemma no_panic_if [no_panic_intros]: "(c \<Longrightarrow> no_panic m) \<Longrightarrow> (\<not> c \<Longrightarrow> no_panic n) \<Longrightarrow> no_panic (if c then m else n)"
  by simp

lemma no_panic_map_err [no_panic_intros]: "no_panic m \<Longrightarrow> no_panic (rd_map_err e m)"
  by (auto simp: no_panic_def rd_map_err_def res_map_err_def split: result.splits)

lemma no_panic_lift [no_panic_intros]: "s \<noteq> Panic \<Longrightarrow> no_panic (rd_lift s)"
  by (auto simp: no_panic_def rd_lift_def res_bind_Panic)

lemma no_panic_basic [no_panic_intros]:
  "no_panic (rd_ret x)" "no_panic (rd_err e)" "no_panic (read_byte e)" "no_panic (read_bytes e n)"
  "no_panic read_bytes_to_end" "no_panic at_end" "no_panic (peek c)"
  by (simp_all add: no_panic_def rd_defs split: list.splits)

lemma no_panic_partial [no_panic_intros]: "no_panic m \<Longrightarrow> no_panic (read_partial m)"
  by (auto simp: no_panic_def read_partial_def res_bind_Panic)

lemma read_all_no_panic [no_panic_intros]: "no_panic m \<Longrightarrow> read_all e m i \<noteq> Panic"
  by (auto simp: no_panic_def read_all_def res_bind_Panic split: if_splits)

lemma read_all_optional_no_panic [no_panic_intros]:
  "(\<And>i. f i \<noteq> Panic) \<Longrightarrow> read_all_optional e f input \<noteq> Panic"
  by (auto simp: read_all_optional_def res_bind_Panic read_all_def split: option.splits if_splits)

end
