(* ===== verification/Ring_Der.thy ===== *)
theory Ring_Der
  imports Reader
begin

unbundle bit_operations_syntax

text \<open>
  \<open>utils/ring/src/io\<close>: reading and writing DER, the encoding of certificates. \<open>der.rs\<close> reads
  a tag, a length and a value and checks that the length has its shortest form; the writer of
  \<open>der_writer.rs\<close> runs a closure twice, once to measure and once to write (\<open>writer.rs\<close>). A
  \<open>usize\<close> is a natural number here: no length exceeds that of an input. The error type
  \<open>Unspecified\<close> has one value.

  The lemmas show that the reader accepts exactly what the writer produces, for tagged values
  and for positive integers.
\<close>

section \<open>Reading: der.rs\<close>

datatype Unspecified = Unspecified

definition CONSTRUCTED :: u8 where "CONSTRUCTED = push_bit 5 1"
definition CONTEXT_SPECIFIC :: u8 where "CONTEXT_SPECIFIC = push_bit 6 2"

datatype Tag =
    Boolean | Integer | BitString | OctetString | Null | OID | Sequence | UTCTime | GeneralizedTime
  | ContextSpecificConstructed0 | ContextSpecificConstructed1 | ContextSpecificConstructed3

fun tag_u8 :: "Tag \<Rightarrow> u8" where
  "tag_u8 Boolean = 0x01"
| "tag_u8 Integer = 0x02"
| "tag_u8 BitString = 0x03"
| "tag_u8 OctetString = 0x04"
| "tag_u8 Null = 0x05"
| "tag_u8 OID = 0x06"
| "tag_u8 Sequence = CONSTRUCTED OR 0x10"
| "tag_u8 UTCTime = 0x17"
| "tag_u8 GeneralizedTime = 0x18"
| "tag_u8 ContextSpecificConstructed0 = CONTEXT_SPECIFIC OR CONSTRUCTED OR 0"
| "tag_u8 ContextSpecificConstructed1 = CONTEXT_SPECIFIC OR CONSTRUCTED OR 1"
| "tag_u8 ContextSpecificConstructed3 = CONTEXT_SPECIFIC OR CONSTRUCTED OR 3"

text \<open>The length octets: one, or \<open>0x81\<close> and one, or \<open>0x82\<close> and two, in their shortest form.\<close>

definition read_length :: "(nat, Unspecified) reader" where
  "read_length =
     rd_bind (read_byte Unspecified) (\<lambda>n.
       if n AND 0x80 = 0 then rd_ret (unat n)
       else if n = 0x81 then
         rd_bind (read_byte Unspecified) (\<lambda>second_byte.
           if second_byte < 128 then rd_err Unspecified
           else rd_ret (unat second_byte))
       else if n = 0x82 then
         rd_bind (read_byte Unspecified) (\<lambda>second_byte.
         rd_bind (read_byte Unspecified) (\<lambda>third_byte.
           let combined = push_bit 8 (unat second_byte) OR unat third_byte in
           if combined < 256 then rd_err Unspecified
           else rd_ret combined))
       else rd_err Unspecified)"

definition ring_read_tag_and_get_value :: "(u8 \<times> bytes, Unspecified) reader" where
  "ring_read_tag_and_get_value =
     rd_bind (read_byte Unspecified) (\<lambda>tag.
       if tag AND 0x1F = 0x1F then rd_err Unspecified
       else
         rd_bind read_length (\<lambda>len.
         rd_bind (read_bytes Unspecified len) (\<lambda>inner.
         rd_ret (tag, inner))))"

definition ring_expect_tag_and_get_value :: "Tag \<Rightarrow> (bytes, Unspecified) reader" where
  "ring_expect_tag_and_get_value tag =
     rd_bind ring_read_tag_and_get_value (\<lambda>(actual_tag, inner).
       if tag_u8 tag \<noteq> actual_tag then rd_err Unspecified else rd_ret inner)"

definition nested :: "Tag \<Rightarrow> 'e \<Rightarrow> ('a, 'e) reader \<Rightarrow> ('a, 'e) reader" where
  "nested tag e decoder =
     rd_bind (rd_map_err e (ring_expect_tag_and_get_value tag)) (\<lambda>inner.
       rd_lift (read_all e decoder inner))"

definition ring_bit_string_with_no_unused_bits :: "(bytes, Unspecified) reader" where
  "ring_bit_string_with_no_unused_bits =
     nested BitString Unspecified
       (rd_bind (read_byte Unspecified) (\<lambda>unused_bits_at_end.
          if unused_bits_at_end \<noteq> 0 then rd_err Unspecified else read_bytes_to_end))"

text \<open>
  An integer that is not negative, without its leading zero. The value must have no
  unnecessary leading zero and be at least \<open>min_value\<close>.
\<close>

definition check_minimum :: "u8 \<Rightarrow> bytes \<Rightarrow> (unit, Unspecified) result" where
  "check_minimum min_value =
     read_all Unspecified
       (rd_bind (read_byte Unspecified) (\<lambda>first_byte.
        rd_bind at_end (\<lambda>ended.
          if ended \<and> first_byte < min_value then rd_err Unspecified
          else rd_then read_bytes_to_end (rd_ret ()))))"

definition nonnegative_value :: "u8 \<Rightarrow> bytes \<Rightarrow> (bytes, Unspecified) result" where
  "nonnegative_value min_value value =
     read_all Unspecified
       (rd_bind (read_byte Unspecified) (\<lambda>first_byte.
          if first_byte = 0 then
            rd_bind at_end (\<lambda>ended.
              if ended then
                (if min_value > 0 then rd_err Unspecified else rd_ret value)
              else
                rd_bind read_bytes_to_end (\<lambda>r.
                rd_then
                  (rd_lift (read_all Unspecified
                     (rd_bind (read_byte Unspecified) (\<lambda>second_byte.
                        if second_byte AND 0x80 = 0 then rd_err Unspecified
                        else rd_then read_bytes_to_end (rd_ret ()))) r))
                  (rd_then (rd_lift (check_minimum min_value r))
                  (rd_ret r))))
          else if first_byte AND 0x80 \<noteq> 0 then rd_err Unspecified
          else
            rd_then read_bytes_to_end
            (rd_then (rd_lift (check_minimum min_value value))
            (rd_ret value)))) value"

definition nonnegative_integer :: "u8 \<Rightarrow> (bytes, Unspecified) reader" where
  "nonnegative_integer min_value =
     rd_bind (ring_expect_tag_and_get_value Integer) (\<lambda>value. rd_lift (nonnegative_value min_value value))"

definition ring_small_nonnegative_integer :: "(u8, Unspecified) reader" where
  "ring_small_nonnegative_integer =
     rd_bind (nonnegative_integer 0) (\<lambda>value. rd_lift (read_all Unspecified (read_byte Unspecified) value))"

text \<open>A \<open>Positive\<close> is the bytes of a positive number, without leading zeros.\<close>

type_synonym Positive = bytes

definition ring_positive_integer :: "(Positive, Unspecified) reader" where
  "ring_positive_integer = nonnegative_integer 1"

section \<open>Writing: writer.rs and der_writer.rs\<close>

text \<open>
  An accumulator measures or writes; a writer closure may panic (\<open>None\<close>), as \<open>write_tlv\<close> does
  on a value of 65536 bytes and more.
\<close>

datatype accumulator = LengthMeasurement nat | Writer bytes nat

fun write_byte :: "u8 \<Rightarrow> accumulator \<Rightarrow> accumulator" where
  "write_byte value (LengthMeasurement len) = LengthMeasurement (len + 1)"
| "write_byte value (Writer bs requested_capacity) = Writer (bs @ [value]) requested_capacity"

fun write_bytes :: "bytes \<Rightarrow> accumulator \<Rightarrow> accumulator" where
  "write_bytes value (LengthMeasurement len) = LengthMeasurement (len + length value)"
| "write_bytes value (Writer bs requested_capacity) = Writer (bs @ value) requested_capacity"

definition write_copy :: "bytes \<Rightarrow> accumulator \<Rightarrow> accumulator option" where
  "write_copy to_copy acc = Some (write_bytes to_copy acc)"

definition write_tlv :: "Tag \<Rightarrow> (accumulator \<Rightarrow> accumulator option) \<Rightarrow> accumulator \<Rightarrow> accumulator option" where
  "write_tlv tag write_value output =
     (case write_value (LengthMeasurement 0) of
        Some (LengthMeasurement len) \<Rightarrow>
          (let output = write_byte (tag_u8 tag) output in
           if len < 0x80 then
             write_value (write_byte (of_nat len) output)
           else if len < 0x100 then
             write_value (write_byte (of_nat len) (write_byte 0x81 output))
           else if len < 0x10000 then
             write_value (write_byte (of_nat len) (write_byte (of_nat (len div 0x100)) (write_byte 0x82 output)))
           else None)
      | _ \<Rightarrow> None)"

text \<open>Converting the writer into its bytes checks that the measured capacity was used up.\<close>

definition write_all :: "Tag \<Rightarrow> (accumulator \<Rightarrow> accumulator option) \<Rightarrow> bytes option" where
  "write_all tag write_value =
     (case write_tlv tag write_value (LengthMeasurement 0) of
        Some (LengthMeasurement capacity) \<Rightarrow>
          (case write_tlv tag write_value (Writer [] capacity) of
             Some (Writer bs requested_capacity) \<Rightarrow>
               (if requested_capacity = length bs then Some bs else None)
           | _ \<Rightarrow> None)
      | _ \<Rightarrow> None)"

definition write_positive_integer :: "Positive \<Rightarrow> accumulator \<Rightarrow> accumulator option" where
  "write_positive_integer value =
     (case value of
        [] \<Rightarrow> (\<lambda>output. None)
      | first_byte # _ \<Rightarrow>
          write_tlv Integer (\<lambda>output.
            write_copy value (if first_byte AND 0x80 \<noteq> 0 then write_byte 0 output else output)))"

section \<open>The reader accepts what the writer writes\<close>

text \<open>The length octets of a length below 65536, and the encoding of a tagged value.\<close>

definition len_octets :: "nat \<Rightarrow> bytes" where
  "len_octets n =
     (if n < 128 then [of_nat n] else if n < 256 then [0x81, of_nat n] else [0x82, of_nat (n div 256), of_nat n])"

definition tlv :: "u8 \<Rightarrow> bytes \<Rightarrow> bytes" where
  "tlv tag value = tag # len_octets (length value) @ value"

lemma high_bit_clear: "n AND 0x80 = 0 \<longleftrightarrow> unat n < 128" for n :: u8
proof -
  have "n AND 0x80 = 0 \<longleftrightarrow> \<not> bit n 7"
    using and_exp_eq_0_iff_not_bit [of n 7] by simp
  also have "\<dots> \<longleftrightarrow> \<not> bit (unat n) 7" by (simp add: bit_unsigned_iff)
  also have "\<dots> \<longleftrightarrow> unat n < 128"
    using unat_lt [of n] by (auto simp: bit_iff_odd even_iff_mod_2_eq_zero)
  finally show ?thesis .
qed

lemma two_octets: "push_bit 8 (unat a) OR unat b = unat a * 256 + unat b" for a b :: u8
proof -
  have "push_bit 8 (unat a) OR unat b = push_bit 8 (unat a) + unat b"
    by (rule disjunctive_add_eq_or [symmetric]) (rule bit_eqI, use unat_lt [of b] in \<open>auto simp: bit_simps bit_unsigned_iff dest: bit_imp_le_length\<close>)
  then show ?thesis by (simp add: push_bit_eq_mult)
qed

lemma read_length_short: "unat n < 128 \<Longrightarrow> read_length (n # i) = Ok (unat n, i)"
  by (simp add: read_length_def rd_defs high_bit_clear)

lemma read_length_one:
  "read_length (0x81 # b # i) = (if unat b < 128 then Err Unspecified else Ok (unat b, i))"
  by (simp add: read_length_def rd_defs word_less_nat_alt)

lemma read_length_two:
  "read_length (0x82 # a # b # i) =
     (if unat a = 0 then Err Unspecified else Ok (unat a * 256 + unat b, i))"
  using unat_lt [of b] by (auto simp add: read_length_def rd_defs two_octets Let_def)

lemma read_length_shape:
  assumes "read_length i = Ok (n, r)"
  obtains b where "i = b # r" "unat b < 128" "n = unat b"
  | b where "i = 0x81 # b # r" "128 \<le> unat b" "n = unat b"
  | a b where "i = 0x82 # a # b # r" "unat a \<noteq> 0" "n = unat a * 256 + unat b"
proof -
  obtain c i' where i: "i = c # i'" using assms by (auto simp: read_length_def rd_inv)
  have nonzero: "unat a \<noteq> 0" if "256 \<le> unat a * 256 + unat b" for a b :: u8
    using that unat_lt [of b] by auto
  show thesis
    using assms
    by (auto simp: i read_length_def rd_inv high_bit_clear two_octets Let_def word_less_nat_alt not_less split: if_splits
        intro: that dest: nonzero)
qed

lemma unat_of_nat_u8: "n < 256 \<Longrightarrow> unat (of_nat n :: u8) = n"
  by (simp add: unat_of_nat)

lemma of_nat_u8_mod: "of_nat (a * 256 + unat b) = (b :: u8)"
proof -
  have zero: "(256 :: u8) = 0" by simp
  show ?thesis unfolding of_nat_add of_nat_mult of_nat_numeral zero by simp
qed

lemma read_length_Ok: "read_length i = Ok (n, r) \<longleftrightarrow> n < 65536 \<and> i = len_octets n @ r"
proof
  assume "read_length i = Ok (n, r)"
  then show "n < 65536 \<and> i = len_octets n @ r"
  proof (cases rule: read_length_shape)
    case (1 b)
    then show ?thesis by (simp add: len_octets_def)
  next
    case (2 b)
    then show ?thesis using unat_lt [of b] by (simp add: len_octets_def)
  next
    case (3 a b)
    have "a = of_nat (unat a)" by simp
    with 3 show ?thesis
      using unat_lt [of a] unat_lt [of b] by (simp add: len_octets_def of_nat_u8_mod del: of_nat_add of_nat_mult)
  qed
next
  assume *: "n < 65536 \<and> i = len_octets n @ r"
  have "unat (of_nat (n div 256) :: u8) = n div 256" using * by (intro unat_of_nat_u8) auto
  moreover have "unat (of_nat n :: u8) = n mod 256" by (simp add: unat_of_nat)
  ultimately show "read_length i = Ok (n, r)"
    using * by (auto simp: len_octets_def read_length_short read_length_one read_length_two)
qed

lemma read_tlv_Ok [rd_inv]:
  "ring_read_tag_and_get_value i = Ok ((tag, v), r) \<longleftrightarrow>
     tag AND 0x1F \<noteq> 0x1F \<and> length v < 65536 \<and> i = tlv tag v @ r"
  by (auto simp: ring_read_tag_and_get_value_def rd_inv read_length_Ok tlv_def)

lemma tag_u8_low: "tag_u8 tag AND 0x1F \<noteq> 0x1F"
  by (cases tag) (simp_all add: CONSTRUCTED_def CONTEXT_SPECIFIC_def)

lemma expect_tag_Ok [rd_inv]:
  "ring_expect_tag_and_get_value tag i = Ok (v, r) \<longleftrightarrow> length v < 65536 \<and> i = tlv (tag_u8 tag) v @ r"
  using tag_u8_low [of tag] by (auto simp: ring_expect_tag_and_get_value_def rd_inv)

lemma write_tlv_copies:
  assumes "\<And>acc. write_value acc = Some (write_bytes v acc)"
  shows "write_tlv tag write_value acc = (if length v < 65536 then Some (write_bytes (tlv (tag_u8 tag) v) acc) else None)"
  by (cases acc) (simp_all add: write_tlv_def assms tlv_def len_octets_def Let_def)

lemma write_all_copies:
  assumes "\<And>acc. write_value acc = Some (write_bytes v acc)"
  shows "write_all tag write_value = (if length v < 65536 then Some (tlv (tag_u8 tag) v) else None)"
  by (simp add: write_all_def write_tlv_copies [OF assms])

section \<open>Positive integers\<close>

lemma check_minimum_Ok: "check_minimum m v = Ok x \<longleftrightarrow> v \<noteq> [] \<and> (length v = 1 \<longrightarrow> m \<le> hd v)"
  by (cases v) (auto simp: check_minimum_def rd_inv not_less)

text \<open>The content octets of a number: a zero in front when the first bit is set.\<close>

definition int_octets :: "bytes \<Rightarrow> bytes" where
  "int_octets v = (if 128 \<le> unat (hd v) then 0 # v else v)"

lemma nonnegative_value_Ok:
  "nonnegative_value m value = Ok v \<longleftrightarrow>
     (value = [0] \<and> v = [0] \<and> m = 0) \<or>
     (v \<noteq> [] \<and> hd v \<noteq> 0 \<and> value = int_octets v \<and> (length v = 1 \<longrightarrow> m \<le> hd v))"
proof (cases "value")
  case Nil
  then show ?thesis by (auto simp: nonnegative_value_def rd_inv int_octets_def)
next
  case (Cons b w)
  show ?thesis
  proof (cases "b = 0")
    case True
    show ?thesis
      by (cases w) (use True Cons in \<open>auto simp: nonnegative_value_def rd_defs check_minimum_def int_octets_def high_bit_clear
        word_gt_0 not_less split: if_splits\<close>)
  next
    case False
    with Cons show ?thesis
      by (auto simp: nonnegative_value_def rd_inv int_octets_def high_bit_clear check_minimum_Ok not_less split: if_splits)
  qed
qed

lemma positive_integer_Ok [rd_inv]:
  "ring_positive_integer i = Ok (v, r) \<longleftrightarrow>
     v \<noteq> [] \<and> hd v \<noteq> 0 \<and> length (int_octets v) < 65536 \<and> i = tlv (tag_u8 Integer) (int_octets v) @ r"
proof -
  have "1 \<le> b \<longleftrightarrow> b \<noteq> 0" for b :: u8 by (simp add: word_le_nat_alt unat_eq_0 [symmetric] Suc_le_eq)
  then show ?thesis
    by (auto simp: ring_positive_integer_def nonnegative_integer_def rd_inv nonnegative_value_Ok)
qed

lemma write_positive_integer_run:
  assumes "v \<noteq> []"
  shows "write_positive_integer v acc =
     (if length (int_octets v) < 65536 then Some (write_bytes (tlv (tag_u8 Integer) (int_octets v)) acc) else None)"
proof -
  obtain b w where v: "v = b # w" using assms by (cases v) auto
  have "write_copy v (if b AND 0x80 \<noteq> 0 then write_byte 0 acc else acc) = Some (write_bytes (int_octets v) acc)" for acc
    by (cases acc) (simp_all add: v write_copy_def int_octets_def high_bit_clear not_less)
  then show ?thesis by (simp add: v write_positive_integer_def write_tlv_copies)
qed

text \<open>
  C11: the reader accepts exactly what the writer produces. An input starts with a value under
  the expected tag, and the reader returns the value and the rest, if and only if the input is
  the encoding that \<open>write_all\<close> gives the value, followed by the rest. The same holds of
  positive integers, which are returned without leading zeros. In particular every value has
  one encoding, and no value of 65536 bytes or more is read.
\<close>
theorem der_canonical:
  "(ring_expect_tag_and_get_value tag input = Ok (value, rest) \<longleftrightarrow>
      (\<exists>enc. write_all tag (write_copy value) = Some enc \<and> input = enc @ rest)) \<and>
   (ring_positive_integer input = Ok (value, rest) \<longleftrightarrow>
      value \<noteq> [] \<and> hd value \<noteq> 0 \<and>
      (\<exists>enc. write_positive_integer value (Writer [] capacity) = Some (Writer enc capacity) \<and> input = enc @ rest))"
proof -
  have "write_all tag (write_copy value) = (if length value < 65536 then Some (tlv (tag_u8 tag) value) else None)"
    by (rule write_all_copies) (simp add: write_copy_def)
  then show ?thesis by (auto simp: expect_tag_Ok positive_integer_Ok write_positive_integer_run split: if_splits)
qed

section \<open>Taking a prefix, not panicking\<close>

lemma consumes_read_tlv [consumes_intros]: "consumes ring_read_tag_and_get_value"
  by (auto simp: consumes_def rd_inv)

lemma consumes_expect_tag [consumes_intros]: "consumes (ring_expect_tag_and_get_value tag)"
  by (auto simp: consumes_def rd_inv)

lemma consumes_nested [consumes_intros]: "consumes (nested tag e m)"
  unfolding nested_def by (intro consumes_intros)

lemma nested_Ok [rd_inv]:
  "nested tag e m i = Ok (x, r) \<longleftrightarrow>
     (\<exists>v. length v < 65536 \<and> i = tlv (tag_u8 tag) v @ r \<and> m v = Ok (x, []))"
  by (auto simp: nested_def rd_inv)

lemma no_panic_read_tlv [no_panic_intros]: "no_panic ring_read_tag_and_get_value"
  unfolding ring_read_tag_and_get_value_def read_length_def Let_def by (intro no_panic_intros)

lemma no_panic_expect_tag [no_panic_intros]: "no_panic (ring_expect_tag_and_get_value tag)"
  unfolding ring_expect_tag_and_get_value_def case_prod_beta by (intro no_panic_intros)

lemma no_panic_nested [no_panic_intros]: "no_panic m \<Longrightarrow> no_panic (nested tag e m)"
  unfolding nested_def by (intro no_panic_intros)

lemma no_panic_integers [no_panic_intros]:
  "no_panic (nonnegative_integer m)" "no_panic ring_positive_integer" "no_panic ring_small_nonnegative_integer"
  "no_panic ring_bit_string_with_no_unused_bits"
  unfolding nonnegative_integer_def nonnegative_value_def check_minimum_def ring_positive_integer_def
    ring_small_nonnegative_integer_def ring_bit_string_with_no_unused_bits_def
  by (intro no_panic_intros)+

lemma tlv_nonempty: "tlv tag v \<noteq> []" "length (tlv tag v) \<ge> 2"
  by (simp_all add: tlv_def len_octets_def)

end
