(* ===== verification/Webpki_Der.thy ===== *)
theory Webpki_Der
  imports Ring_Der "HOL-Library.Product_Lexorder"
begin

text \<open>
  \<open>utils/webpki\<close>, the parts below certificates: the errors (\<open>error.rs\<close>), times and the calendar
  (\<open>time.rs\<close>, \<open>calendar.rs\<close>) and the DER readers with webpki's errors (\<open>der.rs\<close>). \<open>unreachable!\<close>
  is the outcome \<open>Panic\<close>; a \<open>Time\<close> is the \<open>u64\<close> it wraps.

  The lemmas show that the calendar agrees with counting days from 1970, that a written time
  is read back as that count and that later dates are later times.
\<close>

section \<open>Errors: error.rs\<close>

datatype webpki_error =
    BadDER | BadDERTime | CAUsedAsEndEntity | CertExpired | CertNotValidForName | CertNotValidYet
  | EndEntityUsedAsCA | ExtensionValueInvalid | InvalidCertValidity | InvalidSignatureForPublicKey
  | NameConstraintViolation | PathLenConstraintViolated | SignatureAlgorithmMismatch
  | RequiredEKUNotFound | UnknownIssuer | UnsupportedCertVersion | UnsupportedCriticalExtension
  | UnsupportedSignatureAlgorithmForPublicKey | UnsupportedSignatureAlgorithm

section \<open>The calendar: time.rs, calendar.rs\<close>

type_synonym Time = u64

definition from_seconds_since_unix_epoch :: "u64 \<Rightarrow> Time" where
  "from_seconds_since_unix_epoch secs = secs"

definition DAYS_BEFORE_UNIX_EPOCH_AD :: u64 where "DAYS_BEFORE_UNIX_EPOCH_AD = 719162"

definition days_in_feb :: "u64 \<Rightarrow> u64" where
  "days_in_feb year = (if year mod 4 = 0 \<and> (year mod 100 \<noteq> 0 \<or> year mod 400 = 0) then 29 else 28)"

definition days_in_month :: "u64 \<Rightarrow> u64 \<Rightarrow> (u64, 'e) result" where
  "days_in_month year month =
     (if month \<in> {1, 3, 5, 7, 8, 10, 12} then Ok 31
      else if month \<in> {4, 6, 9, 11} then Ok 30
      else if month = 2 then Ok (days_in_feb year)
      else Panic)"

definition days_before_year_ad :: "u64 \<Rightarrow> u64" where
  "days_before_year_ad year =
     (year - 1) * 365 + (year - 1) div 4 - (year - 1) div 100 + (year - 1) div 400"

definition days_before_year_since_unix_epoch :: "u64 \<Rightarrow> (u64, webpki_error) result" where
  "days_before_year_since_unix_epoch year =
     (if year < 1970 then Err BadDERTime
      else Ok (days_before_year_ad year - DAYS_BEFORE_UNIX_EPOCH_AD))"

definition days_before_month_in_year :: "u64 \<Rightarrow> u64 \<Rightarrow> (u64, 'e) result" where
  "days_before_month_in_year feb month =
     (if month = 1 then Ok 0
      else if month = 2 then Ok 31
      else if month = 3 then Ok (31 + feb)
      else if month = 4 then Ok (31 + feb + 31)
      else if month = 5 then Ok (31 + feb + 31 + 30)
      else if month = 6 then Ok (31 + feb + 31 + 30 + 31)
      else if month = 7 then Ok (31 + feb + 31 + 30 + 31 + 30)
      else if month = 8 then Ok (31 + feb + 31 + 30 + 31 + 30 + 31)
      else if month = 9 then Ok (31 + feb + 31 + 30 + 31 + 30 + 31 + 31)
      else if month = 10 then Ok (31 + feb + 31 + 30 + 31 + 30 + 31 + 31 + 30)
      else if month = 11 then Ok (31 + feb + 31 + 30 + 31 + 30 + 31 + 31 + 30 + 31)
      else if month = 12 then Ok (31 + feb + 31 + 30 + 31 + 30 + 31 + 31 + 30 + 31 + 30)
      else Panic)"

definition time_from_ymdhms_utc :: "u64 \<Rightarrow> u64 \<Rightarrow> u64 \<Rightarrow> u64 \<Rightarrow> u64 \<Rightarrow> u64 \<Rightarrow> (Time, webpki_error) result" where
  "time_from_ymdhms_utc year month day_of_month hours minutes seconds =
     res_bind (days_before_year_since_unix_epoch year) (\<lambda>before_year.
     res_bind (days_before_month_in_year (days_in_feb year) month) (\<lambda>before_month.
       let days_before = before_year + before_month + day_of_month - 1;
           seconds_since_unix_epoch = days_before * 24 * 60 * 60 + hours * 60 * 60 + minutes * 60 + seconds
       in Ok (from_seconds_since_unix_epoch seconds_since_unix_epoch)))"

section \<open>Readers: der.rs\<close>

definition expect_tag_and_get_value :: "Tag \<Rightarrow> (bytes, webpki_error) reader" where
  "expect_tag_and_get_value tag = rd_map_err BadDER (ring_expect_tag_and_get_value tag)"

definition read_tag_and_get_value :: "(u8 \<times> bytes, webpki_error) reader" where
  "read_tag_and_get_value = rd_map_err BadDER ring_read_tag_and_get_value"

text \<open>Unlike \<open>nested\<close>, this replaces the errors of the decoder too.\<close>

definition nested_mut :: "Tag \<Rightarrow> 'e \<Rightarrow> ('a, 'e) reader \<Rightarrow> ('a, 'e) reader" where
  "nested_mut tag e decoder =
     rd_bind (rd_map_err e (expect_tag_and_get_value tag)) (\<lambda>inner.
       rd_lift (res_map_err e (read_all e decoder inner)))"

text \<open>The decoder changes what its closure captured: it maps the old value of that to the new one.\<close>

function nested_loop :: "Tag \<Rightarrow> 'e \<Rightarrow> ('s \<Rightarrow> ('s, 'e) reader) \<Rightarrow> 's \<Rightarrow> ('s, 'e) reader" where
  "nested_loop inner_tag e decoder s outer =
     (case nested_mut inner_tag e (decoder s) outer of
        Ok (s', rest) \<Rightarrow> if rest = [] then Ok (s', rest) else nested_loop inner_tag e decoder s' rest
      | Err x \<Rightarrow> Err x
      | Panic \<Rightarrow> Panic)"
  by pat_completeness auto

lemma nested_mut_Ok [rd_inv]:
  "nested_mut tag e m i = Ok (x, r) \<longleftrightarrow>
     (\<exists>v. length v < 65536 \<and> i = tlv (tag_u8 tag) v @ r \<and> m v = Ok (x, []))"
  by (auto simp: nested_mut_def expect_tag_and_get_value_def rd_inv)

termination nested_loop
  by (relation "measure (\<lambda>(_, _, _, _, outer). length outer)") (auto simp: rd_inv tlv_def)

declare nested_loop.simps [simp del]

definition nested_of_mut :: "Tag \<Rightarrow> Tag \<Rightarrow> 'e \<Rightarrow> ('s \<Rightarrow> ('s, 'e) reader) \<Rightarrow> 's \<Rightarrow> ('s, 'e) reader" where
  "nested_of_mut outer_tag inner_tag e decoder s =
     nested_mut outer_tag e (nested_loop inner_tag e decoder s)"

definition bit_string_with_no_unused_bits :: "(bytes, webpki_error) reader" where
  "bit_string_with_no_unused_bits =
     nested BitString BadDER
       (rd_bind (read_byte BadDER) (\<lambda>unused_bits_at_end.
          if unused_bits_at_end \<noteq> 0 then rd_err BadDER else read_bytes_to_end))"

definition optional_boolean :: "(bool, webpki_error) reader" where
  "optional_boolean =
     rd_bind (peek (tag_u8 Boolean)) (\<lambda>present.
       if \<not> present then rd_ret False
       else
         nested Boolean BadDER
           (rd_bind (read_byte BadDER) (\<lambda>b.
              if b = 0xff then rd_ret True else if b = 0x00 then rd_ret False else rd_err BadDER)))"

definition positive_integer :: "(Positive, webpki_error) reader" where
  "positive_integer = rd_map_err BadDER ring_positive_integer"

definition small_nonnegative_integer :: "(u8, webpki_error) reader" where
  "small_nonnegative_integer = rd_map_err BadDER ring_small_nonnegative_integer"

definition read_digit :: "(u64, webpki_error) reader" where
  "read_digit =
     rd_bind (read_byte BadDERTime) (\<lambda>b.
       if b < 0x30 \<or> b > 0x39 then rd_err BadDERTime else rd_ret (ucast (b - 0x30)))"

definition read_two_digits :: "u64 \<Rightarrow> u64 \<Rightarrow> (u64, webpki_error) reader" where
  "read_two_digits low high =
     rd_bind read_digit (\<lambda>hi.
     rd_bind read_digit (\<lambda>lo.
       let val = hi * 10 + lo in
       if val < low \<or> val > high then rd_err BadDERTime else rd_ret val))"

definition time_choice :: "(Time, webpki_error) reader" where
  "time_choice =
     rd_bind (peek (tag_u8 UTCTime)) (\<lambda>is_utc_time.
       nested (if is_utc_time then UTCTime else GeneralizedTime) BadDER
         (rd_bind
            (if is_utc_time then
               rd_bind (read_two_digits 0 99) (\<lambda>lo. rd_ret (if lo \<ge> 50 then 19 else 20, lo))
             else
               rd_bind (read_two_digits 0 99) (\<lambda>hi.
               rd_bind (read_two_digits 0 99) (\<lambda>lo. rd_ret (hi, lo))))
            (\<lambda>(year_hi, year_lo).
          let year = year_hi * 100 + year_lo in
          rd_bind (read_two_digits 1 12) (\<lambda>month.
          rd_bind (rd_lift (days_in_month year month)) (\<lambda>last_day.
          rd_bind (read_two_digits 1 last_day) (\<lambda>day_of_month.
          rd_bind (read_two_digits 0 23) (\<lambda>hours.
          rd_bind (read_two_digits 0 59) (\<lambda>minutes.
          rd_bind (read_two_digits 0 59) (\<lambda>seconds.
          rd_bind (read_byte BadDERTime) (\<lambda>time_zone.
            if time_zone \<noteq> 0x5A then rd_err BadDERTime
            else rd_lift (time_from_ymdhms_utc year month day_of_month hours minutes seconds))))))))))) "

section \<open>The calendar counts days\<close>

definition leap_year :: "nat \<Rightarrow> bool" where
  "leap_year y \<longleftrightarrow> y mod 4 = 0 \<and> (y mod 100 \<noteq> 0 \<or> y mod 400 = 0)"

definition year_length :: "nat \<Rightarrow> nat" where
  "year_length y = (if leap_year y then 366 else 365)"

definition month_length :: "nat \<Rightarrow> nat \<Rightarrow> nat" where
  "month_length y m = [31, if leap_year y then 29 else 28, 31, 30, 31, 30, 31, 31, 30, 31, 30, 31] ! (m - 1)"

definition days_since_1970 :: "nat \<Rightarrow> nat \<Rightarrow> nat \<Rightarrow> nat" where
  "days_since_1970 y m d = sum_list (map year_length [1970..<y]) + sum_list (map (month_length y) [1..<m]) + (d - 1)"

definition seconds_since_1970 :: "nat \<Rightarrow> nat \<Rightarrow> nat \<Rightarrow> nat \<Rightarrow> nat \<Rightarrow> nat \<Rightarrow> nat" where
  "seconds_since_1970 y m d h mi s = ((days_since_1970 y m d * 24 + h) * 60 + mi) * 60 + s"

definition valid_date :: "nat \<Rightarrow> nat \<Rightarrow> nat \<Rightarrow> nat \<Rightarrow> nat \<Rightarrow> nat \<Rightarrow> bool" where
  "valid_date y m d h mi s \<longleftrightarrow>
     1970 \<le> y \<and> y < 10000 \<and> 1 \<le> m \<and> m \<le> 12 \<and> 1 \<le> d \<and> d \<le> month_length y m \<and> h < 24 \<and> mi < 60 \<and> s < 60"

text \<open>The days before a year, with the years counted from 1: the closed form of the code.\<close>

definition days_before_ad :: "nat \<Rightarrow> nat" where
  "days_before_ad n = n * 365 + n div 4 - n div 100 + n div 400"

lemma days_before_ad_Suc: "days_before_ad (Suc n) = days_before_ad n + year_length (Suc n)"
proof -
  have step: "Suc n div k = n div k + (if Suc n mod k = 0 then 1 else 0)" for k
    by (simp add: div_Suc)
  have "n div 100 \<le> n" "Suc n div 100 \<le> Suc n" by simp_all
  moreover have "Suc n mod 100 = 0 \<Longrightarrow> Suc n mod 4 = 0" "Suc n mod 400 = 0 \<Longrightarrow> Suc n mod 100 = 0"
    using dvd_trans [of 4 100 "Suc n"] dvd_trans [of 100 400 "Suc n"] by (simp_all add: mod_eq_0_iff_dvd)
  ultimately show ?thesis
    unfolding days_before_ad_def year_length_def leap_year_def step [of 4] step [of 100] step [of 400]
    by (auto; simp only: ac_simps)
qed

lemma sum_year_length: "sum_list (map year_length [1970..<1970 + n]) + 719162 = days_before_ad (1969 + n)"
proof (induction n)
  case 0
  show ?case by (simp add: days_before_ad_def)
next
  case (Suc n)
  have "days_before_ad (1969 + Suc n) = days_before_ad (1969 + n) + year_length (1970 + n)"
    using days_before_ad_Suc [of "1969 + n"] by simp
  moreover have "[1970..<1970 + Suc n] = [1970..<1970 + n] @ [1970 + n]"
    by (simp only: add_Suc_right upt_Suc) simp
  ultimately show ?case using Suc by simp
qed

lemma word_div_nat: "a < 2 ^ 64 \<Longrightarrow> b < 2 ^ 64 \<Longrightarrow> (of_nat a :: u64) div of_nat b = of_nat (a div b)"
  by (rule word_unat_eq_iff [THEN iffD2]) (simp add: unat_div unat_of_nat le_less_trans [OF div_le_dividend])

lemma word_mod_nat: "a < 2 ^ 64 \<Longrightarrow> b < 2 ^ 64 \<Longrightarrow> (of_nat a :: u64) mod of_nat b = of_nat (a mod b)"
  by (rule word_unat_eq_iff [THEN iffD2]) (simp add: unat_mod unat_of_nat le_less_trans [OF mod_less_eq_dividend])

lemma u64_eq_nat: "a < 2 ^ 64 \<Longrightarrow> b < 2 ^ 64 \<Longrightarrow> (of_nat a :: u64) = of_nat b \<longleftrightarrow> a = b"
  by (simp add: word_unat_eq_iff unat_of_nat)

lemma days_in_feb_nat: "y < 10000 \<Longrightarrow> days_in_feb (of_nat y) = (if leap_year y then 29 else 28)"
  using word_mod_nat [of y 4] word_mod_nat [of y 100] word_mod_nat [of y 400]
    u64_eq_nat [of "y mod 4" 0] u64_eq_nat [of "y mod 100" 0] u64_eq_nat [of "y mod 400" 0]
  by (simp add: days_in_feb_def leap_year_def del: of_nat_eq_0_iff)

lemma days_before_year_ad_nat:
  assumes "1 \<le> y" "y < 10000"
  shows "days_before_year_ad (of_nat y) = of_nat (days_before_ad (y - 1))"
proof -
  define n where "n = y - 1"
  have y: "of_nat y - 1 = (of_nat n :: u64)" using assms by (simp add: n_def)
  have n: "n < 2 ^ 64" and le: "n div 100 \<le> n * 365 + n div 4" using assms by (simp_all add: n_def)
  have "of_nat n div 4 = (of_nat (n div 4) :: u64)" "of_nat n div 100 = (of_nat (n div 100) :: u64)"
    "of_nat n div 400 = (of_nat (n div 400) :: u64)"
    using word_div_nat [OF n, of 4] word_div_nat [OF n, of 100] word_div_nat [OF n, of 400] by simp_all
  then show ?thesis
    unfolding days_before_year_ad_def y n_def [symmetric] days_before_ad_def using le by (simp add: of_nat_diff)
qed

lemma days_before_year_nat:
  assumes "1970 \<le> y" "y < 10000"
  shows "days_before_year_since_unix_epoch (of_nat y) = Ok (of_nat (sum_list (map year_length [1970..<y])))"
proof -
  have "sum_list (map year_length [1970..<y]) + 719162 = days_before_ad (y - 1)"
    using sum_year_length [of "y - 1970"] assms by simp
  then have "(of_nat (sum_list (map year_length [1970..<y])) :: u64) = of_nat (days_before_ad (y - 1)) - 719162"
    by (metis add_diff_cancel_right' of_nat_add of_nat_numeral)
  moreover have "\<not> (of_nat y :: u64) < 1970"
    using assms by (simp add: word_less_nat_alt unat_of_nat)
  ultimately show ?thesis
    using assms by (simp add: days_before_year_since_unix_epoch_def days_before_year_ad_nat DAYS_BEFORE_UNIX_EPOCH_AD_def)
qed

lemma months_upt: "[1..<13] = [1, 2, 3, 4, 5, 6, 7, 8, 9, 10, 11, 12 :: nat]"
  by (simp add: upt_rec)

lemma months_cases:
  assumes "1 \<le> m" "m \<le> (12 :: nat)"
  obtains "m = 1" | "m = 2" | "m = 3" | "m = 4" | "m = 5" | "m = 6" | "m = 7" | "m = 8" | "m = 9" | "m = 10" | "m = 11" | "m = 12"
proof -
  have "m \<in> set [1..<13]" using assms by simp
  then show thesis unfolding months_upt using that by auto
qed

lemma month_lengths:
  "month_length y 1 = 31" "month_length y (Suc 0) = 31" "month_length y 2 = (if leap_year y then 29 else 28)"
  "month_length y 3 = 31" "month_length y 4 = 30" "month_length y 5 = 31" "month_length y 6 = 30" "month_length y 7 = 31"
  "month_length y 8 = 31" "month_length y 9 = 30" "month_length y 10 = 31" "month_length y 11 = 30" "month_length y 12 = 31"
  by (simp_all add: month_length_def)

lemma days_in_month_nat:
  assumes "y < 10000" "1 \<le> m" "m \<le> 12"
  shows "days_in_month (of_nat y) (of_nat m) = Ok (of_nat (month_length y m))"
  by (cases rule: months_cases [OF assms(2, 3)]) (simp_all add: days_in_month_def month_lengths days_in_feb_nat [OF assms(1)])

lemma days_before_month_nat:
  assumes "y < 10000" "1 \<le> m" "m \<le> 12"
  shows "days_before_month_in_year (days_in_feb (of_nat y)) (of_nat m) = Ok (of_nat (sum_list (map (month_length y) [1..<m])))"
proof -
  have prefix: "[1..<m] = take (m - 1) [1..<13]" using assms by simp
  show ?thesis
    unfolding prefix months_upt days_in_feb_nat [OF assms(1)]
    by (cases rule: months_cases [OF assms(2, 3)]) (simp_all add: days_before_month_in_year_def month_lengths)
qed

lemma time_from_ymdhms_utc_nat:
  assumes "valid_date y m d h mi s"
  shows "time_from_ymdhms_utc (of_nat y) (of_nat m) (of_nat d) (of_nat h) (of_nat mi) (of_nat s) =
     Ok (of_nat (seconds_since_1970 y m d h mi s))"
proof -
  have b: "1970 \<le> y" "y < 10000" "1 \<le> m" "m \<le> 12" "1 \<le> d" using assms by (simp_all add: valid_date_def)
  have "days_since_1970 y m d = sum_list (map year_length [1970..<y]) + sum_list (map (month_length y) [1..<m]) + d - 1"
    using b by (simp add: days_since_1970_def)
  then have days: "(of_nat (days_since_1970 y m d) :: u64) =
      of_nat (sum_list (map year_length [1970..<y])) + of_nat (sum_list (map (month_length y) [1..<m])) + of_nat d - 1"
    using b by (simp add: of_nat_diff)
  show ?thesis
    unfolding time_from_ymdhms_utc_def days_before_year_nat [OF b(1, 2)] days_before_month_nat [OF b(2-4)]
      res_bind_def result.case Let_def days [symmetric]
    by (simp add: from_seconds_since_unix_epoch_def seconds_since_1970_def algebra_simps)
qed

section \<open>Later dates are later times\<close>

lemma month_length_le: "1 \<le> m \<Longrightarrow> m \<le> 12 \<Longrightarrow> month_length y m \<le> 31"
  by (erule (1) months_cases) (simp_all add: month_lengths)

lemma sum_months: "sum_list (map (month_length y) [1..<13]) = year_length y"
  unfolding months_upt by (simp add: month_lengths year_length_def)

lemma day_bound:
  assumes "1 \<le> d" "d \<le> month_length y m" "1 \<le> m" "m \<le> 12"
  shows "sum_list (map (month_length y) [1..<m]) + (d - 1) < sum_list (map (month_length y) [1..<Suc m])"
  using assms by simp

lemma sum_upt_mono: "m \<le> n \<Longrightarrow> sum_list (map f [i..<m]) \<le> sum_list (map (f :: nat \<Rightarrow> nat) [i..<n])"
proof (induction n)
  case (Suc n)
  then show ?case by (cases "m = Suc n") auto
qed simp

lemma year_bound:
  assumes "1 \<le> d" "d \<le> month_length y m" "1 \<le> m" "m \<le> 12"
  shows "sum_list (map (month_length y) [1..<m]) + (d - 1) < year_length y"
  using day_bound [OF assms] sum_upt_mono [of "Suc m" 13 "month_length y" 1] assms(4) unfolding sum_months by linarith

lemma days_less:
  assumes "valid_date y m d h mi s" "valid_date y' m' d' h' mi' s'"
    and "y < y' \<or> y = y' \<and> (m < m' \<or> m = m' \<and> d < d')"
  shows "days_since_1970 y m d < days_since_1970 y' m' d'"
proof -
  have v: "1 \<le> d" "d \<le> month_length y m" "1 \<le> m" "m \<le> 12" "1970 \<le> y" "1 \<le> d'"
    using assms(1, 2) by (simp_all add: valid_date_def)
  consider "y < y'" | "y = y'" "m < m'" | "y = y'" "m = m'" "d < d'" using assms(3) by blast
  then show ?thesis
  proof cases
    case 1
    have "days_since_1970 y m d < sum_list (map year_length [1970..<Suc y])"
      using year_bound [OF v(1-4)] v(5) by (simp add: days_since_1970_def)
    also have "\<dots> \<le> sum_list (map year_length [1970..<y'])" by (rule sum_upt_mono) (use 1 in simp)
    finally show ?thesis by (simp add: days_since_1970_def)
  next
    case 2
    have "sum_list (map (month_length y) [1..<Suc m]) \<le> sum_list (map (month_length y) [1..<m'])"
      by (rule sum_upt_mono) (use 2 in simp)
    with day_bound [OF v(1-4)] 2 show ?thesis by (simp add: days_since_1970_def)
  next
    case 3
    with v show ?thesis by (simp add: days_since_1970_def)
  qed
qed

lemma seconds_less:
  assumes "valid_date y m d h mi s" "valid_date y' m' d' h' mi' s'"
    and "(y, m, d, h, mi, s) < (y', m', d', h', mi', s')"
  shows "seconds_since_1970 y m d h mi s < seconds_since_1970 y' m' d' h' mi' s'"
proof -
  have b: "h < 24" "mi < 60" "s < 60" "h' < 24" "mi' < 60" "s' < 60" using assms(1, 2) by (simp_all add: valid_date_def)
  consider "y < y' \<or> y = y' \<and> (m < m' \<or> m = m' \<and> d < d')"
    | "y = y'" "m = m'" "d = d'" "h < h' \<or> h = h' \<and> (mi < mi' \<or> mi = mi' \<and> s < s')"
    using assms(3) by (auto simp: le_less)
  then show ?thesis
  proof cases
    case 1
    then have "days_since_1970 y m d + 1 \<le> days_since_1970 y' m' d'" using days_less [OF assms(1, 2)] by (simp add: Suc_le_eq)
    with b show ?thesis unfolding seconds_since_1970_def add_mult_distrib mult.assoc by simp
  next
    case 2
    then show ?thesis using b unfolding seconds_since_1970_def by auto
  qed
qed

lemma seconds_less_iff:
  assumes "valid_date y m d h mi s" "valid_date y' m' d' h' mi' s'"
  shows "seconds_since_1970 y m d h mi s < seconds_since_1970 y' m' d' h' mi' s' \<longleftrightarrow>
     (y, m, d, h, mi, s) < (y', m', d', h', mi', s')"
  using seconds_less [OF assms] seconds_less [OF assms(2, 1)]
  by (metis less_asym less_irrefl linorder_less_linear prod.inject)

lemma seconds_bound:
  assumes "valid_date y m d h mi s"
  shows "seconds_since_1970 y m d h mi s < 2 ^ 64"
proof -
  have v: "1 \<le> d" "d \<le> month_length y m" "1 \<le> m" "m \<le> 12" and b: "y < 10000" "h < 24" "mi < 60" "s < 60"
    using assms by (simp_all add: valid_date_def)
  have "sum_list (map year_length [1970..<y]) \<le> sum_list (map (\<lambda>_. 366) [1970..<y])"
    by (rule sum_list_mono) (simp add: year_length_def)
  then have "sum_list (map year_length [1970..<y]) \<le> 366 * 10000" using b(1) by (simp add: sum_list_triv)
  moreover have "year_length y \<le> 366" by (simp add: year_length_def)
  ultimately have "days_since_1970 y m d \<le> 366 * 10001"
    using year_bound [OF v] by (simp add: days_since_1970_def)
  with b show ?thesis unfolding seconds_since_1970_def by simp
qed

section \<open>Times are read as they are written\<close>

definition digits2 :: "nat \<Rightarrow> bytes" where
  "digits2 n = [0x30 + of_nat (n div 10), 0x30 + of_nat (n mod 10)]"

definition date_digits :: "nat \<Rightarrow> nat \<Rightarrow> nat \<Rightarrow> nat \<Rightarrow> nat \<Rightarrow> bytes" where
  "date_digits m d h mi s = digits2 m @ digits2 d @ digits2 h @ digits2 mi @ digits2 s @ [0x5A]"

definition generalized_time :: "nat \<Rightarrow> nat \<Rightarrow> nat \<Rightarrow> nat \<Rightarrow> nat \<Rightarrow> nat \<Rightarrow> bytes" where
  "generalized_time y m d h mi s =
     tlv (tag_u8 GeneralizedTime) (digits2 (y div 100) @ digits2 (y mod 100) @ date_digits m d h mi s)"

definition utc_time :: "nat \<Rightarrow> nat \<Rightarrow> nat \<Rightarrow> nat \<Rightarrow> nat \<Rightarrow> nat \<Rightarrow> bytes" where
  "utc_time y m d h mi s = tlv (tag_u8 UTCTime) (digits2 (y mod 100) @ date_digits m d h mi s)"

lemma read_digit_nat: "n < 10 \<Longrightarrow> read_digit ((0x30 + of_nat n) # r) = Ok (of_nat n, r)"
proof -
  assume n: "n < 10"
  have u: "unat (0x30 + of_nat n :: u8) = 48 + n"
    using n by (subst unat_add_eq) (simp_all add: unat_of_nat)
  have "\<not> (0x30 + of_nat n :: u8) < 0x30" "\<not> 0x39 < (0x30 + of_nat n :: u8)"
    using n by (simp_all add: word_less_nat_alt u)
  moreover have "ucast (of_nat n :: u8) = (of_nat n :: u64)"
    using n by (simp add: unsigned_of_nat take_bit_nat_eq_self)
  ultimately show ?thesis by (simp add: read_digit_def rd_defs)
qed

lemma read_two_digits_nat:
  assumes "n < 100" "unat low \<le> n" "n \<le> unat high"
  shows "read_two_digits low high (digits2 n @ r) = Ok (of_nat n, r)"
proof -
  have "of_nat (n div 10) * 10 + of_nat (n mod 10) = (of_nat (n div 10 * 10 + n mod 10) :: u64)"
    unfolding of_nat_add of_nat_mult by simp
  then have v: "of_nat (n div 10) * 10 + of_nat (n mod 10) = (of_nat n :: u64)" unfolding div_mult_mod_eq .
  have "\<not> (of_nat n :: u64) < low" "\<not> high < (of_nat n :: u64)"
    using assms by (simp_all add: word_less_nat_alt unat_of_nat)
  with v show ?thesis
    using assms(1) by (simp add: read_two_digits_def digits2_def rd_bind_def res_bind_def read_digit_nat Let_def rd_ret_def)
qed

lemmas run_bind = rd_bind_def res_bind_def result.case prod.case

lemma date_digits_read:
  assumes v: "valid_date y m d h mi s"
  shows "rd_bind (read_two_digits 1 12) (\<lambda>month.
     rd_bind (rd_lift (days_in_month (of_nat y) month)) (\<lambda>last_day.
     rd_bind (read_two_digits 1 last_day) (\<lambda>day_of_month.
     rd_bind (read_two_digits 0 23) (\<lambda>hours.
     rd_bind (read_two_digits 0 59) (\<lambda>minutes.
     rd_bind (read_two_digits 0 59) (\<lambda>seconds.
     rd_bind (read_byte BadDERTime) (\<lambda>time_zone.
       if time_zone \<noteq> 0x5A then rd_err BadDERTime
       else rd_lift (time_from_ymdhms_utc (of_nat y) month day_of_month hours minutes seconds)))))))) (date_digits m d h mi s) =
     Ok (of_nat (seconds_since_1970 y m d h mi s), [])"
proof -
  have b: "y < 10000" "1 \<le> m" "m \<le> 12" "1 \<le> d" "d \<le> month_length y m" "h < 24" "mi < 60" "s < 60"
    using v by (simp_all add: valid_date_def)
  have lt: "m < 100" "h < 100" "mi < 100" "s < 100" "h \<le> 23" "mi \<le> 59" "s \<le> 59" using b by simp_all
  have ml: "month_length y m < 2 ^ 64" "d < 100" using month_length_le [OF b(2, 3), of y] b(5) by simp_all
  note read = read_two_digits_nat
  have reads: "read_two_digits 1 12 (digits2 m @ r) = Ok (of_nat m, r)"
    "read_two_digits 1 (of_nat (month_length y m)) (digits2 d @ r) = Ok (of_nat d, r)"
    "read_two_digits 0 23 (digits2 h @ r) = Ok (of_nat h, r)"
    "read_two_digits 0 59 (digits2 mi @ r) = Ok (of_nat mi, r)"
    "read_two_digits 0 59 (digits2 s @ r) = Ok (of_nat s, r)" for r
    by (rule read; use b lt ml in \<open>simp add: unat_of_nat\<close>)+
  have lift: "rd_lift (Ok x) i = Ok (x, i)" for x :: 'x and i by (simp add: rd_lift_def res_bind_def)
  have zone: "read_byte BadDERTime [0x5A] = Ok (0x5A, [])" by (simp add: read_byte_def)
  show ?thesis
    unfolding date_digits_def
    by (simp only: run_bind reads zone lift days_in_month_nat [OF b(1-3)] time_from_ymdhms_utc_nat [OF v] simp_thms if_False)
qed

lemma century_digits: "of_nat (y div 100) * 100 + of_nat (y mod 100) = (of_nat y :: u64)"
proof -
  have "of_nat (y div 100 * 100 + y mod 100) = (of_nat (y div 100) * 100 + of_nat (y mod 100) :: u64)"
    unfolding of_nat_add of_nat_mult of_nat_numeral ..
  then show ?thesis unfolding div_mult_mod_eq by simp
qed

lemma date_digits_short: "length (digits2 a @ digits2 b @ date_digits m d h mi s) < 65536"
  by (simp add: digits2_def date_digits_def)

lemma time_choice_generalized:
  assumes v: "valid_date y m d h mi s"
  shows "time_choice (generalized_time y m d h mi s @ r) = Ok (of_nat (seconds_since_1970 y m d h mi s), r)"
proof -
  have b: "y div 100 < 100" "y div 100 \<le> 99" "y mod 100 < 100" "y mod 100 \<le> 99" using v less_mult_imp_div_less [of y 100 100] mod_less_divisor [of 100 y] by (simp_all add: valid_date_def)
  have peek: "peek (tag_u8 UTCTime) (generalized_time y m d h mi s @ r) = Ok (False, generalized_time y m d h mi s @ r)"
    by (simp add: peek_def generalized_time_def tlv_def)
  have year: "rd_bind (read_two_digits 0 99) (\<lambda>hi. rd_bind (read_two_digits 0 99) (\<lambda>lo. rd_ret (hi, lo)))
      (digits2 (y div 100) @ digits2 (y mod 100) @ date_digits m d h mi s)
      = Ok ((of_nat (y div 100), of_nat (y mod 100)), date_digits m d h mi s)"
    using b by (simp add: rd_bind_def res_bind_def rd_ret_def read_two_digits_nat)
  show ?thesis
    unfolding time_choice_def rd_bind_def [of "peek _"] res_bind_def peek result.case prod.case if_False nested_Ok
    by (rule exI [of _ "digits2 (y div 100) @ digits2 (y mod 100) @ date_digits m d h mi s"])
      (simp only: date_digits_short generalized_time_def rd_bind_def [of "rd_bind _ _"] res_bind_def year result.case prod.case Let_def century_digits
        date_digits_read [OF v] simp_thms)
qed

lemma time_choice_utc:
  assumes v: "valid_date y m d h mi s" and y: "y < 2050"
  shows "time_choice (utc_time y m d h mi s @ r) = Ok (of_nat (seconds_since_1970 y m d h mi s), r)"
proof -
  have lo: "1970 \<le> y" using v by (simp add: valid_date_def)
  have peek: "peek (tag_u8 UTCTime) (utc_time y m d h mi s @ r) = Ok (True, utc_time y m d h mi s @ r)"
    by (simp add: peek_def utc_time_def tlv_def)
  have "q = 19 \<and> 50 \<le> l \<or> q = 20 \<and> l < 50" if "q * 100 + l = y" "l < 100" for q l
  proof -
    consider "q \<le> 18" | "q = 19" | "q = 20" | "21 \<le> q" by linarith
    then show ?thesis using that lo y by cases simp_all
  qed
  from this [OF div_mult_mod_eq] have "y div 100 = 19 \<and> 50 \<le> y mod 100 \<or> y div 100 = 20 \<and> y mod 100 < 50" by simp
  then have hi: "(if (50 :: u64) \<le> of_nat (y mod 100) then 19 else 20) = (of_nat (y div 100) :: u64)"
    by (auto simp: word_le_nat_alt unat_of_nat)
  have year: "rd_bind (read_two_digits 0 99) (\<lambda>lo. rd_ret (if lo \<ge> 50 then 19 else 20 :: u64, lo))
      (digits2 (y mod 100) @ date_digits m d h mi s)
      = Ok ((of_nat (y div 100), of_nat (y mod 100)), date_digits m d h mi s)"
    using mod_less_divisor [of 100 y] by (simp add: rd_bind_def res_bind_def rd_ret_def read_two_digits_nat hi)
  have short: "length (digits2 (y mod 100) @ date_digits m d h mi s) < 65536"
    by (simp add: digits2_def date_digits_def)
  show ?thesis
    unfolding time_choice_def rd_bind_def [of "peek _"] res_bind_def peek result.case prod.case if_True nested_Ok
    by (rule exI [of _ "digits2 (y mod 100) @ date_digits m d h mi s"])
      (simp only: short utc_time_def rd_bind_def [of "rd_bind _ _"] res_bind_def year result.case prod.case Let_def century_digits
        date_digits_read [OF v] simp_thms)
qed

text \<open>
  C16: the validity times of certificates are read correctly. A date from 1970 to 9999, written
  with its century, is read as the number of seconds that counting days from the first of
  January 1970 gives, without overflow; a date before 2050 written with two digits for its
  year is read as the same number. Of two dates, the earlier is the smaller number.
\<close>
theorem time_choice_correct:
  assumes "valid_date y m d h mi s" and "valid_date y' m' d' h' mi' s'"
  shows "\<exists>t t'.
     time_choice (generalized_time y m d h mi s @ rest) = Ok (t, rest) \<and>
     time_choice (generalized_time y' m' d' h' mi' s' @ rest) = Ok (t', rest) \<and>
     (y < 2050 \<longrightarrow> time_choice (utc_time y m d h mi s @ rest) = Ok (t, rest)) \<and>
     unat t = seconds_since_1970 y m d h mi s \<and>
     (t < t' \<longleftrightarrow> (y, m, d, h, mi, s) < (y', m', d', h', mi', s'))"
proof -
  have u: "unat (of_nat (seconds_since_1970 y m d h mi s) :: u64) = seconds_since_1970 y m d h mi s"
    "unat (of_nat (seconds_since_1970 y' m' d' h' mi' s') :: u64) = seconds_since_1970 y' m' d' h' mi' s'"
    using seconds_bound [OF assms(1)] seconds_bound [OF assms(2)] by (simp_all add: unat_of_nat)
  show ?thesis
    using time_choice_generalized [OF assms(1)] time_choice_generalized [OF assms(2)] time_choice_utc [OF assms(1)]
    by (intro exI conjI impI) (auto simp: u word_less_nat_alt seconds_less_iff [OF assms])
qed

theorem time_choice_correct_witness:
  "(\<exists>t t'.
     time_choice (generalized_time 2022 12 8 16 0 0 @ [7]) = Ok (t, [7]) \<and>
     time_choice (generalized_time 2024 2 29 23 59 59 @ [7]) = Ok (t', [7]) \<and>
     unat t = seconds_since_1970 2022 12 8 16 0 0 \<and> t < t') \<and>
   utc_time 2022 12 8 16 0 0 = [0x17, 13, 0x32, 0x32, 0x31, 0x32, 0x30, 0x38, 0x31, 0x36, 0x30, 0x30, 0x30, 0x30, 0x5A]"
proof -
  have "valid_date 2022 12 8 16 0 0" "valid_date 2024 2 29 23 59 59"
    by (simp_all add: valid_date_def month_lengths leap_year_def)
  then show ?thesis
    using time_choice_correct [of 2022 12 8 16 0 0 2024 2 29 23 59 59 "[7]"]
    by (auto simp: utc_time_def tlv_def len_octets_def digits2_def date_digits_def)
qed

section \<open>Webpki's readers\<close>

lemma webpki_readers_Ok [rd_inv]:
  "expect_tag_and_get_value tag i = Ok (v, r) \<longleftrightarrow> length v < 65536 \<and> i = tlv (tag_u8 tag) v @ r"
  "read_tag_and_get_value i = Ok ((t, v), r) \<longleftrightarrow> t AND 0x1F \<noteq> 0x1F \<and> length v < 65536 \<and> i = tlv t v @ r"
  "positive_integer i = Ok (v, r) \<longleftrightarrow> ring_positive_integer i = Ok (v, r)"
  by (simp_all add: expect_tag_and_get_value_def read_tag_and_get_value_def positive_integer_def rd_inv)

lemma consumes_webpki [consumes_intros]:
  "consumes (expect_tag_and_get_value tag)" "consumes read_tag_and_get_value" "consumes (nested_mut tag e m)"
  "consumes bit_string_with_no_unused_bits"
  unfolding expect_tag_and_get_value_def read_tag_and_get_value_def nested_mut_def bit_string_with_no_unused_bits_def
  by (intro consumes_intros)+

lemma res_map_err_Panic: "res_map_err e r = Panic \<longleftrightarrow> r = Panic"
  by (cases r) (simp_all add: res_map_err_def)

lemma no_panic_webpki [no_panic_intros]:
  "no_panic (expect_tag_and_get_value tag)" "no_panic read_tag_and_get_value" "no_panic positive_integer"
  "no_panic small_nonnegative_integer" "no_panic bit_string_with_no_unused_bits" "no_panic optional_boolean"
  "no_panic read_digit" "no_panic (read_two_digits a b)"
  unfolding expect_tag_and_get_value_def read_tag_and_get_value_def positive_integer_def small_nonnegative_integer_def
    bit_string_with_no_unused_bits_def optional_boolean_def read_digit_def read_two_digits_def Let_def
  by (intro no_panic_intros)+

lemma no_panic_nested_mut [no_panic_intros]: "no_panic m \<Longrightarrow> no_panic (nested_mut tag e m)"
  unfolding nested_mut_def by (intro no_panic_intros) (simp add: res_map_err_Panic read_all_no_panic)

lemma nested_loop_no_panic:
  "(\<And>s. no_panic (decoder s)) \<Longrightarrow> nested_loop tag e decoder s i \<noteq> Panic"
proof (induction tag e decoder s i rule: nested_loop.induct)
  case (1 inner_tag e decoder s outer)
  have "nested_mut inner_tag e (decoder s) outer \<noteq> Panic"
    by (rule no_panicD) (intro no_panic_nested_mut 1)
  with 1 show ?case by (subst nested_loop.simps) (auto split: result.splits)
qed

lemma no_panic_nested_of_mut [no_panic_intros]:
  "(\<And>s. no_panic (decoder s)) \<Longrightarrow> no_panic (nested_of_mut tag tag' e decoder s)"
  unfolding nested_of_mut_def
  by (intro no_panic_intros) (simp add: no_panic_def nested_loop_no_panic)

lemma read_two_digits_range: "read_two_digits a b i = Ok (v, r) \<Longrightarrow> a \<le> v \<and> v \<le> b"
  by (auto simp: read_two_digits_def rd_inv Let_def not_less split: if_splits)

lemma month_no_panic:
  assumes "1 \<le> month" "month \<le> (12 :: u64)"
  shows "days_in_month year month \<noteq> (Panic :: (u64, 'e) result)"
    and "days_before_month_in_year feb month \<noteq> (Panic :: (u64, 'e) result)"
proof -
  have "1 \<le> unat month" "unat month \<le> 12" using assms by (simp_all add: word_le_nat_alt)
  then have "days_in_month year (of_nat (unat month)) \<noteq> (Panic :: (u64, 'e) result) \<and>
      days_before_month_in_year feb (of_nat (unat month)) \<noteq> (Panic :: (u64, 'e) result)"
    by (rule months_cases) (simp_all add: days_in_month_def days_before_month_in_year_def)
  then show "days_in_month year month \<noteq> (Panic :: (u64, 'e) result)"
    "days_before_month_in_year feb month \<noteq> (Panic :: (u64, 'e) result)" by simp_all
qed

lemma time_from_ymdhms_utc_no_panic:
  "1 \<le> month \<Longrightarrow> month \<le> 12 \<Longrightarrow> time_from_ymdhms_utc year month day hours minutes seconds \<noteq> Panic"
  by (auto simp: time_from_ymdhms_utc_def days_before_year_since_unix_epoch_def res_bind_Panic month_no_panic Let_def)

lemma no_panic_time_choice [no_panic_intros]: "no_panic time_choice"
proof -
  have month: "no_panic (rd_bind (read_two_digits 1 12) f)" if "\<And>v. 1 \<le> v \<Longrightarrow> v \<le> 12 \<Longrightarrow> no_panic (f v)" for f :: "u64 \<Rightarrow> (Time, webpki_error) reader"
    using that by (intro no_panic_bind_Ok no_panic_webpki) (auto dest: read_two_digits_range)
  show ?thesis
    unfolding time_choice_def case_prod_beta Let_def
    by (intro no_panic_bind [of "peek _"] no_panic_nested no_panic_basic no_panic_bind [of "if _ then _ else _"] month)
      (intro no_panic_intros month_no_panic time_from_ymdhms_utc_no_panic; assumption)+
qed

end
