(* ===== verification/Webpki_Cert.thy ===== *)
theory Webpki_Cert
  imports Webpki_Der
begin

text \<open>
  \<open>utils/webpki\<close>: signed data and signature algorithms (\<open>signed_data.rs\<close>) and the parser of
  certificates (\<open>cert.rs\<close>). What the algorithms of ring compute, the check of a signature
  under a key, is the parameter \<open>verify\<close>; the algorithms are named by the datatype
  \<open>VerificationAlgorithm\<close>. The algorithm identifiers are the files of \<open>src/data\<close>, which
  the code includes at compile time.

  The lemmas show that the fields of a parsed certificate are read from the very bytes its
  signature covers, which errors the parser can give, and that it never panics.
\<close>

section \<open>Signed data: signed_data.rs\<close>

record SignedData =
  sd_data :: bytes
  sd_algorithm :: bytes
  sd_signature :: bytes

definition parse_signed_data :: "(bytes \<times> SignedData, webpki_error) reader" where
  "parse_signed_data =
     rd_bind (read_partial (expect_tag_and_get_value Sequence)) (\<lambda>(data, tbs).
     rd_bind (expect_tag_and_get_value Sequence) (\<lambda>algorithm.
     rd_bind bit_string_with_no_unused_bits (\<lambda>signature.
     rd_ret (tbs, \<lparr>sd_data = data, sd_algorithm = algorithm, sd_signature = signature\<rparr>))))"

datatype VerificationAlgorithm =
    ECDSA_P256_SHA256_ASN1 | ECDSA_P256_SHA384_ASN1 | ECDSA_P384_SHA256_ASN1 | ECDSA_P384_SHA384_ASN1
  | Ring_RSA_PKCS1_2048_8192_SHA256 | Ring_RSA_PKCS1_2048_8192_SHA384 | Ring_RSA_PKCS1_2048_8192_SHA512
  | Ring_RSA_PKCS1_3072_8192_SHA384 | RSA_PSS_2048_8192_SHA256 | RSA_PSS_2048_8192_SHA384
  | RSA_PSS_2048_8192_SHA512 | Ring_ED25519

type_synonym AlgorithmIdentifier = bytes

record SignatureAlgorithm =
  public_key_alg_id :: AlgorithmIdentifier
  signature_alg_id :: AlgorithmIdentifier
  verification_alg :: VerificationAlgorithm

definition matches_algorithm_id_value :: "AlgorithmIdentifier \<Rightarrow> bytes \<Rightarrow> bool" where
  "matches_algorithm_id_value alg_id encoded \<longleftrightarrow> encoded = alg_id"

text \<open>\<open>verify alg key msg signature\<close> says whether ring accepts the signature.\<close>

type_synonym ring_verify = "VerificationAlgorithm \<Rightarrow> bytes \<Rightarrow> bytes \<Rightarrow> bytes \<Rightarrow> bool"

record SubjectPublicKeyInfo =
  algorithm_id_value :: bytes
  key_value :: bytes

definition parse_spki_value :: "bytes \<Rightarrow> (SubjectPublicKeyInfo, webpki_error) result" where
  "parse_spki_value =
     read_all BadDER
       (rd_bind (expect_tag_and_get_value Sequence) (\<lambda>alg.
        rd_bind bit_string_with_no_unused_bits (\<lambda>key.
        rd_ret \<lparr>algorithm_id_value = alg, key_value = key\<rparr>)))"

definition sd_verify_signature ::
  "ring_verify \<Rightarrow> SignatureAlgorithm \<Rightarrow> bytes \<Rightarrow> bytes \<Rightarrow> bytes \<Rightarrow> (unit, webpki_error) result" where
  "sd_verify_signature verify signature_alg spki_value msg signature =
     res_bind (parse_spki_value spki_value) (\<lambda>spki.
       if \<not> matches_algorithm_id_value (public_key_alg_id signature_alg) (algorithm_id_value spki)
       then Err UnsupportedSignatureAlgorithmForPublicKey
       else if verify (verification_alg signature_alg) (key_value spki) msg signature then Ok ()
       else Err InvalidSignatureForPublicKey)"

fun verify_signed_loop ::
  "ring_verify \<Rightarrow> SignatureAlgorithm list \<Rightarrow> bytes \<Rightarrow> SignedData \<Rightarrow> bool \<Rightarrow> (unit, webpki_error) result" where
  "verify_signed_loop verify [] spki_value signed_data found_signature_alg_match =
     (if found_signature_alg_match then Err UnsupportedSignatureAlgorithmForPublicKey
      else Err UnsupportedSignatureAlgorithm)"
| "verify_signed_loop verify (supported_alg # algs) spki_value signed_data found_signature_alg_match =
     (case sd_verify_signature verify supported_alg spki_value (sd_data signed_data) (sd_signature signed_data) of
        Err UnsupportedSignatureAlgorithmForPublicKey \<Rightarrow> verify_signed_loop verify algs spki_value signed_data True
      | res \<Rightarrow> res)"

definition verify_signed_data ::
  "ring_verify \<Rightarrow> SignatureAlgorithm list \<Rightarrow> bytes \<Rightarrow> SignedData \<Rightarrow> (unit, webpki_error) result" where
  "verify_signed_data verify supported_algorithms spki_value signed_data =
     verify_signed_loop verify
       (filter (\<lambda>alg. matches_algorithm_id_value (signature_alg_id alg) (sd_algorithm signed_data)) supported_algorithms)
       spki_value signed_data False"

section \<open>The algorithms\<close>

definition ECDSA_P256 :: AlgorithmIdentifier where
  "ECDSA_P256 = [6, 7, 42, 134, 72, 206, 61, 2, 1, 6, 8, 42, 134, 72, 206, 61, 3, 1, 7]"
definition ECDSA_P384 :: AlgorithmIdentifier where
  "ECDSA_P384 = [6, 7, 42, 134, 72, 206, 61, 2, 1, 6, 5, 43, 129, 4, 0, 34]"
definition ECDSA_SHA256 :: AlgorithmIdentifier where
  "ECDSA_SHA256 = [6, 8, 42, 134, 72, 206, 61, 4, 3, 2]"
definition ECDSA_SHA384 :: AlgorithmIdentifier where
  "ECDSA_SHA384 = [6, 8, 42, 134, 72, 206, 61, 4, 3, 3]"
definition RSA_ENCRYPTION :: AlgorithmIdentifier where
  "RSA_ENCRYPTION = [6, 9, 42, 134, 72, 134, 247, 13, 1, 1, 1, 5, 0]"
definition RSA_PKCS1_SHA256 :: AlgorithmIdentifier where
  "RSA_PKCS1_SHA256 = [6, 9, 42, 134, 72, 134, 247, 13, 1, 1, 11, 5, 0]"
definition RSA_PKCS1_SHA384 :: AlgorithmIdentifier where
  "RSA_PKCS1_SHA384 = [6, 9, 42, 134, 72, 134, 247, 13, 1, 1, 12, 5, 0]"
definition RSA_PKCS1_SHA512 :: AlgorithmIdentifier where
  "RSA_PKCS1_SHA512 = [6, 9, 42, 134, 72, 134, 247, 13, 1, 1, 13, 5, 0]"
definition ED_25519 :: AlgorithmIdentifier where
  "ED_25519 = [6, 3, 43, 101, 112]"

text \<open>The three PSS identifiers differ in the hash (its last byte) and in the length of the salt.\<close>

definition rsa_pss_id :: "u8 \<Rightarrow> u8 \<Rightarrow> AlgorithmIdentifier" where
  "rsa_pss_id hash salt =
     [6, 9, 42, 134, 72, 134, 247, 13, 1, 1, 10, 48, 52,
      160, 15, 48, 13, 6, 9, 96, 134, 72, 1, 101, 3, 4, 2, hash, 5, 0,
      161, 28, 48, 26, 6, 9, 42, 134, 72, 134, 247, 13, 1, 1, 8, 48, 13, 6, 9, 96, 134, 72, 1, 101, 3, 4, 2, hash, 5, 0,
      162, 3, 2, 1, salt]"

definition RSA_PSS_SHA256 :: AlgorithmIdentifier where "RSA_PSS_SHA256 = rsa_pss_id 1 32"
definition RSA_PSS_SHA384 :: AlgorithmIdentifier where "RSA_PSS_SHA384 = rsa_pss_id 2 48"
definition RSA_PSS_SHA512 :: AlgorithmIdentifier where "RSA_PSS_SHA512 = rsa_pss_id 3 64"

definition sig_alg :: "AlgorithmIdentifier \<Rightarrow> AlgorithmIdentifier \<Rightarrow> VerificationAlgorithm \<Rightarrow> SignatureAlgorithm" where
  "sig_alg public_key signature verification =
     \<lparr>public_key_alg_id = public_key, signature_alg_id = signature, verification_alg = verification\<rparr>"

definition ECDSA_P256_SHA256 :: SignatureAlgorithm where
  "ECDSA_P256_SHA256 = sig_alg ECDSA_P256 ECDSA_SHA256 ECDSA_P256_SHA256_ASN1"
definition ECDSA_P256_SHA384 :: SignatureAlgorithm where
  "ECDSA_P256_SHA384 = sig_alg ECDSA_P256 ECDSA_SHA384 ECDSA_P256_SHA384_ASN1"
definition ECDSA_P384_SHA256 :: SignatureAlgorithm where
  "ECDSA_P384_SHA256 = sig_alg ECDSA_P384 ECDSA_SHA256 ECDSA_P384_SHA256_ASN1"
definition ECDSA_P384_SHA384 :: SignatureAlgorithm where
  "ECDSA_P384_SHA384 = sig_alg ECDSA_P384 ECDSA_SHA384 ECDSA_P384_SHA384_ASN1"
definition RSA_PKCS1_2048_8192_SHA256 :: SignatureAlgorithm where
  "RSA_PKCS1_2048_8192_SHA256 = sig_alg RSA_ENCRYPTION RSA_PKCS1_SHA256 Ring_RSA_PKCS1_2048_8192_SHA256"
definition RSA_PKCS1_2048_8192_SHA384 :: SignatureAlgorithm where
  "RSA_PKCS1_2048_8192_SHA384 = sig_alg RSA_ENCRYPTION RSA_PKCS1_SHA384 Ring_RSA_PKCS1_2048_8192_SHA384"
definition RSA_PKCS1_2048_8192_SHA512 :: SignatureAlgorithm where
  "RSA_PKCS1_2048_8192_SHA512 = sig_alg RSA_ENCRYPTION RSA_PKCS1_SHA512 Ring_RSA_PKCS1_2048_8192_SHA512"
definition RSA_PKCS1_3072_8192_SHA384 :: SignatureAlgorithm where
  "RSA_PKCS1_3072_8192_SHA384 = sig_alg RSA_ENCRYPTION RSA_PKCS1_SHA384 Ring_RSA_PKCS1_3072_8192_SHA384"
definition RSA_PSS_2048_8192_SHA256_LEGACY_KEY :: SignatureAlgorithm where
  "RSA_PSS_2048_8192_SHA256_LEGACY_KEY = sig_alg RSA_ENCRYPTION RSA_PSS_SHA256 RSA_PSS_2048_8192_SHA256"
definition RSA_PSS_2048_8192_SHA384_LEGACY_KEY :: SignatureAlgorithm where
  "RSA_PSS_2048_8192_SHA384_LEGACY_KEY = sig_alg RSA_ENCRYPTION RSA_PSS_SHA384 RSA_PSS_2048_8192_SHA384"
definition RSA_PSS_2048_8192_SHA512_LEGACY_KEY :: SignatureAlgorithm where
  "RSA_PSS_2048_8192_SHA512_LEGACY_KEY = sig_alg RSA_ENCRYPTION RSA_PSS_SHA512 RSA_PSS_2048_8192_SHA512"
definition ED25519 :: SignatureAlgorithm where
  "ED25519 = sig_alg ED_25519 ED_25519 Ring_ED25519"

section \<open>Certificates: cert.rs\<close>

datatype EndEntityOrCA = EndEntity | CA Cert
and Cert = Cert
  (cert_ee_or_ca: EndEntityOrCA)
  (cert_signed_data: SignedData)
  (cert_issuer: bytes)
  (cert_validity: bytes)
  (cert_subject: bytes)
  (cert_spki: bytes)
  (cert_basic_constraints: "bytes option")
  (cert_eku: "bytes option")
  (cert_name_constraints: "bytes option")
  (cert_subject_alt_name: "bytes option")

datatype Understood = Understood_Yes | Understood_No

definition ID_CE :: bytes where "ID_CE = [40 * 2 + 5, 29]"

text \<open>Stores the content of an extension in its field, \<open>out\<close>, unless that is taken.\<close>

definition remember_value ::
  "bytes option \<Rightarrow> (bytes option \<Rightarrow> Cert) \<Rightarrow> bytes \<Rightarrow> (Understood \<times> Cert, webpki_error) result" where
  "remember_value out store val =
     (case out of
        Some _ \<Rightarrow> Err ExtensionValueInvalid
      | None \<Rightarrow>
          res_bind (read_all BadDER (expect_tag_and_get_value Sequence) val) (\<lambda>sequence_value.
            Ok (Understood_Yes, store (Some sequence_value))))"

fun remember_extension :: "Cert \<Rightarrow> bytes \<Rightarrow> bytes \<Rightarrow> (Understood \<times> Cert, webpki_error) result" where
  "remember_extension (Cert ee_or_ca signed_data issuer validity subject spki basic_constraints eku name_constraints subject_alt_name)
      extn_id val =
     (let cert = Cert ee_or_ca signed_data issuer validity subject spki in
      let unchanged = cert basic_constraints eku name_constraints subject_alt_name in
      if length extn_id \<noteq> length ID_CE + 1 \<or> take (length ID_CE) extn_id \<noteq> ID_CE then Ok (Understood_No, unchanged)
      else if last extn_id = 15 then Ok (Understood_Yes, unchanged)
      else if last extn_id = 17 then remember_value subject_alt_name (\<lambda>v. cert basic_constraints eku name_constraints v) val
      else if last extn_id = 19 then remember_value basic_constraints (\<lambda>v. cert v eku name_constraints subject_alt_name) val
      else if last extn_id = 30 then remember_value name_constraints (\<lambda>v. cert basic_constraints eku v subject_alt_name) val
      else if last extn_id = 37 then remember_value eku (\<lambda>v. cert basic_constraints v name_constraints subject_alt_name) val
      else Ok (Understood_No, unchanged))"

definition version3 :: "(unit, webpki_error) reader" where
  "version3 =
     nested ContextSpecificConstructed0 BadDER
       (rd_bind small_nonnegative_integer (\<lambda>version.
          if version \<noteq> 2 then rd_err UnsupportedCertVersion else rd_ret ()))"

definition certificate_serial_number :: "(unit, webpki_error) reader" where
  "certificate_serial_number =
     rd_bind positive_integer (\<lambda>val. if length val > 20 then rd_err BadDER else rd_ret ())"

text \<open>The closure over an extension: it updates the certificate.\<close>

definition parse_extension :: "Cert \<Rightarrow> (Cert, webpki_error) reader" where
  "parse_extension cert =
     rd_bind (expect_tag_and_get_value OID) (\<lambda>extn_id.
     rd_bind optional_boolean (\<lambda>critical.
     rd_bind (expect_tag_and_get_value OctetString) (\<lambda>extn_value.
     rd_bind (rd_lift (remember_extension cert extn_id extn_value)) (\<lambda>(understood, cert).
       if understood = Understood_No \<and> critical then rd_err UnsupportedCriticalExtension else rd_ret cert))))"

definition parse_tbs ::
  "EndEntityOrCA \<Rightarrow> (unit, webpki_error) reader \<Rightarrow> SignedData \<Rightarrow> (Cert, webpki_error) reader" where
  "parse_tbs ee_or_ca serial_number signed_data =
     rd_then version3
     (rd_then serial_number
     (rd_bind (expect_tag_and_get_value Sequence) (\<lambda>signature.
       if signature \<noteq> sd_algorithm signed_data then rd_err SignatureAlgorithmMismatch
       else
         rd_bind (expect_tag_and_get_value Sequence) (\<lambda>issuer.
         rd_bind (expect_tag_and_get_value Sequence) (\<lambda>validity.
         rd_bind (expect_tag_and_get_value Sequence) (\<lambda>subject.
         rd_bind (expect_tag_and_get_value Sequence) (\<lambda>spki.
           let cert = Cert ee_or_ca signed_data issuer validity subject spki None None None None in
           nested_mut ContextSpecificConstructed3 BadDER
             (nested_of_mut Sequence Sequence BadDER parse_extension cert))))))))"

definition parse_cert_internal ::
  "bytes \<Rightarrow> EndEntityOrCA \<Rightarrow> (unit, webpki_error) reader \<Rightarrow> (Cert, webpki_error) result" where
  "parse_cert_internal cert_der ee_or_ca serial_number =
     res_bind (read_all BadDER (nested Sequence BadDER parse_signed_data) cert_der) (\<lambda>(tbs, signed_data).
       read_all BadDER (parse_tbs ee_or_ca serial_number signed_data) tbs)"

definition parse_cert :: "bytes \<Rightarrow> EndEntityOrCA \<Rightarrow> (Cert, webpki_error) result" where
  "parse_cert cert_der ee_or_ca = parse_cert_internal cert_der ee_or_ca certificate_serial_number"

section \<open>The signature covers the fields\<close>

declare tag_u8.simps [simp del]

lemma nested_loop_invariant:
  assumes "nested_loop tag e decoder s i = Ok (s', r)"
    and "\<And>s i s' r. decoder s i = Ok (s', r) \<Longrightarrow> P s \<Longrightarrow> P s'" and "P s"
  shows "P s'"
  using assms
proof (induction tag e decoder s i rule: nested_loop.induct)
  case (1 inner_tag e decoder s outer)
  obtain s1 rest where run: "nested_mut inner_tag e (decoder s) outer = Ok (s1, rest)"
    using 1(2) by (subst (asm) nested_loop.simps) (auto split: result.splits)
  then have "P s1" using 1(3) [of s] 1(4) by (auto simp: nested_mut_Ok)
  show ?case
  proof (cases "rest = []")
    case True
    with 1(2) run \<open>P s1\<close> show ?thesis by (subst (asm) nested_loop.simps) simp
  next
    case False
    with 1(2) run have "nested_loop inner_tag e decoder s1 rest = Ok (s', r)" by (subst (asm) nested_loop.simps) simp
    from 1(1) [OF run refl False this 1(3) \<open>P s1\<close>] show ?thesis .
  qed
qed

text \<open>The fields that do not come from extensions.\<close>

fun cert_core :: "Cert \<Rightarrow> EndEntityOrCA \<times> SignedData \<times> bytes \<times> bytes \<times> bytes \<times> bytes" where
  "cert_core (Cert ee_or_ca signed_data issuer validity subject spki _ _ _ _) =
     (ee_or_ca, signed_data, issuer, validity, subject, spki)"

lemma remember_extension_core: "remember_extension cert extn_id val = Ok (u, cert') \<Longrightarrow> cert_core cert' = cert_core cert"
  by (cases cert) (auto simp: remember_value_def Let_def res_bind_Ok split: if_splits option.splits)

lemma parse_extension_core: "parse_extension cert i = Ok (cert', r) \<Longrightarrow> cert_core cert' = cert_core cert"
  by (auto simp: parse_extension_def rd_inv dest: remember_extension_core split: if_splits)

lemma extensions_core:
  assumes "nested_of_mut tag tag' e parse_extension cert i = Ok (cert', r)"
  shows "cert_core cert' = cert_core cert"
proof -
  obtain v where "nested_loop tag' e parse_extension cert v = Ok (cert', [])"
    using assms by (auto simp: nested_of_mut_def rd_inv)
  then show ?thesis by (rule nested_loop_invariant) (auto dest: parse_extension_core)
qed

lemma bit_string_Ok [rd_inv]:
  "bit_string_with_no_unused_bits i = Ok (v, r) \<longleftrightarrow> length v < 65535 \<and> i = tlv (tag_u8 BitString) (0 # v) @ r"
  by (auto simp: bit_string_with_no_unused_bits_def rd_inv)

lemma small_integer_Ok:
  "small_nonnegative_integer i = Ok (n, r) \<longleftrightarrow> i = tlv (tag_u8 Integer) (if 128 \<le> unat n then [0, n] else [n]) @ r"
proof -
  have inner: "nonnegative_value 0 v = Ok [n] \<longleftrightarrow> v = (if 128 \<le> unat n then [0, n] else [n])" for v
    by (auto simp: nonnegative_value_Ok int_octets_def)
  show ?thesis
    unfolding small_nonnegative_integer_def ring_small_nonnegative_integer_def nonnegative_integer_def rd_inv
    by (auto simp: inner)
qed

lemma version3_Ok: "version3 i = Ok ((), r) \<longleftrightarrow> i = tlv (tag_u8 ContextSpecificConstructed0) (tlv (tag_u8 Integer) [2]) @ r"
proof -
  have inner: "rd_bind small_nonnegative_integer (\<lambda>version. if version \<noteq> 2 then rd_err UnsupportedCertVersion else rd_ret ()) v
      = Ok ((), []) \<longleftrightarrow> v = tlv (tag_u8 Integer) [2]" for v
  proof -
    have "(if version \<noteq> 2 then rd_err UnsupportedCertVersion else rd_ret ()) i = Ok ((), []) \<longleftrightarrow> version = 2 \<and> i = []"
      for version :: u8 and i by (auto simp: rd_inv)
    then show ?thesis by (simp add: rd_bind_Ok small_integer_Ok)
  qed
  show ?thesis
    unfolding version3_def nested_Ok inner by (auto simp: tlv_def len_octets_def)
qed

lemma serial_number_Ok:
  "certificate_serial_number i = Ok ((), r) \<longleftrightarrow>
     (\<exists>serial. serial \<noteq> [] \<and> hd serial \<noteq> 0 \<and> length serial \<le> 20 \<and> i = tlv (tag_u8 Integer) (int_octets serial) @ r)"
proof -
  have "(if length v > 20 then rd_err BadDER else rd_ret ()) i = Ok ((), r) \<longleftrightarrow> length v \<le> 20 \<and> i = r" for v :: bytes and i
    by (auto simp: rd_inv)
  moreover have "length (int_octets v) < 65536" if "length v \<le> 20" for v
    using that by (simp add: int_octets_def)
  ultimately show ?thesis
    unfolding certificate_serial_number_def rd_bind_Ok webpki_readers_Ok positive_integer_Ok by blast
qed

lemma parse_signed_data_Ok [rd_inv]:
  "parse_signed_data i = Ok ((tbs, sd), r) \<longleftrightarrow>
     length tbs < 65536 \<and> length (sd_algorithm sd) < 65536 \<and> length (sd_signature sd) < 65535 \<and>
     sd_data sd = tlv (tag_u8 Sequence) tbs \<and>
     i = sd_data sd @ tlv (tag_u8 Sequence) (sd_algorithm sd) @ tlv (tag_u8 BitString) (0 # sd_signature sd) @ r"
  by (cases sd) (auto simp: parse_signed_data_def rd_inv consumes_webpki simp del: tag_u8.simps)

lemma consumes_serial_number: "consumes certificate_serial_number"
  by (auto simp: consumes_def serial_number_Ok)

lemma parse_tbs_Ok:
  assumes "parse_tbs ee serial_number sd i = Ok (cert, [])"
  shows "\<exists>i' extensions.
     cert_ee_or_ca cert = ee \<and> cert_signed_data cert = sd \<and>
     i = tlv (tag_u8 ContextSpecificConstructed0) (tlv (tag_u8 Integer) [2]) @ i' \<and>
     serial_number i' = Ok ((),
       tlv (tag_u8 Sequence) (sd_algorithm sd) @ tlv (tag_u8 Sequence) (cert_issuer cert) @
       tlv (tag_u8 Sequence) (cert_validity cert) @ tlv (tag_u8 Sequence) (cert_subject cert) @
       tlv (tag_u8 Sequence) (cert_spki cert) @ tlv (tag_u8 ContextSpecificConstructed3) extensions)"
proof -
  obtain i' issuer validity subject spki v where
    *: "version3 i = Ok ((), i')"
    "serial_number i' = Ok ((),
       tlv (tag_u8 Sequence) (sd_algorithm sd) @ tlv (tag_u8 Sequence) issuer @ tlv (tag_u8 Sequence) validity @
       tlv (tag_u8 Sequence) subject @ tlv (tag_u8 Sequence) spki @ tlv (tag_u8 ContextSpecificConstructed3) v)"
    "nested_of_mut Sequence Sequence BadDER parse_extension (Cert ee sd issuer validity subject spki None None None None) v
       = Ok (cert, [])"
    using assms unfolding parse_tbs_def Let_def rd_inv by (auto simp: rd_inv split: if_splits)
  from extensions_core [OF *(3)] show ?thesis
    using *(1, 2) by (cases cert) (auto simp: version3_Ok)
qed

section \<open>An example\<close>

text \<open>A small certificate, by its issuer, subject and extensions: an RSA key, valid from 2022 to 2049.\<close>

definition ex_spki :: bytes where
  "ex_spki = tlv (tag_u8 Sequence) RSA_ENCRYPTION @ tlv (tag_u8 BitString) [0, 9]"

definition ex_validity :: bytes where
  "ex_validity = utc_time 2022 12 8 16 0 0 @ utc_time 2049 12 31 0 0 0"

definition ex_tbs :: "bytes \<Rightarrow> bytes \<Rightarrow> bytes \<Rightarrow> bytes" where
  "ex_tbs issuer subject extensions =
     tlv (tag_u8 ContextSpecificConstructed0) (tlv (tag_u8 Integer) [2]) @ tlv (tag_u8 Integer) [1] @
     tlv (tag_u8 Sequence) RSA_PKCS1_SHA256 @ tlv (tag_u8 Sequence) issuer @ tlv (tag_u8 Sequence) ex_validity @
     tlv (tag_u8 Sequence) subject @ tlv (tag_u8 Sequence) ex_spki @
     tlv (tag_u8 ContextSpecificConstructed3) (tlv (tag_u8 Sequence) extensions)"

definition ex_signed :: "bytes \<Rightarrow> SignedData" where
  "ex_signed tbs = \<lparr>sd_data = tlv (tag_u8 Sequence) tbs, sd_algorithm = RSA_PKCS1_SHA256, sd_signature = [7]\<rparr>"

definition ex_der :: "bytes \<Rightarrow> bytes" where
  "ex_der tbs = tlv (tag_u8 Sequence)
     (tlv (tag_u8 Sequence) tbs @ tlv (tag_u8 Sequence) RSA_PKCS1_SHA256 @ tlv (tag_u8 BitString) [0, 7])"

definition ex_extension :: "u8 \<Rightarrow> bytes \<Rightarrow> bytes" where
  "ex_extension n v = tlv (tag_u8 Sequence) (tlv (tag_u8 OID) [85, 29, n] @ tlv (tag_u8 OctetString) (tlv (tag_u8 Sequence) v))"

lemma ex_parse:
  "parse_cert (ex_der (ex_tbs [1, 2, 3] [4] (ex_extension 15 []))) EndEntity =
     Ok (Cert EndEntity (ex_signed (ex_tbs [1, 2, 3] [4] (ex_extension 15 []))) [1, 2, 3] ex_validity [4] ex_spki None None None None)"
  by code_simp

text \<open>
  C18: the signature of a certificate covers what the parser returns. The input is a sequence of
  the signed bytes, the algorithm and the signature; the signed bytes are themselves a sequence
  of the version, a serial number of at most 20 bytes, the same algorithm, and the issuer, the
  validity, the subject and the key of the returned certificate, followed by the extensions.
  There is nothing else in the input, before or behind.
\<close>
theorem parse_cert_covered:
  assumes "parse_cert cert_der ee_or_ca = Ok cert"
  shows "\<exists>serial extensions signed.
     cert_ee_or_ca cert = ee_or_ca \<and> signed = cert_signed_data cert \<and>
     cert_der = tlv (tag_u8 Sequence)
       (sd_data signed @ tlv (tag_u8 Sequence) (sd_algorithm signed) @ tlv (tag_u8 BitString) (0 # sd_signature signed)) \<and>
     sd_data signed = tlv (tag_u8 Sequence)
       (tlv (tag_u8 ContextSpecificConstructed0) (tlv (tag_u8 Integer) [2]) @
        tlv (tag_u8 Integer) (int_octets serial) @
        tlv (tag_u8 Sequence) (sd_algorithm signed) @
        tlv (tag_u8 Sequence) (cert_issuer cert) @
        tlv (tag_u8 Sequence) (cert_validity cert) @
        tlv (tag_u8 Sequence) (cert_subject cert) @
        tlv (tag_u8 Sequence) (cert_spki cert) @
        tlv (tag_u8 ContextSpecificConstructed3) extensions) \<and>
     serial \<noteq> [] \<and> hd serial \<noteq> 0 \<and> length serial \<le> 20"
proof -
  obtain tbs sd where sd: "nested Sequence BadDER parse_signed_data cert_der = Ok ((tbs, sd), [])"
    and tbs: "parse_tbs ee_or_ca certificate_serial_number sd tbs = Ok (cert, [])"
    using assms unfolding parse_cert_def parse_cert_internal_def rd_inv by (auto simp: rd_inv)
  from parse_tbs_Ok [OF tbs] sd show ?thesis
    unfolding serial_number_Ok nested_Ok parse_signed_data_Ok by auto
qed

theorem parse_cert_covered_witness:
  "\<exists>cert serial extensions.
     parse_cert (ex_der (ex_tbs [1, 2, 3] [4] (ex_extension 15 []))) EndEntity = Ok cert \<and> cert_issuer cert = [1, 2, 3] \<and>
     sd_data (cert_signed_data cert) = tlv (tag_u8 Sequence)
       (tlv (tag_u8 ContextSpecificConstructed0) (tlv (tag_u8 Integer) [2]) @
        tlv (tag_u8 Integer) (int_octets serial) @
        tlv (tag_u8 Sequence) (sd_algorithm (cert_signed_data cert)) @
        tlv (tag_u8 Sequence) (cert_issuer cert) @
        tlv (tag_u8 Sequence) (cert_validity cert) @
        tlv (tag_u8 Sequence) (cert_subject cert) @
        tlv (tag_u8 Sequence) (cert_spki cert) @
        tlv (tag_u8 ContextSpecificConstructed3) extensions)"
  using parse_cert_covered [OF ex_parse] ex_parse by auto

section \<open>Errors and panics of the parser\<close>

definition errs :: "('a, 'e) reader \<Rightarrow> 'e set \<Rightarrow> bool" where
  "errs m E \<longleftrightarrow> (\<forall>i e. m i = Err e \<longrightarrow> e \<in> E)"

named_theorems errs_intros \<open>which errors a composed reader can give\<close>

lemma res_bind_Err: "res_bind r f = Err e \<longleftrightarrow> r = Err e \<or> (\<exists>x. r = Ok x \<and> f x = Err e)"
  by (cases r) (simp_all add: res_bind_def)

lemma errs_bind [errs_intros]: "errs m E \<Longrightarrow> (\<And>x. errs (f x) E) \<Longrightarrow> errs (rd_bind m f) E"
  by (auto simp: errs_def rd_bind_def res_bind_Err)

lemma errs_then [errs_intros]: "errs m E \<Longrightarrow> errs n E \<Longrightarrow> errs (rd_then m n) E"
  unfolding rd_then_def by (rule errs_bind)

lemma errs_if [errs_intros]: "(c \<Longrightarrow> errs m E) \<Longrightarrow> (\<not> c \<Longrightarrow> errs n E) \<Longrightarrow> errs (if c then m else n) E"
  by simp

lemma errs_basic [errs_intros]:
  "errs (rd_ret x) E" "e \<in> E \<Longrightarrow> errs (rd_err e) E" "e \<in> E \<Longrightarrow> errs (rd_map_err e m) E" "e \<in> E \<Longrightarrow> errs (read_byte e) E"
  "errs read_bytes_to_end E"
  by (auto simp: errs_def rd_defs split: result.splits list.splits)

lemma errs_nested [errs_intros]: "e \<in> E \<Longrightarrow> errs m E \<Longrightarrow> errs (nested tag e m) E"
  by (auto simp: errs_def nested_def rd_bind_def rd_lift_def rd_map_err_def res_map_err_def res_bind_Err read_all_def split: if_splits result.splits)

lemma errs_nested_mut [errs_intros]: "e \<in> E \<Longrightarrow> errs (nested_mut tag e m) E"
  by (auto simp: errs_def nested_mut_def rd_bind_def rd_lift_def rd_map_err_def res_map_err_def res_bind_Err split: if_splits result.splits)

lemma errs_partial [errs_intros]: "errs m E \<Longrightarrow> errs (read_partial m) E"
  by (auto simp: errs_def read_partial_def res_bind_Err)

lemma errs_webpki [errs_intros]:
  "BadDER \<in> E \<Longrightarrow> errs (expect_tag_and_get_value tag) E" "BadDER \<in> E \<Longrightarrow> errs small_nonnegative_integer E"
  "BadDER \<in> E \<Longrightarrow> errs positive_integer E" "BadDER \<in> E \<Longrightarrow> errs bit_string_with_no_unused_bits E"
  unfolding expect_tag_and_get_value_def small_nonnegative_integer_def positive_integer_def bit_string_with_no_unused_bits_def
  by (intro errs_intros; assumption)+

lemma read_all_Err: "read_all e m i = Err x \<Longrightarrow> errs m E \<Longrightarrow> e \<in> E \<Longrightarrow> x \<in> E"
  by (auto simp: read_all_def res_bind_Err errs_def split: if_splits)

lemma remember_extension_no_panic: "remember_extension cert extn_id val \<noteq> Panic"
proof -
  have "remember_value out store v \<noteq> Panic" for out store v
    by (auto simp: remember_value_def res_bind_Panic read_all_no_panic no_panic_webpki split: option.splits)
  then show ?thesis by (cases cert) (simp add: Let_def)
qed

lemma no_panic_parse_extension [no_panic_intros]: "no_panic (parse_extension cert)"
  unfolding parse_extension_def case_prod_beta by (intro no_panic_intros remember_extension_no_panic)

lemma parse_cert_internal_no_panic: "no_panic serial_number \<Longrightarrow> parse_cert_internal cert_der ee serial_number \<noteq> Panic"
  unfolding parse_cert_internal_def res_bind_Panic parse_signed_data_def parse_tbs_def version3_def Let_def case_prod_beta
  by (auto intro!: no_panic_intros simp del: not_None_eq)

lemma parse_cert_no_panic: "parse_cert cert_der ee \<noteq> Panic"
  unfolding parse_cert_def
  by (rule parse_cert_internal_no_panic) (unfold certificate_serial_number_def, intro no_panic_intros)

text \<open>
  C39: the parser of certificates never panics, and an input it refuses is refused with one of
  three errors: the encoding is bad, the version is not 3, or the two algorithms differ. In
  particular the errors for an unsupported critical extension and for an extension that occurs
  twice are never given: the readers around the extensions replace them.
\<close>
theorem parse_cert_errors:
  "parse_cert cert_der ee_or_ca \<noteq> Panic \<and>
   (\<forall>e. parse_cert cert_der ee_or_ca = Err e \<longrightarrow> e \<in> {BadDER, UnsupportedCertVersion, SignatureAlgorithmMismatch})"
proof -
  let ?E = "{BadDER, UnsupportedCertVersion, SignatureAlgorithmMismatch}"
  have "errs (nested Sequence BadDER parse_signed_data) ?E"
    unfolding parse_signed_data_def case_prod_beta by (intro errs_intros) simp_all
  moreover have "errs (parse_tbs ee_or_ca certificate_serial_number sd) ?E" for sd
    unfolding parse_tbs_def version3_def certificate_serial_number_def Let_def by (intro errs_intros) simp_all
  ultimately have "parse_cert cert_der ee_or_ca = Err e \<longrightarrow> e \<in> ?E" for e
    unfolding parse_cert_def parse_cert_internal_def by (auto simp: res_bind_Err dest!: read_all_Err)
  moreover have "parse_cert cert_der ee_or_ca \<noteq> Panic"
    by (rule parse_cert_no_panic)
  ultimately show ?thesis by blast
qed

theorem parse_cert_errors_witness:
  "parse_cert (ex_der (ex_tbs [1] [2] (ex_extension 19 [] @ ex_extension 19 []))) EndEntity = Err BadDER \<and>
   BadDER \<in> {BadDER, UnsupportedCertVersion, SignatureAlgorithmMismatch}"
proof -
  have "parse_cert (ex_der (ex_tbs [1] [2] (ex_extension 19 [] @ ex_extension 19 []))) EndEntity = Err BadDER" by code_simp
  with parse_cert_errors [of "ex_der (ex_tbs [1] [2] (ex_extension 19 [] @ ex_extension 19 []))" EndEntity] show ?thesis by blast
qed

end
