(* ===== verification/Webpki_Name.thy ===== *)
theory Webpki_Name
  imports Webpki_Cert
begin

text \<open>
  \<open>utils/webpki/src/name.rs\<close>: the names in certificates, DNS names and how they match, and name
  constraints. The loops over bytes are recursive functions of the bytes that are left; an
  \<open>assert!\<close>, \<open>unwrap\<close> or \<open>unreachable!\<close> that fails is the outcome \<open>Panic\<close>.
\<close>

section \<open>DNS names\<close>

datatype AllowWildcards = AllowWildcards_No | AllowWildcards_Yes

datatype IDRole = ReferenceID | PresentedID | NameConstraint

definition ascii_lower :: "u8 \<Rightarrow> u8" where
  "ascii_lower b = (if 0x41 \<le> b \<and> b \<le> 0x5A then b + 0x61 - 0x41 else b)"

text \<open>
  The effect of one byte on the number of dots, the length of the label, whether the label is
  all numeric so far and whether it ends with a hyphen; \<open>None\<close> when the name is not valid.
\<close>

definition MAX_LABEL_LENGTH :: nat where "MAX_LABEL_LENGTH = 63"

definition dns_id_byte ::
  "IDRole \<Rightarrow> bool \<Rightarrow> u8 \<Rightarrow> nat \<times> nat \<times> bool \<times> bool \<Rightarrow> (nat \<times> nat \<times> bool \<times> bool) option" where
  "dns_id_byte id_role is_first_byte b = (\<lambda>(dot_count, label_length, label_is_all_numeric, label_ends_with_hyphen).
     if b = 0x2D then
       (if label_length = 0 then None
        else if label_length + 1 > MAX_LABEL_LENGTH then None
        else Some (dot_count, label_length + 1, False, True))
     else if 0x30 \<le> b \<and> b \<le> 0x39 then
       (let label_is_all_numeric = (if label_length = 0 then True else label_is_all_numeric) in
        if label_length + 1 > MAX_LABEL_LENGTH then None
        else Some (dot_count, label_length + 1, label_is_all_numeric, False))
     else if 0x61 \<le> b \<and> b \<le> 0x7A \<or> 0x41 \<le> b \<and> b \<le> 0x5A \<or> b = 0x5F then
       (if label_length + 1 > MAX_LABEL_LENGTH then None
        else Some (dot_count, label_length + 1, False, False))
     else if b = 0x2E then
       (if label_length = 0 \<and> (id_role \<noteq> NameConstraint \<or> \<not> is_first_byte) then None
        else if label_ends_with_hyphen then None
        else Some (dot_count + 1, 0, label_is_all_numeric, label_ends_with_hyphen))
     else None)"

fun dns_id_loop ::
  "IDRole \<Rightarrow> bool \<Rightarrow> nat \<times> nat \<times> bool \<times> bool \<Rightarrow> bytes \<Rightarrow> (nat \<times> nat \<times> bool \<times> bool) option" where
  "dns_id_loop id_role is_first_byte st [] = None"
| "dns_id_loop id_role is_first_byte st (b # input) =
     (case dns_id_byte id_role is_first_byte b st of
        None \<Rightarrow> None
      | Some st' \<Rightarrow> if input = [] then Some st' else dns_id_loop id_role False st' input)"

definition is_valid_dns_id :: "bytes \<Rightarrow> IDRole \<Rightarrow> AllowWildcards \<Rightarrow> bool" where
  "is_valid_dns_id hostname id_role allow_wildcards =
     (if length hostname > 253 then False
      else if id_role = NameConstraint \<and> hostname = [] then True
      else
        (let is_wildcard = (allow_wildcards = AllowWildcards_Yes \<and> hostname \<noteq> [] \<and> hd hostname = 0x2A) in
         if is_wildcard \<and> take 2 hostname \<noteq> [0x2A, 0x2E] then False
         else
           (case dns_id_loop id_role (\<not> is_wildcard) (if is_wildcard then 1 else 0, 0, False, False)
                   (if is_wildcard then drop 2 hostname else hostname) of
              None \<Rightarrow> False
            | Some (dot_count, label_length, label_is_all_numeric, label_ends_with_hyphen) \<Rightarrow>
                if label_length = 0 \<and> id_role \<noteq> ReferenceID then False
                else if label_ends_with_hyphen then False
                else if label_is_all_numeric then False
                else if is_wildcard \<and> (if label_length = 0 then dot_count else dot_count + 1) < 3 then False
                else True)))"

definition is_valid_reference_dns_id :: "bytes \<Rightarrow> bool" where
  "is_valid_reference_dns_id hostname = is_valid_dns_id hostname ReferenceID AllowWildcards_No"

text \<open>A \<open>DNSNameRef\<close> is the bytes of a valid name.\<close>

type_synonym DNSNameRef = bytes

definition try_from_ascii :: "bytes \<Rightarrow> DNSNameRef option" where
  "try_from_ascii dns_name = (if \<not> is_valid_reference_dns_id dns_name then None else Some dns_name)"

text \<open>The loop over a wildcard: the reference is read up to its next dot, at least one byte.\<close>

fun skip_label :: "bytes \<Rightarrow> bytes option" where
  "skip_label [] = None"
| "skip_label (_ # reference) =
     (if reference \<noteq> [] \<and> hd reference = 0x2E then Some reference else skip_label reference)"

text \<open>The comparison: the value that is returned early, or what is left of the reference.\<close>

fun compare_ids :: "bytes \<Rightarrow> bytes \<Rightarrow> bool option + bytes" where
  "compare_ids (p # presented) (r # reference) =
     (if ascii_lower p = ascii_lower r then
        (if presented = [] then (if p = 0x2E then Inl None else Inr reference)
         else compare_ids presented reference)
      else Inl (Some False))"
| "compare_ids _ _ = Inl (Some False)"

text \<open>
  Where the comparison with a shorter constraint starts: at a suffix of the presented name. The
  bytes to skip are fewer than the name has, so that the skips cannot fail.
\<close>

definition skip_prefix :: "bytes \<Rightarrow> bytes \<Rightarrow> bool option + bytes" where
  "skip_prefix presented reference =
     (if reference = [] then Inl (Some True)
      else if hd reference = 0x2E then
        Inr (drop (length presented - length reference) presented)
      else
        (case drop (length presented - length reference - 1) presented of
           b # rest \<Rightarrow> if b \<noteq> 0x2E then Inl (Some False) else Inr rest
         | [] \<Rightarrow> Inl (Some False)))"

text \<open>
  From the wildcard on. When the comparison ends, the presented name is used up; the last branch
  is reached with the reference used up as well, as the two assertions of the code say.
\<close>

definition match_ids :: "IDRole \<Rightarrow> bytes \<Rightarrow> bytes \<Rightarrow> bool option" where
  "match_ids reference_dns_id_role presented reference =
     (case (if presented \<noteq> [] \<and> hd presented = 0x2A
            then map_option (Pair (tl presented)) (skip_label reference)
            else Some (presented, reference)) of
        None \<Rightarrow> Some False
      | Some (presented, reference) \<Rightarrow>
          (case compare_ids presented reference of
             Inl res \<Rightarrow> res
           | Inr reference \<Rightarrow>
               if reference \<noteq> [] \<and> reference_dns_id_role \<noteq> NameConstraint \<and> hd reference \<noteq> 0x2E then Some False
               else
                 (let reference = (if reference \<noteq> [] \<and> reference_dns_id_role \<noteq> NameConstraint then tl reference else reference) in
                  if reference \<noteq> [] then Some False else Some True)))"

definition presented_dns_id_matches_reference_dns_id_internal ::
  "bytes \<Rightarrow> IDRole \<Rightarrow> bytes \<Rightarrow> (bool option, webpki_error) result" where
  "presented_dns_id_matches_reference_dns_id_internal presented_dns_id reference_dns_id_role reference_dns_id =
     (if \<not> is_valid_dns_id presented_dns_id PresentedID AllowWildcards_Yes then Ok None
      else if \<not> is_valid_dns_id reference_dns_id reference_dns_id_role AllowWildcards_No then Ok None
      else
        (case reference_dns_id_role of
           ReferenceID \<Rightarrow> Ok (match_ids ReferenceID presented_dns_id reference_dns_id)
         | NameConstraint \<Rightarrow>
             if length presented_dns_id > length reference_dns_id then
               (case skip_prefix presented_dns_id reference_dns_id of
                  Inl res \<Rightarrow> Ok res
                | Inr presented \<Rightarrow> Ok (match_ids NameConstraint presented reference_dns_id))
             else Ok (match_ids NameConstraint presented_dns_id reference_dns_id)
         | PresentedID \<Rightarrow> Panic))"

definition presented_dns_id_matches_reference_dns_id :: "bytes \<Rightarrow> bytes \<Rightarrow> (bool option, webpki_error) result" where
  "presented_dns_id_matches_reference_dns_id presented_dns_id reference_dns_id =
     presented_dns_id_matches_reference_dns_id_internal presented_dns_id ReferenceID reference_dns_id"

definition presented_dns_id_matches_dns_id_constraint :: "bytes \<Rightarrow> bytes \<Rightarrow> (bool option, webpki_error) result" where
  "presented_dns_id_matches_dns_id_constraint presented_dns_id reference_dns_id =
     presented_dns_id_matches_reference_dns_id_internal presented_dns_id NameConstraint reference_dns_id"

section \<open>General names\<close>

datatype GeneralName = DNSName bytes | DirectoryName bytes | IPAddress bytes | Unsupported u8

definition OTHER_NAME_TAG :: u8 where "OTHER_NAME_TAG = CONTEXT_SPECIFIC OR CONSTRUCTED OR 0"
definition RFC822_NAME_TAG :: u8 where "RFC822_NAME_TAG = CONTEXT_SPECIFIC OR 1"
definition DNS_NAME_TAG :: u8 where "DNS_NAME_TAG = CONTEXT_SPECIFIC OR 2"
definition X400_ADDRESS_TAG :: u8 where "X400_ADDRESS_TAG = CONTEXT_SPECIFIC OR CONSTRUCTED OR 3"
definition DIRECTORY_NAME_TAG :: u8 where "DIRECTORY_NAME_TAG = CONTEXT_SPECIFIC OR CONSTRUCTED OR 4"
definition EDI_PARTY_NAME_TAG :: u8 where "EDI_PARTY_NAME_TAG = CONTEXT_SPECIFIC OR CONSTRUCTED OR 5"
definition UNIFORM_RESOURCE_IDENTIFIER_TAG :: u8 where "UNIFORM_RESOURCE_IDENTIFIER_TAG = CONTEXT_SPECIFIC OR 6"
definition IP_ADDRESS_TAG :: u8 where "IP_ADDRESS_TAG = CONTEXT_SPECIFIC OR 7"
definition REGISTERED_ID_TAG :: u8 where "REGISTERED_ID_TAG = CONTEXT_SPECIFIC OR 8"

definition general_name :: "(GeneralName, webpki_error) reader" where
  "general_name =
     rd_bind read_tag_and_get_value (\<lambda>(tag, val).
       if tag = DNS_NAME_TAG then rd_ret (DNSName val)
       else if tag = DIRECTORY_NAME_TAG then rd_ret (DirectoryName val)
       else if tag = IP_ADDRESS_TAG then rd_ret (IPAddress val)
       else if tag \<in> {OTHER_NAME_TAG, RFC822_NAME_TAG, X400_ADDRESS_TAG, EDI_PARTY_NAME_TAG,
                      UNIFORM_RESOURCE_IDENTIFIER_TAG, REGISTERED_ID_TAG}
       then rd_ret (Unsupported (tag AND NOT (CONTEXT_SPECIFIC OR CONSTRUCTED)))
       else rd_err BadDER)"

datatype NameIteration = KeepGoing | Stop "(unit, webpki_error) result"

function names_loop ::
  "(GeneralName \<Rightarrow> (NameIteration, webpki_error) result) \<Rightarrow> bytes \<Rightarrow> (NameIteration, webpki_error) result" where
  "names_loop f subject_alt_name =
     (if subject_alt_name = [] then Ok KeepGoing
      else
        (case general_name subject_alt_name of
           Ok (name, rest) \<Rightarrow>
             (case f name of
                Ok (Stop r) \<Rightarrow> Ok (Stop r)
              | Ok KeepGoing \<Rightarrow> names_loop f rest
              | Err e \<Rightarrow> Err e
              | Panic \<Rightarrow> Panic)
         | Err e \<Rightarrow> Err e
         | Panic \<Rightarrow> Panic))"
  by pat_completeness auto

lemma general_name_shrinks: "general_name i = Ok (name, r) \<Longrightarrow> length r < length i"
  by (auto simp: general_name_def rd_inv tlv_def split: if_splits)

termination names_loop
  by (relation "measure (\<lambda>(_, i). length i)") (auto dest: general_name_shrinks)

declare names_loop.simps [simp del]

definition iterate_names ::
  "bytes \<Rightarrow> bytes option \<Rightarrow> (unit, webpki_error) result \<Rightarrow> (GeneralName \<Rightarrow> (NameIteration, webpki_error) result) \<Rightarrow>
   (unit, webpki_error) result" where
  "iterate_names subject subject_alt_name result_if_never_stopped_early f =
     res_bind (case subject_alt_name of Some san \<Rightarrow> names_loop f san | None \<Rightarrow> Ok KeepGoing) (\<lambda>it.
       case it of
         Stop r \<Rightarrow> r
       | KeepGoing \<Rightarrow>
           res_bind (f (DirectoryName subject)) (\<lambda>it.
             case it of Stop r \<Rightarrow> r | KeepGoing \<Rightarrow> result_if_never_stopped_early))"

definition verify_cert_dns_name :: "Cert \<Rightarrow> DNSNameRef \<Rightarrow> (unit, webpki_error) result" where
  "verify_cert_dns_name cert dns_name =
     iterate_names (cert_subject cert) (cert_subject_alt_name cert) (Err CertNotValidForName) (\<lambda>name.
       case name of
         DNSName presented_id \<Rightarrow>
           res_bind (presented_dns_id_matches_reference_dns_id presented_id dns_name) (\<lambda>matched.
             case matched of
               Some True \<Rightarrow> Ok (Stop (Ok ()))
             | Some False \<Rightarrow> Ok KeepGoing
             | None \<Rightarrow> Ok (Stop (Err BadDER)))
       | _ \<Rightarrow> Ok KeepGoing)"

section \<open>Name constraints\<close>

datatype Subtrees = PermittedSubtrees | ExcludedSubtrees

definition presented_directory_name_matches_constraint :: "bytes \<Rightarrow> bytes \<Rightarrow> Subtrees \<Rightarrow> (bool, webpki_error) result" where
  "presented_directory_name_matches_constraint name constraint subtrees =
     (case subtrees of PermittedSubtrees \<Rightarrow> Ok (name = constraint) | ExcludedSubtrees \<Rightarrow> Ok True)"

fun ip_loop :: "bytes \<Rightarrow> bytes \<Rightarrow> bytes \<Rightarrow> (bool, webpki_error) result" where
  "ip_loop (name_byte # name) (address_byte # address) (mask_byte # mask_bytes) =
     (if (name_byte XOR address_byte) AND mask_byte \<noteq> 0 then Ok False
      else if name = [] then Ok True
      else ip_loop name address mask_bytes)"
| "ip_loop _ _ _ = Panic"

definition presented_ip_address_matches_constraint :: "bytes \<Rightarrow> bytes \<Rightarrow> (bool, webpki_error) result" where
  "presented_ip_address_matches_constraint name constraint =
     (if length name \<noteq> 4 \<and> length name \<noteq> 16 then Err BadDER
      else if length constraint \<noteq> 8 \<and> length constraint \<noteq> 32 then Err BadDER
      else if length name * 2 \<noteq> length constraint then Ok False
      else
        (let half = length constraint div 2 in
         ip_loop name (take half constraint) (take half (drop half constraint))))"

definition general_subtree :: "(GeneralName, webpki_error) reader" where
  "general_subtree =
     rd_bind (expect_tag_and_get_value Sequence) (\<lambda>subtree. rd_lift (read_all BadDER general_name subtree))"

definition name_matches_base :: "GeneralName \<Rightarrow> Subtrees \<Rightarrow> GeneralName \<Rightarrow> (bool, webpki_error) result" where
  "name_matches_base name subtrees base =
     (case (name, base) of
        (DNSName name, DNSName base) \<Rightarrow>
          res_bind (presented_dns_id_matches_dns_id_constraint name base) (\<lambda>m.
            case m of Some b \<Rightarrow> Ok b | None \<Rightarrow> Err BadDER)
      | (DirectoryName name, DirectoryName base) \<Rightarrow> presented_directory_name_matches_constraint name base subtrees
      | (IPAddress name, IPAddress base) \<Rightarrow> presented_ip_address_matches_constraint name base
      | (Unsupported name_tag, Unsupported base_tag) \<Rightarrow>
          if name_tag = base_tag then Err NameConstraintViolation else Ok False
      | _ \<Rightarrow> Ok False)"

function subtrees_loop ::
  "GeneralName \<Rightarrow> Subtrees \<Rightarrow> bool \<Rightarrow> bool \<Rightarrow> bytes \<Rightarrow> (NameIteration, webpki_error) result" where
  "subtrees_loop name subtrees has_match has_mismatch constraints =
     (case general_subtree constraints of
        Err e \<Rightarrow> Ok (Stop (Err e))
      | Panic \<Rightarrow> Panic
      | Ok (base, rest) \<Rightarrow>
          (case name_matches_base name subtrees base of
             Err e \<Rightarrow> Ok (Stop (Err e))
           | Panic \<Rightarrow> Panic
           | Ok matched \<Rightarrow>
               if subtrees = ExcludedSubtrees \<and> matched then Ok (Stop (Err NameConstraintViolation))
               else
                 (let has_match = (has_match \<or> subtrees = PermittedSubtrees \<and> matched);
                      has_mismatch = (has_mismatch \<or> subtrees = PermittedSubtrees \<and> \<not> matched) in
                  if rest = [] then
                    (if has_mismatch \<and> \<not> has_match then Ok (Stop (Err NameConstraintViolation)) else Ok KeepGoing)
                  else subtrees_loop name subtrees has_match has_mismatch rest)))"
  by pat_completeness auto

lemma general_subtree_shrinks: "general_subtree i = Ok (name, r) \<Longrightarrow> length r < length i"
  by (auto simp: general_subtree_def rd_inv tlv_def)

termination subtrees_loop
  by (relation "measure (\<lambda>(_, _, _, _, i). length i)") (auto dest: general_subtree_shrinks)

declare subtrees_loop.simps [simp del]

definition check_presented_id_conforms_to_constraints_in_subtree ::
  "GeneralName \<Rightarrow> Subtrees \<Rightarrow> bytes option \<Rightarrow> (NameIteration, webpki_error) result" where
  "check_presented_id_conforms_to_constraints_in_subtree name subtrees constraints =
     (case constraints of
        None \<Rightarrow> Ok KeepGoing
      | Some constraints \<Rightarrow> subtrees_loop name subtrees False False constraints)"

definition check_presented_id_conforms_to_constraints ::
  "bytes option \<Rightarrow> bytes option \<Rightarrow> GeneralName \<Rightarrow> (NameIteration, webpki_error) result" where
  "check_presented_id_conforms_to_constraints permitted_subtrees excluded_subtrees name =
     res_bind (check_presented_id_conforms_to_constraints_in_subtree name PermittedSubtrees permitted_subtrees) (\<lambda>it.
       case it of
         Stop r \<Rightarrow> Ok (Stop r)
       | KeepGoing \<Rightarrow> check_presented_id_conforms_to_constraints_in_subtree name ExcludedSubtrees excluded_subtrees)"

definition parse_subtrees :: "Tag \<Rightarrow> (bytes option, webpki_error) reader" where
  "parse_subtrees subtrees_tag =
     rd_bind (peek (tag_u8 subtrees_tag)) (\<lambda>present.
       if \<not> present then rd_ret None
       else
         rd_bind (nested subtrees_tag BadDER (expect_tag_and_get_value Sequence)) (\<lambda>subtrees.
         rd_ret (Some subtrees)))"

fun constraints_loop :: "bytes option \<Rightarrow> bytes option \<Rightarrow> Cert \<Rightarrow> (unit, webpki_error) result" where
  "constraints_loop permitted excluded (Cert ee_or_ca sd issuer validity subject spki bc eku nc subject_alt_name) =
     res_bind
       (iterate_names subject subject_alt_name (Ok ()) (check_presented_id_conforms_to_constraints permitted excluded))
       (\<lambda>_. case ee_or_ca of
              CA child_cert \<Rightarrow> constraints_loop permitted excluded child_cert
            | EndEntity \<Rightarrow> Ok ())"

definition check_name_constraints :: "Cert \<Rightarrow> bytes option \<Rightarrow> (unit \<times> bytes, webpki_error) result" where
  "check_name_constraints subordinate_certs input =
     (case input of
        None \<Rightarrow> Ok ((), [])
      | Some input \<Rightarrow>
          rd_bind (parse_subtrees ContextSpecificConstructed0) (\<lambda>permitted_subtrees.
          rd_bind (parse_subtrees ContextSpecificConstructed1) (\<lambda>excluded_subtrees.
          rd_lift (constraints_loop permitted_subtrees excluded_subtrees subordinate_certs))) input)"

end
