(* ===== verification/Webpki_Dns.thy ===== *)
theory Webpki_Dns
  imports Webpki_Name
begin

text \<open>
  What the byte-wise treatment of DNS names in \<open>utils/webpki/src/name.rs\<close> amounts to, in terms of
  the labels between the dots: which names are valid, when a presented name matches a reference
  name, and where the matching of wildcards against name constraints goes too far.
\<close>

section \<open>Labels\<close>

fun split_dots :: "bytes \<Rightarrow> bytes list" where
  "split_dots [] = [[]]"
| "split_dots (b # bs) =
     (if b = 0x2E then [] # split_dots bs
      else (case split_dots bs of l # ls \<Rightarrow> (b # l) # ls | [] \<Rightarrow> []))"

lemma split_dots_nonempty [simp]: "split_dots bs \<noteq> []"
  by (induction bs) (auto split: list.splits)

lemma split_dots_append: "0x2E \<notin> set p \<Longrightarrow> split_dots (p @ bs) = (p @ hd (split_dots bs)) # tl (split_dots bs)"
proof (induction p)
  case (Cons b p)
  then show ?case by (cases "split_dots bs") auto
qed (simp add: split_dots_nonempty)

lemma split_dots_label [simp]: "0x2E \<notin> set p \<Longrightarrow> split_dots p = [p]"
  using split_dots_append [of p "[]"] by simp

lemma split_dots_dot [simp]: "0x2E \<notin> set p \<Longrightarrow> split_dots (p @ 0x2E # bs) = p # split_dots bs"
  by (simp add: split_dots_append)

lemma split_dots_inject: "split_dots xs = split_dots ys \<longleftrightarrow> xs = ys"
proof (induction xs arbitrary: ys)
  case Nil
  show ?case by (cases ys) (auto split: list.splits)
next
  case (Cons x xs)
  show ?case
  proof (cases ys)
    case Nil
    then show ?thesis by (auto split: list.splits)
  next
    case (Cons y ys')
    obtain l ls m ms where s: "split_dots xs = l # ls" "split_dots ys' = m # ms"
      using split_dots_nonempty [of xs] split_dots_nonempty [of ys'] by (meson neq_Nil_conv)
    then show ?thesis using Cons.IH [of ys'] Cons by auto
  qed
qed

lemma split_dots_no_dot: "l \<in> set (split_dots bs) \<Longrightarrow> 0x2E \<notin> set l"
  by (induction bs arbitrary: l) (fastforce split: list.splits if_splits)+

lemma split_dots_map:
  assumes "\<And>b. f b = 0x2E \<longleftrightarrow> b = (0x2E :: u8)"
  shows "split_dots (map f bs) = map (map f) (split_dots bs)"
  by (induction bs) (auto simp: assms split: list.splits)

section \<open>Valid names\<close>

definition digit_byte :: "u8 \<Rightarrow> bool" where
  "digit_byte b \<longleftrightarrow> 0x30 \<le> b \<and> b \<le> 0x39"

definition label_byte :: "u8 \<Rightarrow> bool" where
  "label_byte b \<longleftrightarrow> b = 0x2D \<or> b = 0x5F \<or> digit_byte b \<or> 0x61 \<le> b \<and> b \<le> 0x7A \<or> 0x41 \<le> b \<and> b \<le> 0x5A"

definition label_prefix :: "bytes \<Rightarrow> bool" where
  "label_prefix l \<longleftrightarrow> list_all label_byte l \<and> length l \<le> 63 \<and> (l \<noteq> [] \<longrightarrow> hd l \<noteq> 0x2D)"

definition valid_label :: "bytes \<Rightarrow> bool" where
  "valid_label l \<longleftrightarrow> l \<noteq> [] \<and> label_prefix l \<and> last l \<noteq> 0x2D"

text \<open>
  A name is valid if its labels are and the last is not a number. A wildcard is a first label
  \<open>*\<close> with at least two labels behind it, where it is allowed; a constraint may be empty or start
  with a dot, and a reference may end with one.
\<close>

definition proper_labels :: "bytes list \<Rightarrow> IDRole \<Rightarrow> bool \<Rightarrow> bytes list" where
  "proper_labels ls id_role wildcard =
     (let ls = (if wildcard \<or> id_role = NameConstraint \<and> hd ls = [] then tl ls else ls) in
      if id_role = ReferenceID \<and> last ls = [] then butlast ls else ls)"

definition valid_name :: "bytes \<Rightarrow> IDRole \<Rightarrow> AllowWildcards \<Rightarrow> bool" where
  "valid_name h id_role allow_wildcards \<longleftrightarrow>
     length h \<le> 253 \<and>
     (id_role = NameConstraint \<and> h = [] \<or>
      (let wildcard = (allow_wildcards = AllowWildcards_Yes \<and> hd (split_dots h) = [0x2A]);
           ls = proper_labels (split_dots h) id_role wildcard in
       ls \<noteq> [] \<and> list_all valid_label ls \<and> \<not> list_all digit_byte (last ls) \<and> (wildcard \<longrightarrow> 2 \<le> length ls)))"

text \<open>The state of the loop inside the label that starts with \<open>p\<close>.\<close>

definition dns_state :: "nat \<Rightarrow> bytes \<Rightarrow> bool \<Rightarrow> nat \<times> nat \<times> bool \<times> bool" where
  "dns_state d p n = (d, length p, if p = [] then n else list_all digit_byte p, p \<noteq> [] \<and> last p = 0x2D)"

lemma label_byte_not_dot: "label_byte b \<Longrightarrow> b \<noteq> 0x2E"
  by (auto simp: label_byte_def digit_byte_def)

lemma label_prefix_snoc:
  "label_prefix p \<Longrightarrow> label_prefix (p @ [b]) \<longleftrightarrow> label_byte b \<and> length p < 63 \<and> (p = [] \<longrightarrow> b \<noteq> 0x2D)"
  by (auto simp: label_prefix_def hd_append)

lemma dns_id_byte_label:
  assumes "label_prefix p" "b \<noteq> 0x2E"
  shows "dns_id_byte id_role first b (dns_state d p n) =
     (if label_prefix (p @ [b]) then Some (dns_state d (p @ [b]) n) else None)"
proof -
  have "\<not> digit_byte 0x2D" by (simp add: digit_byte_def)
  then show ?thesis
    unfolding label_prefix_snoc [OF assms(1)]
    using assms(2) by (auto simp: dns_id_byte_def dns_state_def label_byte_def digit_byte_def MAX_LABEL_LENGTH_def Let_def)
qed

lemma dns_id_byte_dot:
  assumes "label_prefix p"
  shows "dns_id_byte id_role False 0x2E (dns_state d p n) =
     (if valid_label p then Some (dns_state (d + 1) [] (list_all digit_byte p)) else None)"
  using assms by (auto simp: dns_id_byte_def dns_state_def valid_label_def)

lemma label_prefix_no_dot: "label_prefix p \<Longrightarrow> 0x2E \<notin> set p"
  by (auto simp: label_prefix_def list_all_iff dest: label_byte_not_dot)

lemma label_prefix_append: "label_prefix (p @ q) \<Longrightarrow> label_prefix p"
  by (cases p) (auto simp: label_prefix_def)

lemma bad_prefix:
  assumes "\<not> label_prefix p" "0x2E \<notin> set p"
  shows "\<not> (list_all valid_label (butlast (split_dots (p @ bs))) \<and> label_prefix (last (split_dots (p @ bs))))"
proof -
  obtain l ls where s: "split_dots (p @ bs) = (p @ l) # ls" using split_dots_append [OF assms(2)] by blast
  have "\<not> label_prefix (p @ l)" using assms(1) label_prefix_append by blast
  then show ?thesis by (auto simp: s valid_label_def)
qed

text \<open>Where the loop ends, by the labels of what it has read.\<close>

definition dns_end :: "nat \<Rightarrow> bool \<Rightarrow> bytes list \<Rightarrow> (nat \<times> nat \<times> bool \<times> bool) option" where
  "dns_end d n ls =
     (if list_all valid_label (butlast ls) \<and> label_prefix (last ls)
      then Some (dns_state (d + length (tl ls)) (last ls) (if tl ls = [] then n else list_all digit_byte (last (butlast ls))))
      else None)"

lemma dns_end_Cons:
  "ls \<noteq> [] \<Longrightarrow> dns_end d n (p # ls) = (if valid_label p then dns_end (d + 1) (list_all digit_byte p) ls else None)"
  by (cases ls) (auto simp: dns_end_def)

lemma dns_end_single: "label_prefix p \<Longrightarrow> dns_end d n [p] = Some (dns_state d p n)"
  by (simp add: dns_end_def)

lemma dns_id_loop_labels:
  assumes "label_prefix p" "input \<noteq> []"
  shows "dns_id_loop id_role False (dns_state d p n) input = dns_end d n (split_dots (p @ input))"
  using assms
proof (induction input arbitrary: p d n)
  case (Cons b input)
  note p = label_prefix_no_dot [OF Cons.prems(1)]
  show ?case
  proof (cases "b = 0x2E")
    case True
    have "dns_id_loop id_role False (dns_state (d + 1) [] m) input = dns_end (d + 1) m (split_dots input)" if "input \<noteq> []" for m
      using Cons.IH [of "[]" "d + 1" m] that by (simp add: label_prefix_def)
    moreover have "dns_end (d + 1) m [[]] = Some (dns_state (d + 1) [] m)" for m
      by (simp add: dns_end_single label_prefix_def)
    ultimately show ?thesis
      using True p by (simp add: dns_id_byte_dot [OF Cons.prems(1)] dns_end_Cons)
  next
    case False
    have split: "split_dots (p @ b # input) = split_dots ((p @ [b]) @ input)" by simp
    show ?thesis
    proof (cases "label_prefix (p @ [b])")
      case True
      then show ?thesis
        using Cons.IH [OF True] dns_end_single [OF True] label_prefix_no_dot [OF True] False
        by (auto simp: dns_id_byte_label [OF Cons.prems(1) False] split simp del: append_assoc)
    next
      case False': False
      have "0x2E \<notin> set (p @ [b])" using p False by simp
      from bad_prefix [OF False' this] show ?thesis
        unfolding split by (auto simp: dns_id_byte_label [OF Cons.prems(1) False] False' dns_end_def)
    qed
  qed
qed simp

lemma dns_id_loop_first:
  assumes "hd input \<noteq> 0x2E \<or> id_role \<noteq> NameConstraint"
  shows "dns_id_loop id_role True st input = dns_id_loop id_role False st input"
proof (cases input)
  case (Cons b bs)
  have "dns_id_byte id_role True b st = dns_id_byte id_role False b st"
    by (cases st) (use assms Cons in \<open>auto simp: dns_id_byte_def\<close>)
  with Cons show ?thesis by simp
qed simp

text \<open>The checks behind the loop.\<close>

definition dns_accept :: "IDRole \<Rightarrow> bool \<Rightarrow> (nat \<times> nat \<times> bool \<times> bool) option \<Rightarrow> bool" where
  "dns_accept id_role wildcard st =
     (case st of
        None \<Rightarrow> False
      | Some (dots, len, numeric, hyphen) \<Rightarrow>
          (len = 0 \<longrightarrow> id_role = ReferenceID) \<and> \<not> hyphen \<and> \<not> numeric \<and> (wildcard \<longrightarrow> 3 \<le> (if len = 0 then dots else dots + 1)))"

lemma dns_accept_end:
  assumes "ls \<noteq> []" "id_role = ReferenceID \<longrightarrow> ls \<noteq> [[]]" "wildcard \<longrightarrow> d = 1"
  shows "dns_accept id_role wildcard (dns_end d n ls) \<longleftrightarrow>
     (let ls' = (if id_role = ReferenceID \<and> last ls = [] then butlast ls else ls) in
      ls' \<noteq> [] \<and> list_all valid_label ls' \<and> \<not> list_all digit_byte (last ls') \<and> (wildcard \<longrightarrow> 2 \<le> length ls'))"
proof -
  obtain ms l where ls: "ls = ms @ [l]" using assms(1) by (metis append_butlast_last_id)
  have tl: "length (tl ls) = length ms" by (simp add: ls)
  show ?thesis
  proof (cases "l = []")
    case True
    have "tl ls = [] \<longleftrightarrow> ms = []" by (cases ms) (simp_all add: ls)
    with True show ?thesis
      using assms(2, 3) tl by (auto simp: dns_end_def dns_accept_def dns_state_def Let_def ls label_prefix_def valid_label_def)
  next
    case False
    then have "label_prefix l \<and> last l \<noteq> 0x2D \<longleftrightarrow> valid_label l" by (simp add: valid_label_def)
    with False show ?thesis
      using assms(3) tl by (auto simp: dns_end_def dns_accept_def dns_state_def Let_def ls)
  qed
qed

lemma first_label_star: "hd (split_dots h) = [0x2A] \<longleftrightarrow> h = [0x2A] \<or> take 2 h = [0x2A, 0x2E]"
proof (cases h rule: split_dots.cases)
  case (2 b bs)
  show ?thesis
  proof (cases bs)
    case (Cons c cs)
    then show ?thesis
      using 2 split_dots_nonempty [of cs] by (auto split: list.splits if_splits)
  qed (use 2 in auto)
qed simp

lemma first_label_empty: "h \<noteq> [] \<Longrightarrow> hd (split_dots h) = [] \<longleftrightarrow> hd h = 0x2E"
  using split_dots_nonempty [of "tl h"] by (cases h) (auto split: list.splits)

lemma split_dots_single_empty: "split_dots h = [[]] \<longleftrightarrow> h = []"
  using split_dots_inject [of h "[]"] by simp

lemma is_valid_dns_id_accept:
  "is_valid_dns_id h id_role w \<longleftrightarrow>
     length h \<le> 253 \<and>
     (id_role = NameConstraint \<and> h = [] \<or>
      (let wildcard = (w = AllowWildcards_Yes \<and> h \<noteq> [] \<and> hd h = 0x2A) in
       (wildcard \<longrightarrow> take 2 h = [0x2A, 0x2E]) \<and>
       dns_accept id_role wildcard
         (dns_id_loop id_role (\<not> wildcard) (dns_state (if wildcard then 1 else 0) [] False) (if wildcard then drop 2 h else h))))"
proof -
  have accept: "(case st of None \<Rightarrow> False
      | Some (dots, len, numeric, hyphen) \<Rightarrow>
          if len = 0 \<and> id_role \<noteq> ReferenceID then False else if hyphen then False else if numeric then False
          else if wc \<and> (if len = 0 then dots else dots + 1) < 3 then False else True) = dns_accept id_role wc st" for st wc
    by (cases st) (auto simp: dns_accept_def)
  have start: "(if wc then 1 else 0, 0, False, False) = dns_state (if wc then 1 else 0) [] False" for wc
    by (simp add: dns_state_def)
  show ?thesis
    unfolding is_valid_dns_id_def Let_def accept start by (cases "253 < length h") auto
qed

lemma loop_start:
  assumes "h \<noteq> []"
  shows "dns_id_loop id_role True (dns_state 0 [] False) h =
     (if id_role = NameConstraint \<and> hd h = 0x2E then dns_end 1 False (split_dots (tl h)) else dns_end 0 False (split_dots h))"
proof (cases "id_role = NameConstraint \<and> hd h = 0x2E")
  case True
  then obtain bs where h: "h = 0x2E # bs" using assms by (cases h) auto
  have "dns_id_byte NameConstraint True 0x2E (dns_state 0 [] False) = Some (dns_state 1 [] False)"
    by (simp add: dns_id_byte_def dns_state_def)
  moreover have "label_prefix []" by (simp add: label_prefix_def)
  ultimately show ?thesis
    using True dns_id_loop_labels [of "[]" bs NameConstraint 1 False] by (auto simp: h dns_end_single)
next
  case False
  then show ?thesis
    using dns_id_loop_labels [of "[]" h id_role 0 False] assms by (auto simp: dns_id_loop_first label_prefix_def)
qed

lemma star_not_label: "\<not> valid_label (0x2A # l)"
  by (simp add: valid_label_def label_prefix_def label_byte_def digit_byte_def)

lemma valid_name_star:
  assumes "hd h = 0x2A" "h \<noteq> []" "take 2 h \<noteq> [0x2A, 0x2E]"
  shows "\<not> valid_name h id_role w"
proof -
  obtain bs where h: "h = 0x2A # bs" using assms(1, 2) by (cases h) auto
  obtain l ls where s: "split_dots h = (0x2A # l) # ls"
    using split_dots_append [of "[0x2A]" bs] by (auto simp: h)
  show ?thesis
  proof (cases "h = [0x2A]")
    case True
    then show ?thesis by (auto simp: valid_name_def proper_labels_def Let_def valid_label_def label_prefix_def label_byte_def digit_byte_def)
  next
    case False
    then have "hd (split_dots h) \<noteq> [0x2A]" using assms(3) by (simp add: first_label_star)
    then show ?thesis
      using star_not_label assms(2) by (auto simp: valid_name_def proper_labels_def Let_def s split: if_splits)
  qed
qed

lemma valid_wildcard:
  assumes "take 2 h = [0x2A, 0x2E]"
  shows "is_valid_dns_id h id_role AllowWildcards_Yes = valid_name h id_role AllowWildcards_Yes"
proof -
  obtain bs where h: "h = 0x2A # 0x2E # bs" using assms by (cases h; cases "tl h") auto
  have split: "split_dots h = [0x2A] # split_dots bs" using split_dots_dot [of "[0x2A]" bs] by (simp add: h)
  show ?thesis
  proof (cases "bs = []")
    case True
    then show ?thesis
      by (auto simp: is_valid_dns_id_accept valid_name_def proper_labels_def Let_def h dns_accept_def valid_label_def)
  next
    case False
    then have "split_dots bs \<noteq> [[]]" by (simp add: split_dots_single_empty)
    moreover have "dns_id_loop id_role False (dns_state 1 [] False) bs = dns_end 1 False (split_dots bs)"
      using dns_id_loop_labels [of "[]" bs id_role 1 False] False by (simp add: label_prefix_def)
    ultimately show ?thesis
      unfolding is_valid_dns_id_accept valid_name_def split
      by (simp add: h Let_def dns_accept_end proper_labels_def)
  qed
qed

lemma valid_plain:
  assumes h: "h \<noteq> []" and plain: "\<not> (w = AllowWildcards_Yes \<and> hd h = 0x2A)"
  shows "is_valid_dns_id h id_role w = valid_name h id_role w"
proof -
  have star: "\<not> (w = AllowWildcards_Yes \<and> hd (split_dots h) = [0x2A])"
    using plain h unfolding first_label_star by (cases h) auto
  have ref: "split_dots h \<noteq> [[]]" using h by (simp add: split_dots_single_empty)
  have dot: "split_dots h = [] # split_dots (tl h)" if "hd h = 0x2E" using h that by (cases h) auto
  have start: "is_valid_dns_id h id_role w \<longleftrightarrow> length h \<le> 253 \<and> dns_accept id_role False (dns_id_loop id_role True (dns_state 0 [] False) h)"
    unfolding is_valid_dns_id_accept Let_def using h plain by auto
  show ?thesis
  proof (cases "id_role = NameConstraint \<and> hd h = 0x2E")
    case True
    then show ?thesis
      unfolding start loop_start [OF h] valid_name_def using h dot star
      by (simp add: dns_accept_end proper_labels_def)
  next
    case False
    then show ?thesis
      unfolding start loop_start [OF h] valid_name_def using h star ref
      by (auto simp: dns_accept_end proper_labels_def first_label_empty)
  qed
qed

lemma valid_dns_id_iff:
  "is_valid_dns_id hostname id_role allow_wildcards = valid_name hostname id_role allow_wildcards"
proof -
  consider "hostname = []" | "allow_wildcards = AllowWildcards_Yes" "take 2 hostname = [0x2A, 0x2E]"
    | "hostname \<noteq> []" "allow_wildcards = AllowWildcards_Yes" "hd hostname = 0x2A" "take 2 hostname \<noteq> [0x2A, 0x2E]"
    | "hostname \<noteq> []" "\<not> (allow_wildcards = AllowWildcards_Yes \<and> hd hostname = 0x2A)"
    by blast
  then show ?thesis
  proof cases
    case 1
    then show ?thesis
      by (auto simp: is_valid_dns_id_accept valid_name_def dns_accept_def proper_labels_def Let_def valid_label_def)
  next
    case 2
    then show ?thesis by (simp add: valid_wildcard)
  next
    case 3
    then show ?thesis using valid_name_star [OF 3(3, 1, 4)] by (auto simp: is_valid_dns_id_accept Let_def)
  next
    case 4
    then show ?thesis by (rule valid_plain)
  qed
qed

text \<open>
  C15: the bytes of a DNS name are accepted exactly when the name is valid, for every role of the
  name and with or without wildcards: at most 253 bytes; labels of 1 to 63 letters, digits,
  underscores and hyphens, not starting or ending with a hyphen; a last label that is not a
  number; a wildcard only as the whole first label, before two labels at least; a dot in front
  only of a constraint and one at the end only of a reference.
\<close>
theorem is_valid_dns_id_correct:
  "is_valid_dns_id hostname id_role allow_wildcards = valid_name hostname id_role allow_wildcards"
  by (rule valid_dns_id_iff)

section \<open>Matching a reference name\<close>

definition dns_labels :: "bytes \<Rightarrow> bytes list" where
  "dns_labels h = map (map ascii_lower) (split_dots h)"

text \<open>A reference without the dot at its end.\<close>

definition relative :: "bytes \<Rightarrow> bytes" where
  "relative r = (if r \<noteq> [] \<and> last r = 0x2E then butlast r else r)"

text \<open>Two names match if their labels do, up to case, where a wildcard matches any one label.\<close>

definition names_match :: "bytes \<Rightarrow> bytes \<Rightarrow> bool" where
  "names_match p r \<longleftrightarrow>
     dns_labels p = dns_labels (relative r) \<or>
     hd (dns_labels p) = [0x2A] \<and> tl (dns_labels p) = tl (dns_labels (relative r))"

lemma ascii_lower_fix:
  "ascii_lower b = 0x2E \<longleftrightarrow> b = 0x2E" "ascii_lower b = 0x2A \<longleftrightarrow> b = 0x2A"
proof -
  have "(ascii_lower b = c \<longleftrightarrow> b = c)" if c: "unat c < 65" for c
  proof (cases "0x41 \<le> b \<and> b \<le> 0x5A")
    case True
    then have u: "unat b \<ge> 65" "unat b \<le> 90" by (simp_all add: word_le_nat_alt)
    have "ascii_lower b = b + 0x20" using True by (simp add: ascii_lower_def)
    moreover have "unat (b + 0x20) = unat b + 32" using u by (subst unat_add_eq) simp_all
    ultimately show ?thesis using u c by (auto simp: word_unat_eq_iff)
  qed (auto simp: ascii_lower_def)
  from this [of "0x2E"] this [of "0x2A"]
  show "ascii_lower b = 0x2E \<longleftrightarrow> b = 0x2E" "ascii_lower b = 0x2A \<longleftrightarrow> b = 0x2A" by simp_all
qed

lemma dns_labels_lower: "dns_labels h = split_dots (map ascii_lower h)"
  by (simp add: dns_labels_def split_dots_map ascii_lower_fix)

lemma compare_ids_run:
  "ps \<noteq> [] \<Longrightarrow> last ps \<noteq> 0x2E \<Longrightarrow> compare_ids ps rs =
     (if length ps \<le> length rs \<and> map ascii_lower ps = map ascii_lower (take (length ps) rs)
      then Inr (drop (length ps) rs) else Inl (Some False))"
  by (induction ps rs rule: compare_ids.induct) auto

text \<open>The comparison with a reference, from the wildcard on.\<close>

definition match_rest :: "bytes \<Rightarrow> bytes \<Rightarrow> bool option" where
  "match_rest ps rs = Some (map ascii_lower ps = map ascii_lower (relative rs))"

lemma relative_append:
  assumes "qs \<noteq> []" "last qs \<noteq> 0x2E"
  shows "rest = [] \<or> rest = [0x2E] \<Longrightarrow> relative (qs @ rest) = qs"
    and "length (relative (qs @ rest)) = length qs \<Longrightarrow> rest = [] \<or> rest = [0x2E]"
proof -
  show "rest = [] \<or> rest = [0x2E] \<Longrightarrow> relative (qs @ rest) = qs"
    using assms by (auto simp: relative_def)
  assume len: "length (relative (qs @ rest)) = length qs"
  show "rest = [] \<or> rest = [0x2E]"
  proof (cases rest rule: rev_cases)
    case (snoc xs x)
    then have "relative (qs @ rest) = (if x = 0x2E then qs @ xs else qs @ xs @ [x])" 
      by (simp add: relative_def butlast_append)
    with len snoc show ?thesis by (auto split: if_splits)
  qed simp
qed

lemma compare_reference:
  assumes "ps \<noteq> []" "last ps \<noteq> 0x2E"
  shows "(case compare_ids ps rs of
     Inl res \<Rightarrow> res
   | Inr reference \<Rightarrow>
       if reference \<noteq> [] \<and> ReferenceID \<noteq> NameConstraint \<and> hd reference \<noteq> 0x2E then Some False
       else
         (let reference = (if reference \<noteq> [] \<and> ReferenceID \<noteq> NameConstraint then tl reference else reference) in
          if reference \<noteq> [] then Some False else Some True)) = match_rest ps rs"
proof -
  have prefix: "\<exists>k. relative rs = take k rs \<and> k \<le> length rs \<and> length rs \<le> Suc k"
    by (rule exI [of _ "if rs \<noteq> [] \<and> last rs = 0x2E then length rs - 1 else length rs"])
      (auto simp: relative_def butlast_conv_take)
  then obtain k where k: "relative rs = take k rs" "k \<le> length rs" "length rs \<le> Suc k" by blast
  show ?thesis
  proof (cases "length ps \<le> length rs \<and> map ascii_lower ps = map ascii_lower (take (length ps) rs)")
    case False
    have "map ascii_lower ps \<noteq> map ascii_lower (relative rs)"
    proof
      assume eq: "map ascii_lower ps = map ascii_lower (relative rs)"
      then have "length ps = k" using k(1, 2) by (metis length_map length_take min_absorb2)
      with eq k False show False by simp
    qed
    then show ?thesis unfolding compare_ids_run [OF assms] if_not_P [OF False] match_rest_def by simp
  next
    case True
    define qs rest where "qs = take (length ps) rs" and "rest = drop (length ps) rs"
    have rs: "rs = qs @ rest" "length qs = length ps" and eq: "map ascii_lower ps = map ascii_lower qs"
      using True by (simp_all add: qs_def rest_def)
    have ne: "qs \<noteq> []" using rs(2) assms(1) by auto
    have "ascii_lower (last ps) = ascii_lower (last qs)"
      using arg_cong [OF eq, of last] assms(1) ne by (simp add: last_map)
    then have "last qs \<noteq> 0x2E" using assms(2) ascii_lower_fix(1) by metis
    moreover have len: "length xs = length qs" if "map ascii_lower ps = map ascii_lower xs" for xs
      using arg_cong [OF that, of length] rs(2) by simp
    ultimately have "map ascii_lower ps = map ascii_lower (relative rs) \<longleftrightarrow> rest = [] \<or> rest = [0x2E]"
      using eq relative_append [OF ne, of rest] len [of "relative rs"] unfolding rs(1) by metis
    then show ?thesis
      unfolding compare_ids_run [OF assms] if_P [OF True] match_rest_def rest_def [symmetric]
      by (cases rest; cases "tl rest") simp_all
  qed
qed

lemma skip_label_run:
  assumes "r \<noteq> []" "hd r \<noteq> 0x2E"
  shows "skip_label r = (case tl (split_dots r) of [] \<Rightarrow> None | _ \<Rightarrow> Some (drop (length (hd (split_dots r))) r))"
  using assms
proof (induction r rule: skip_label.induct)
  case (2 b r)
  obtain l ls where s: "split_dots r = l # ls" using split_dots_nonempty [of r] by (meson neq_Nil_conv)
  show ?case
  proof (cases "r = [] \<or> hd r = 0x2E")
    case True
    then show ?thesis using 2 s by (cases r) (auto split: list.splits)
  next
    case False
    then show ?thesis using 2 s by (auto split: list.splits)
  qed
qed simp

lemma split_dots_join: "tl (split_dots r) \<noteq> [] \<Longrightarrow> \<exists>rest. r = hd (split_dots r) @ 0x2E # rest \<and> tl (split_dots r) = split_dots rest"
proof (induction r)
  case (Cons b r)
  obtain l ls where s: "split_dots r = l # ls" using split_dots_nonempty [of r] by (meson neq_Nil_conv)
  show ?case
  proof (cases "b = 0x2E")
    case False
    with Cons.prems s have "ls \<noteq> []" by simp
    with Cons.IH s False show ?thesis by auto
  qed simp
qed simp

lemma last_label: "last (split_dots h) \<noteq> [] \<Longrightarrow> h \<noteq> [] \<and> last h \<noteq> 0x2E"
proof (induction h)
  case (Cons b h)
  obtain l ls where s: "split_dots h = l # ls" using split_dots_nonempty [of h] by (meson neq_Nil_conv)
  show ?case
  proof (cases "h = []")
    case True
    then show ?thesis using Cons.prems by auto
  next
    case False
    have "last (split_dots h) \<noteq> []"
    proof (cases "ls = [] \<and> l = []")
      case True
      then show ?thesis using False s split_dots_single_empty [of h] by simp
    next
      case False
      then show ?thesis using Cons.prems s by (auto split: if_splits)
    qed
    then show ?thesis using Cons.IH False by simp
  qed
qed simp

lemma valid_presented:
  assumes "valid_name p PresentedID AllowWildcards_Yes"
  shows "p \<noteq> []" "last p \<noteq> 0x2E" "hd p = 0x2A \<Longrightarrow> \<exists>q. p = 0x2A # 0x2E # q \<and> q \<noteq> [] \<and> last q \<noteq> 0x2E"
proof -
  let ?wc = "hd (split_dots p) = [0x2A]"
  let ?ls = "if ?wc then tl (split_dots p) else split_dots p"
  have ls: "?ls \<noteq> []" "list_all valid_label ?ls"
    using assms unfolding valid_name_def proper_labels_def Let_def by simp_all
  have "last ?ls = last (split_dots p)" using ls(1) by (simp add: last_tl split: if_splits)
  moreover have "valid_label (last ?ls)" using ls last_in_set [OF ls(1)] unfolding list_all_iff by blast
  ultimately have "last (split_dots p) \<noteq> []" unfolding valid_label_def by simp
  then show p: "p \<noteq> []" "last p \<noteq> 0x2E" using last_label by blast+
  assume star: "hd p = 0x2A"
  have "take 2 p = [0x2A, 0x2E]" using valid_name_star [OF star p(1)] assms by blast
  then obtain q where q: "p = 0x2A # 0x2E # q" by (cases p; cases "tl p") auto
  then show "\<exists>q. p = 0x2A # 0x2E # q \<and> q \<noteq> [] \<and> last q \<noteq> 0x2E" using p(2) by (auto split: if_splits)
qed

lemma valid_reference:
  assumes "valid_name r ReferenceID AllowWildcards_No"
  shows "r \<noteq> []" "hd r \<noteq> 0x2E"
proof -
  show r: "r \<noteq> []" using assms by (auto simp: valid_name_def proper_labels_def Let_def)
  let ?ls = "proper_labels (split_dots r) ReferenceID False"
  have ls: "?ls \<noteq> []" "list_all valid_label ?ls" using assms unfolding valid_name_def Let_def by simp_all
  have "hd (butlast xs) = hd xs" if "butlast xs \<noteq> []" for xs :: "bytes list"
    using that by (cases xs) auto
  then have "hd ?ls = hd (split_dots r)"
    using ls(1) by (simp add: proper_labels_def Let_def split: if_splits)
  moreover have "valid_label (hd ?ls)" using ls hd_in_set [OF ls(1)] unfolding list_all_iff by blast
  ultimately have "hd (split_dots r) \<noteq> []" unfolding valid_label_def by simp
  then show "hd r \<noteq> 0x2E" using r by (simp add: first_label_empty)
qed

lemma labels_star: "hd (dns_labels p) = [0x2A] \<Longrightarrow> p \<noteq> [] \<and> hd p = 0x2A"
  unfolding dns_labels_lower first_label_star using ascii_lower_fix(2) by (cases p) auto

lemma match_plain:
  assumes "p \<noteq> []" "last p \<noteq> 0x2E" "hd p \<noteq> 0x2A"
  shows "match_ids ReferenceID p r = Some (names_match p r)"
proof -
  have "match_ids ReferenceID p r = match_rest p r"
    unfolding match_ids_def using compare_reference [OF assms(1, 2)] assms(3) by simp
  moreover have "hd (dns_labels p) \<noteq> [0x2A]" using labels_star assms(3) by blast
  ultimately show ?thesis by (simp add: match_rest_def names_match_def dns_labels_lower split_dots_inject)
qed

lemma relative_Cons: "rest \<noteq> [] \<Longrightarrow> relative (b # rest) = b # relative rest"
  by (simp add: relative_def)

lemma relative_append_Cons: "rest \<noteq> [] \<Longrightarrow> relative (l @ b # rest) = l @ b # relative rest"
  by (simp add: relative_def butlast_append)

lemma dns_labels_star: "dns_labels (0x2A # 0x2E # q) = [0x2A] # dns_labels q"
  using split_dots_dot [of "[0x2A]" q] ascii_lower_fix(2) [of "0x2A"] by (simp add: dns_labels_def)

lemma dns_labels_dot: "0x2E \<notin> set l \<Longrightarrow> dns_labels (l @ 0x2E # r) = map ascii_lower l # dns_labels r"
  by (simp add: dns_labels_def)

lemma dns_labels_nonempty [simp]: "dns_labels r \<noteq> []"
  by (simp add: dns_labels_def)

lemma match_wildcard:
  assumes q: "q \<noteq> []" "last q \<noteq> 0x2E" and r: "r \<noteq> []" "hd r \<noteq> 0x2E"
  shows "match_ids ReferenceID (0x2A # 0x2E # q) r = Some (names_match (0x2A # 0x2E # q) r)"
proof (cases "tl (split_dots r) = []")
  case True
  then obtain l where l: "split_dots r = [l]" using split_dots_nonempty [of r] by (cases "split_dots r") auto
  then have dot: "0x2E \<notin> set l" using split_dots_no_dot [of l r] by simp
  then have "split_dots r = split_dots l" using l by simp
  then have "r = l" unfolding split_dots_inject .
  then have dot: "0x2E \<notin> set r" using dot by simp
  then have "last r \<noteq> 0x2E" using last_in_set [OF r(1)] by metis
  then have "relative r = r" by (simp add: relative_def)
  then have "\<not> names_match (0x2A # 0x2E # q) r"
    using dot by (simp add: names_match_def dns_labels_star dns_labels_def)
  then show ?thesis using True by (simp add: match_ids_def skip_label_run [OF r])
next
  case False
  then obtain l rest where l: "l = hd (split_dots r)" "r = l @ 0x2E # rest" using split_dots_join by blast
  have dot: "0x2E \<notin> set l" using split_dots_no_dot [of l r] l(1) by simp
  have "skip_label r = Some (drop (length l) r)"
    using False unfolding skip_label_run [OF r] l(1) by (cases "tl (split_dots r)") simp_all
  moreover have "drop (length l) r = 0x2E # rest" by (subst l(2)) simp
  ultimately have run: "match_ids ReferenceID (0x2A # 0x2E # q) r = match_rest (0x2E # q) (0x2E # rest)"
    unfolding match_ids_def using compare_reference [of "0x2E # q" "0x2E # rest"] q by simp
  show ?thesis
  proof (cases "rest = []")
    case True
    then have "relative r = l" by (simp add: relative_def l(2))
    then show ?thesis
      unfolding run using True dot by (auto simp: match_rest_def names_match_def dns_labels_star relative_def dns_labels_def)
  next
    case False
    have "dns_labels (relative r) = map ascii_lower l # dns_labels (relative rest)"
      unfolding l(2) relative_append_Cons [OF False] using dot by (rule dns_labels_dot)
    then have "names_match (0x2A # 0x2E # q) r \<longleftrightarrow> dns_labels q = dns_labels (relative rest)"
      by (auto simp: names_match_def dns_labels_star)
    then show ?thesis
      unfolding run match_rest_def relative_Cons [OF False] by (simp add: dns_labels_lower split_dots_inject)
  qed
qed


section \<open>Wildcards and name constraints\<close>

lemma valid_label_facts:
  assumes "valid_label l"
  shows "l \<noteq> []" "0x2E \<notin> set l" "hd l \<noteq> 0x2A" "hd l \<noteq> 0x2E"
proof -
  show l: "l \<noteq> []" and dot: "0x2E \<notin> set l" using assms label_prefix_no_dot by (auto simp: valid_label_def)
  show "hd l \<noteq> 0x2A" using l star_not_label assms by (metis list.exhaust_sel)
  show "hd l \<noteq> 0x2E" using l dot by (metis list.set_sel(1))
qed

lemma valid_under:
  assumes star: "valid_name (0x2A # 0x2E # q) PresentedID AllowWildcards_Yes"
    and l: "valid_label l" and len: "length l + length q < 253"
  shows "valid_name (l @ 0x2E # q) id_role w"
proof -
  have s: "split_dots (0x2A # 0x2E # q) = [0x2A] # split_dots q" using split_dots_dot [of "[0x2A]" q] by simp
  have q: "list_all valid_label (split_dots q)" "\<not> list_all digit_byte (last (split_dots q))"
    using star unfolding valid_name_def proper_labels_def Let_def s by simp_all
  have "valid_label (last (split_dots q))" using q(1) last_in_set [OF split_dots_nonempty] unfolding list_all_iff by blast
  then have "last (split_dots q) \<noteq> []" by (simp add: valid_label_def)
  moreover have "l \<noteq> []" "l \<noteq> [0x2A]" "0x2E \<notin> set l" using valid_label_facts [OF l] by auto
  ultimately show ?thesis
    using q l len unfolding valid_name_def proper_labels_def Let_def by simp
qed

lemma match_constraint:
  assumes "p \<noteq> []" "last p \<noteq> 0x2E" "hd p \<noteq> 0x2A"
    and "\<not> (length p \<le> length r \<and> map ascii_lower p = map ascii_lower (take (length p) r))"
  shows "match_ids NameConstraint p r = Some False"
  unfolding match_ids_def using assms(3) compare_ids_run [OF assms(1, 2), of r] assms(4) by simp

lemma match_star_constraint:
  assumes l: "valid_label l" and q: "q \<noteq> []" "last q \<noteq> 0x2E"
  shows "match_ids NameConstraint (0x2A # 0x2E # q) (l @ 0x2E # q) = Some True"
proof -
  have "skip_label (l @ 0x2E # q) = Some (0x2E # q)"
    using skip_label_run [of "l @ 0x2E # q"] valid_label_facts [OF l] by (simp split: list.splits)
  then show ?thesis
    unfolding match_ids_def using compare_ids_run [of "0x2E # q" "0x2E # q"] q by simp
qed

lemma other_label_constraint:
  assumes l: "valid_label l" and l': "valid_label l'" and ne: "map ascii_lower l \<noteq> map ascii_lower l'"
    and q: "q \<noteq> []" "last q \<noteq> 0x2E" and le: "length l' \<le> length l"
  shows "match_ids NameConstraint (l' @ 0x2E # q) (l @ 0x2E # q) = Some False"
proof (rule match_constraint)
  note f = valid_label_facts [OF l] and f' = valid_label_facts [OF l']
  show "l' @ 0x2E # q \<noteq> []" "last (l' @ 0x2E # q) \<noteq> 0x2E" "hd (l' @ 0x2E # q) \<noteq> 0x2A" using q f' by simp_all
  show "\<not> (length (l' @ 0x2E # q) \<le> length (l @ 0x2E # q) \<and>
      map ascii_lower (l' @ 0x2E # q) = map ascii_lower (take (length (l' @ 0x2E # q)) (l @ 0x2E # q)))"
  proof (cases "length l' = length l")
    case True
    then show ?thesis using ne by auto
  next
    case False
    with le have lt: "length l' < length l" by simp
    have "ascii_lower (l ! length l') \<noteq> ascii_lower 0x2E"
      using f(2) lt ascii_lower_fix(1) by (metis nth_mem)
    moreover have "map ascii_lower (take (length (l' @ 0x2E # q)) (l @ 0x2E # q)) ! length l' = ascii_lower (l ! length l')"
      using lt by (simp add: nth_append)
    moreover have "map ascii_lower (l' @ 0x2E # q) ! length l' = ascii_lower 0x2E" by (simp add: nth_append)
    ultimately show ?thesis by metis
  qed
qed

text \<open>
  C38: a wildcard escapes a name constraint. Let an issuer be constrained to names under
  \<open>l.q\<close>. The wildcard \<open>*.q\<close> is found to be within the constraint, although it matches every
  \<open>l'.q\<close>, and a certificate that presents \<open>l'.q\<close> itself is found to be outside.
\<close>
theorem wildcard_escapes_constraint:
  assumes star: "valid_name (0x2A # 0x2E # q) PresentedID AllowWildcards_Yes"
    and l: "valid_label l" "length l + length q < 253" and l': "valid_label l'" "length l' + length q < 253"
    and ne: "map ascii_lower l \<noteq> map ascii_lower l'"
  shows "presented_dns_id_matches_dns_id_constraint (0x2A # 0x2E # q) (l @ 0x2E # q) = Ok (Some True) \<and>
     presented_dns_id_matches_reference_dns_id (0x2A # 0x2E # q) (l' @ 0x2E # q) = Ok (Some True) \<and>
     presented_dns_id_matches_dns_id_constraint (l' @ 0x2E # q) (l @ 0x2E # q) = Ok (Some False)"
proof -
  note f = valid_label_facts [OF l(1)] and f' = valid_label_facts [OF l'(1)]
  note valid = star valid_under [OF star l] valid_under [OF star l']
  have q: "q \<noteq> []" "last q \<noteq> 0x2E" using valid_presented(3) [OF star] by auto
  have "names_match (0x2A # 0x2E # q) (l' @ 0x2E # q)"
    using q f'(2) by (auto simp: names_match_def relative_def dns_labels_star dns_labels_dot)
  then have reference: "match_ids ReferenceID (0x2A # 0x2E # q) (l' @ 0x2E # q) = Some True"
    using match_wildcard [OF q, of "l' @ 0x2E # q"] f' by simp
  have "skip_prefix (l' @ 0x2E # q) (l @ 0x2E # q) = Inl (Some False)" if "length l < length l'"
  proof -
    have "drop (length l' - length l - 1) l' \<noteq> []" using that f'(1) by (simp add: not_le)
    then obtain b bs where b: "drop (length l' - length l - 1) l' = b # bs" by (meson neq_Nil_conv)
    then have "b \<in> set l'" by (metis in_set_dropD list.set_intros(1))
    then have "b \<noteq> 0x2E" using f'(2) by metis
    then show ?thesis using b f by (simp add: skip_prefix_def)
  qed
  then have outside: "presented_dns_id_matches_dns_id_constraint (l' @ 0x2E # q) (l @ 0x2E # q) = Ok (Some False)"
    using other_label_constraint [OF l(1) l'(1) ne q] valid
    by (simp add: presented_dns_id_matches_dns_id_constraint_def presented_dns_id_matches_reference_dns_id_internal_def valid_dns_id_iff)
  have "\<not> length (l @ 0x2E # q) < length (0x2A # 0x2E # q)" using f(1) by (cases l) auto
  with reference outside match_star_constraint [OF l(1) q] valid show ?thesis
    by (simp add: presented_dns_id_matches_dns_id_constraint_def presented_dns_id_matches_reference_dns_id_def
        presented_dns_id_matches_reference_dns_id_internal_def valid_dns_id_iff)
qed

theorem wildcard_escapes_constraint_witness:
  "presented_dns_id_matches_dns_id_constraint [0x2A, 0x2E, 0x65, 0x2E, 0x63] [0x61, 0x2E, 0x65, 0x2E, 0x63] = Ok (Some True) \<and>
   presented_dns_id_matches_reference_dns_id [0x2A, 0x2E, 0x65, 0x2E, 0x63] [0x62, 0x2E, 0x65, 0x2E, 0x63] = Ok (Some True) \<and>
   presented_dns_id_matches_dns_id_constraint [0x62, 0x2E, 0x65, 0x2E, 0x63] [0x61, 0x2E, 0x65, 0x2E, 0x63] = Ok (Some False)"
proof -
  have "valid_name [0x2A, 0x2E, 0x65, 0x2E, 0x63] PresentedID AllowWildcards_Yes" "valid_label [0x61]" "valid_label [0x62]"
    "map ascii_lower [0x61] \<noteq> map ascii_lower [0x62]"
    by code_simp+
  then show ?thesis using wildcard_escapes_constraint [of "[0x65, 0x2E, 0x63]" "[0x61]" "[0x62]"] by simp
qed

end
