(* ===== verification/Webpki_Verify.thy ===== *)
theory Webpki_Verify
  imports Webpki_Dns
begin

text \<open>
  \<open>utils/webpki\<close>: the search for a chain from an end-entity certificate to a trust anchor
  (\<open>verify_cert.rs\<close>), trust anchors from certificates (\<open>trust_anchor_util.rs\<close>) and the interface
  of the library (\<open>webpki.rs\<close>). An \<open>EndEntityCert\<close> is the certificate it wraps, the lists of
  trust anchors for servers and clients are lists. A \<open>usize\<close> is a natural number: the number of
  subordinate certificates is at most 6.
\<close>

section \<open>Properties of one certificate: verify_cert.rs\<close>

record TrustAnchor =
  ta_subject :: bytes
  ta_spki :: bytes
  ta_name_constraints :: "bytes option"

definition check_validity :: "Time \<Rightarrow> (unit, webpki_error) reader" where
  "check_validity time =
     rd_bind time_choice (\<lambda>not_before.
     rd_bind time_choice (\<lambda>not_after.
       if not_before > not_after then rd_err InvalidCertValidity
       else if time < not_before then rd_err CertNotValidYet
       else if time > not_after then rd_err CertExpired
       else rd_ret ()))"

datatype UsedAsCA = UsedAsCA_Yes | UsedAsCA_No

fun used_as_ca :: "EndEntityOrCA \<Rightarrow> UsedAsCA" where
  "used_as_ca EndEntity = UsedAsCA_No"
| "used_as_ca (CA _) = UsedAsCA_Yes"

definition read_basic_constraints :: "(bool \<times> nat option, webpki_error) reader" where
  "read_basic_constraints =
     rd_bind optional_boolean (\<lambda>is_ca.
     rd_bind at_end (\<lambda>ended.
       if \<not> ended then rd_bind small_nonnegative_integer (\<lambda>val. rd_ret (is_ca, Some (unat val)))
       else rd_ret (is_ca, None)))"

definition check_basic_constraints :: "UsedAsCA \<Rightarrow> nat \<Rightarrow> bytes option \<Rightarrow> (unit \<times> bytes, webpki_error) result" where
  "check_basic_constraints used sub_ca_count input =
     res_bind (case input of Some i \<Rightarrow> read_basic_constraints i | None \<Rightarrow> Ok ((False, None), []))
       (\<lambda>((is_ca, path_len_constraint), rest).
          case (used, is_ca, path_len_constraint) of
            (UsedAsCA_No, True, _) \<Rightarrow> Err CAUsedAsEndEntity
          | (UsedAsCA_Yes, False, _) \<Rightarrow> Err EndEntityUsedAsCA
          | (UsedAsCA_Yes, True, Some len) \<Rightarrow> if sub_ca_count > len then Err PathLenConstraintViolated else Ok ((), rest)
          | _ \<Rightarrow> Ok ((), rest))"

type_synonym KeyPurposeId = bytes

definition EKU_SERVER_AUTH :: KeyPurposeId where "EKU_SERVER_AUTH = [40 * 1 + 3, 6, 1, 5, 5, 7, 3, 1]"
definition EKU_CLIENT_AUTH :: KeyPurposeId where "EKU_CLIENT_AUTH = [40 * 1 + 3, 6, 1, 5, 5, 7, 3, 2]"
definition EKU_OCSP_SIGNING :: KeyPurposeId where "EKU_OCSP_SIGNING = [40 * 1 + 3, 6, 1, 5, 5, 7, 3, 9]"

function eku_loop :: "KeyPurposeId \<Rightarrow> (unit, webpki_error) reader" where
  "eku_loop required input =
     (case expect_tag_and_get_value OID input of
        Ok (val, rest) \<Rightarrow>
          if val = required then Ok ((), [])
          else if rest = [] then Err RequiredEKUNotFound
          else eku_loop required rest
      | Err e \<Rightarrow> Err e
      | Panic \<Rightarrow> Panic)"
  by pat_completeness auto

termination eku_loop
  by (relation "measure (\<lambda>(_, i). length i)") (auto simp: rd_inv tlv_def)

declare eku_loop.simps [simp del]

definition check_eku :: "KeyPurposeId \<Rightarrow> bytes option \<Rightarrow> (unit \<times> bytes, webpki_error) result" where
  "check_eku required_eku_if_present input =
     (case input of
        Some i \<Rightarrow> eku_loop required_eku_if_present i
      | None \<Rightarrow> if required_eku_if_present = EKU_OCSP_SIGNING then Err RequiredEKUNotFound else Ok ((), []))"

definition check_issuer_independent_properties ::
  "Cert \<Rightarrow> Time \<Rightarrow> UsedAsCA \<Rightarrow> nat \<Rightarrow> KeyPurposeId \<Rightarrow> (unit, webpki_error) result" where
  "check_issuer_independent_properties cert time used sub_ca_count required_eku_if_present =
     res_bind (read_all BadDER (check_validity time) (cert_validity cert)) (\<lambda>_.
     res_bind (read_all_optional BadDER (check_basic_constraints used sub_ca_count) (cert_basic_constraints cert)) (\<lambda>_.
     res_bind (read_all_optional BadDER (check_eku required_eku_if_present) (cert_eku cert)) (\<lambda>_.
     Ok ())))"

section \<open>Chains: verify_cert.rs\<close>

fun loop_while_non_fatal_error :: "'v list \<Rightarrow> ('v \<Rightarrow> (unit, webpki_error) result) \<Rightarrow> (unit, webpki_error) result" where
  "loop_while_non_fatal_error [] f = Err UnknownIssuer"
| "loop_while_non_fatal_error (v # values) f =
     (case f v of
        Ok _ \<Rightarrow> Ok ()
      | Err _ \<Rightarrow> loop_while_non_fatal_error values f
      | Panic \<Rightarrow> Panic)"

fun check_signatures :: "ring_verify \<Rightarrow> SignatureAlgorithm list \<Rightarrow> Cert \<Rightarrow> bytes \<Rightarrow> (unit, webpki_error) result" where
  "check_signatures verify algs (Cert ee_or_ca signed_data issuer validity subject spki bc eku nc san) spki_value =
     res_bind (verify_signed_data verify algs spki_value signed_data) (\<lambda>_.
       case ee_or_ca of
         CA child_cert \<Rightarrow> check_signatures verify algs child_cert spki
       | EndEntity \<Rightarrow> Ok ())"

text \<open>The loop that prevents loops: whether the issuer has the key and the name of a certificate below it.\<close>

fun occurs_below :: "Cert \<Rightarrow> Cert \<Rightarrow> bool" where
  "occurs_below potential_issuer (Cert ee_or_ca sd issuer validity subject spki bc eku nc san) =
     (if cert_spki potential_issuer = spki \<and> cert_subject potential_issuer = subject then True
      else (case ee_or_ca of EndEntity \<Rightarrow> False | CA child_cert \<Rightarrow> occurs_below potential_issuer child_cert))"

definition try_anchor ::
  "ring_verify \<Rightarrow> SignatureAlgorithm list \<Rightarrow> Cert \<Rightarrow> TrustAnchor \<Rightarrow> (unit, webpki_error) result" where
  "try_anchor verify supported_sig_algs cert trust_anchor =
     (if cert_issuer cert \<noteq> ta_subject trust_anchor then Err UnknownIssuer
      else
        res_bind (read_all_optional BadDER (check_name_constraints cert) (ta_name_constraints trust_anchor)) (\<lambda>_.
        check_signatures verify supported_sig_algs cert (ta_spki trust_anchor)))"

definition MAX_SUB_CA_COUNT :: nat where "MAX_SUB_CA_COUNT = 6"

lemma res_bind_cong [fundef_cong]:
  "r = r' \<Longrightarrow> (\<And>x. r' = Ok x \<Longrightarrow> f x = g x) \<Longrightarrow> res_bind r f = res_bind r' g"
  by (cases r') (simp_all add: res_bind_def)

lemma loop_while_cong [fundef_cong]:
  "vs = vs' \<Longrightarrow> (\<And>v. v \<in> set vs' \<Longrightarrow> f v = g v) \<Longrightarrow> loop_while_non_fatal_error vs f = loop_while_non_fatal_error vs' g"
  by (induction vs arbitrary: vs') (auto split: result.splits)

function build_chain ::
  "ring_verify \<Rightarrow> KeyPurposeId \<Rightarrow> SignatureAlgorithm list \<Rightarrow> TrustAnchor list \<Rightarrow> bytes list \<Rightarrow> Cert \<Rightarrow> Time \<Rightarrow> nat \<Rightarrow>
   (unit, webpki_error) result" where
  "build_chain verify required_eku_if_present supported_sig_algs trust_anchors intermediate_certs cert time sub_ca_count =
     (let used = used_as_ca (cert_ee_or_ca cert) in
      res_bind (check_issuer_independent_properties cert time used sub_ca_count required_eku_if_present) (\<lambda>_.
        if used = UsedAsCA_Yes \<and> sub_ca_count \<ge> MAX_SUB_CA_COUNT then Err UnknownIssuer
        else if used = UsedAsCA_No \<and> sub_ca_count \<noteq> 0 then Panic
        else
          (case loop_while_non_fatal_error trust_anchors (try_anchor verify supported_sig_algs cert) of
             Ok _ \<Rightarrow> Ok ()
           | Panic \<Rightarrow> Panic
           | Err _ \<Rightarrow>
               loop_while_non_fatal_error intermediate_certs (\<lambda>cert_der.
                 res_bind (parse_cert cert_der (CA cert)) (\<lambda>potential_issuer.
                   if cert_subject potential_issuer \<noteq> cert_issuer cert then Err UnknownIssuer
                   else if occurs_below potential_issuer cert then Err UnknownIssuer
                   else
                     res_bind (read_all_optional BadDER (check_name_constraints cert)
                                (cert_name_constraints potential_issuer)) (\<lambda>_.
                     build_chain verify required_eku_if_present supported_sig_algs trust_anchors intermediate_certs
                       potential_issuer time (if used = UsedAsCA_No then sub_ca_count else sub_ca_count + 1)))))))"
  by pat_completeness auto

lemma parse_cert_ee: "parse_cert cert_der ee = Ok cert \<Longrightarrow> cert_ee_or_ca cert = ee"
  by (auto simp: parse_cert_def parse_cert_internal_def rd_inv dest: parse_tbs_Ok)

lemma not_used_as_ca: "used \<noteq> UsedAsCA_Yes \<longleftrightarrow> used = UsedAsCA_No"
  by (cases used) simp_all

termination build_chain
  by (relation "measure (\<lambda>(_, _, _, _, _, cert, _, sub_ca_count).
        if used_as_ca (cert_ee_or_ca cert) = UsedAsCA_No then 8 else 7 - sub_ca_count)")
    (auto dest!: parse_cert_ee simp: MAX_SUB_CA_COUNT_def not_used_as_ca split: if_splits)

declare build_chain.simps [simp del]

section \<open>The interface: webpki.rs\<close>

type_synonym EndEntityCert = Cert

definition EndEntityCert_from :: "bytes \<Rightarrow> (EndEntityCert, webpki_error) result" where
  "EndEntityCert_from cert_der = parse_cert cert_der EndEntity"

definition verify_is_valid_tls_server_cert ::
  "ring_verify \<Rightarrow> EndEntityCert \<Rightarrow> SignatureAlgorithm list \<Rightarrow> TrustAnchor list \<Rightarrow> bytes list \<Rightarrow> Time \<Rightarrow> (unit, webpki_error) result" where
  "verify_is_valid_tls_server_cert verify cert supported_sig_algs trust_anchors intermediate_certs time =
     build_chain verify EKU_SERVER_AUTH supported_sig_algs trust_anchors intermediate_certs cert time 0"

definition verify_is_valid_tls_client_cert ::
  "ring_verify \<Rightarrow> EndEntityCert \<Rightarrow> SignatureAlgorithm list \<Rightarrow> TrustAnchor list \<Rightarrow> bytes list \<Rightarrow> Time \<Rightarrow> (unit, webpki_error) result" where
  "verify_is_valid_tls_client_cert verify cert supported_sig_algs trust_anchors intermediate_certs time =
     build_chain verify EKU_CLIENT_AUTH supported_sig_algs trust_anchors intermediate_certs cert time 0"

definition verify_is_valid_for_dns_name :: "EndEntityCert \<Rightarrow> DNSNameRef \<Rightarrow> (unit, webpki_error) result" where
  "verify_is_valid_for_dns_name cert dns_name = verify_cert_dns_name cert dns_name"

text \<open>A name for which the check panics makes the call panic.\<close>

definition verify_is_valid_for_at_least_one_dns_name ::
  "EndEntityCert \<Rightarrow> DNSNameRef list \<Rightarrow> (DNSNameRef list, webpki_error) result" where
  "verify_is_valid_for_at_least_one_dns_name cert dns_names =
     (if list_ex (\<lambda>n. verify_is_valid_for_dns_name cert n = Panic) dns_names then Panic
      else
        (let res = filter (\<lambda>n. verify_is_valid_for_dns_name cert n = Ok ()) dns_names in
         if res = [] then Err CertNotValidForName else Ok res))"

definition EndEntityCert_verify_signature ::
  "ring_verify \<Rightarrow> EndEntityCert \<Rightarrow> SignatureAlgorithm \<Rightarrow> bytes \<Rightarrow> bytes \<Rightarrow> (unit, webpki_error) result" where
  "EndEntityCert_verify_signature verify cert signature_alg msg signature =
     sd_verify_signature verify signature_alg (cert_spki cert) msg signature"

section \<open>Trust anchors from certificates: trust_anchor_util.rs\<close>

definition skip :: "Tag \<Rightarrow> (unit, webpki_error) reader" where
  "skip tag = rd_bind (expect_tag_and_get_value tag) (\<lambda>_. rd_ret ())"

definition possibly_invalid_certificate_serial_number :: "(unit, webpki_error) reader" where
  "possibly_invalid_certificate_serial_number = skip Integer"

definition trust_anchor_from_cert :: "Cert \<Rightarrow> TrustAnchor" where
  "trust_anchor_from_cert cert =
     \<lparr>ta_subject = cert_subject cert, ta_spki = cert_spki cert, ta_name_constraints = cert_name_constraints cert\<rparr>"

text \<open>
  The code keeps an error of the inner part until the rest is skipped; every error of this
  function is \<open>BadDER\<close>, so that stopping at the first one gives the same.
\<close>

definition parse_cert_v1 :: "bytes \<Rightarrow> (TrustAnchor, webpki_error) result" where
  "parse_cert_v1 =
     read_all BadDER
       (nested Sequence BadDER
          (rd_bind
             (nested Sequence BadDER
                (rd_then certificate_serial_number
                (rd_then (skip Sequence)
                (rd_then (skip Sequence)
                (rd_then (skip Sequence)
                (rd_bind (expect_tag_and_get_value Sequence) (\<lambda>subject.
                 rd_bind (expect_tag_and_get_value Sequence) (\<lambda>spki.
                 rd_ret \<lparr>ta_subject = subject, ta_spki = spki, ta_name_constraints = None\<rparr>)))))))) (\<lambda>anchor.
           rd_then (skip Sequence)
           (rd_then (skip BitString)
           (rd_ret anchor)))))"

definition cert_der_as_trust_anchor :: "bytes \<Rightarrow> (TrustAnchor, webpki_error) result" where
  "cert_der_as_trust_anchor cert_der =
     (case parse_cert_internal cert_der EndEntity possibly_invalid_certificate_serial_number of
        Ok cert \<Rightarrow> Ok (trust_anchor_from_cert cert)
      | Err BadDER \<Rightarrow> res_map_err BadDER (parse_cert_v1 cert_der)
      | Err err \<Rightarrow> Err err
      | Panic \<Rightarrow> Panic)"

end
