(* ===== verification/Webpki_Chain.thy ===== *)
theory Webpki_Chain
  imports Webpki_Verify
begin

text \<open>
  What \<open>utils/webpki/src/verify_cert.rs\<close> establishes. The checks never panic; the search for a
  chain succeeds exactly when there is a path of at most seven certificates from the end-entity
  certificate to a trust anchor, each valid at the given time and for its place, each issued and
  signed by the next.
\<close>

section \<open>The library does not panic\<close>

lemma match_no_panic:
  "id_role \<noteq> PresentedID \<Longrightarrow> presented_dns_id_matches_reference_dns_id_internal p id_role r \<noteq> Panic"
  by (cases id_role) (auto simp: presented_dns_id_matches_reference_dns_id_internal_def split: sum.splits)

lemma ip_loop_no_panic:
  "length address = length name \<Longrightarrow> length masks = length name \<Longrightarrow> name \<noteq> [] \<Longrightarrow> ip_loop name address masks \<noteq> Panic"
  by (induction name address masks rule: ip_loop.induct) auto

lemma ip_match_no_panic: "presented_ip_address_matches_constraint name constraint \<noteq> Panic"
proof -
  have "ip_loop name (take (length constraint div 2) constraint) (take (length constraint div 2) (drop (length constraint div 2) constraint)) \<noteq> Panic"
    if "length name * 2 = length constraint" "length name = 4 \<or> length name = 16"
    using that by (intro ip_loop_no_panic) auto
  then show ?thesis by (auto simp: presented_ip_address_matches_constraint_def Let_def)
qed

lemma name_matches_base_no_panic: "name_matches_base name subtrees base \<noteq> Panic"
  by (auto simp: name_matches_base_def presented_dns_id_matches_dns_id_constraint_def match_no_panic ip_match_no_panic
      presented_directory_name_matches_constraint_def res_bind_Panic split: GeneralName.splits Subtrees.splits option.splits)

lemma no_panic_general_name [no_panic_intros]: "no_panic general_name" "no_panic general_subtree"
proof -
  show "no_panic general_name"
    unfolding general_name_def case_prod_beta by (intro no_panic_intros)
  then show "no_panic general_subtree"
    unfolding general_subtree_def by (intro no_panic_intros)
qed

text \<open>An iteration over names that neither panics nor stops with a panic.\<close>

definition calm :: "(NameIteration, webpki_error) result \<Rightarrow> bool" where
  "calm it \<longleftrightarrow> it \<noteq> Panic \<and> it \<noteq> Ok (Stop Panic)"

lemma subtrees_loop_calm: "calm (subtrees_loop name subtrees has_match has_mismatch constraints)"
proof (induction name subtrees has_match has_mismatch constraints rule: subtrees_loop.induct)
  case (1 name subtrees has_match has_mismatch constraints)
  show ?case
    by (subst subtrees_loop.simps)
      (use 1 no_panicD [OF no_panic_general_name(2), of constraints] name_matches_base_no_panic [of name subtrees] in
        \<open>auto simp: calm_def Let_def split: result.splits\<close>)
qed

lemma conforms_calm: "calm (check_presented_id_conforms_to_constraints permitted excluded name)"
proof -
  have "calm (check_presented_id_conforms_to_constraints_in_subtree name subtrees cs)" for subtrees cs
    using subtrees_loop_calm by (auto simp: check_presented_id_conforms_to_constraints_in_subtree_def calm_def split: option.splits)
  then show ?thesis
    by (auto simp: check_presented_id_conforms_to_constraints_def calm_def res_bind_Panic res_bind_Ok split: NameIteration.splits)
qed

lemma names_loop_calm: "(\<And>name. calm (f name)) \<Longrightarrow> calm (names_loop f san)"
proof (induction f san rule: names_loop.induct)
  case (1 f san)
  show ?case
  proof (cases "general_name san")
    case (Ok p)
    obtain name rest where p: "p = (name, rest)" by fastforce
    show ?thesis
      by (subst names_loop.simps)
        (use 1 Ok p 1(2) [of name] in \<open>auto simp: calm_def split: result.splits NameIteration.splits\<close>)
  qed (use no_panicD [OF no_panic_general_name(1), of san] in \<open>subst names_loop.simps; auto simp: calm_def\<close>)+
qed

lemma iterate_names_no_panic: "(\<And>name. calm (f name)) \<Longrightarrow> r \<noteq> Panic \<Longrightarrow> iterate_names subject san r f \<noteq> Panic"
  using names_loop_calm [of f]
  by (auto simp: iterate_names_def res_bind_Panic calm_def split: option.splits NameIteration.splits)

lemma check_name_constraints_no_panic: "check_name_constraints cert input \<noteq> Panic"
proof -
  have loop: "constraints_loop permitted excluded cert \<noteq> Panic" for permitted excluded cert
    by (induction permitted excluded cert rule: constraints_loop.induct)
      (auto simp: res_bind_Panic iterate_names_no_panic conforms_calm split: EndEntityOrCA.splits)
  have "no_panic (rd_bind (parse_subtrees t) (\<lambda>p. rd_bind (parse_subtrees u) (\<lambda>e. rd_lift (constraints_loop p e cert))))" for t u
    unfolding parse_subtrees_def by (intro no_panic_intros loop)
  then show ?thesis by (auto simp: check_name_constraints_def no_panic_def split: option.splits)
qed

lemma verify_signed_data_no_panic: "verify_signed_data verify algs spki sd \<noteq> Panic"
proof -
  have "parse_spki_value spki \<noteq> Panic" for spki
    unfolding parse_spki_value_def by (intro no_panic_intros)
  then have "sd_verify_signature verify alg spki msg sig \<noteq> Panic" for alg spki msg sig
    by (auto simp: sd_verify_signature_def res_bind_Panic)
  then have "verify_signed_loop verify algs spki sd found \<noteq> Panic" for algs found
    by (induction algs arbitrary: found) (auto split: result.splits webpki_error.splits)
  then show ?thesis by (simp add: verify_signed_data_def)
qed

lemma check_signatures_no_panic: "check_signatures verify algs cert spki \<noteq> Panic"
  by (induction verify algs cert spki rule: check_signatures.induct)
    (auto simp: res_bind_Panic verify_signed_data_no_panic split: EndEntityOrCA.splits)

lemma properties_no_panic: "check_issuer_independent_properties cert time used n eku \<noteq> Panic"
proof -
  have "no_panic (check_validity time)"
    unfolding check_validity_def by (intro no_panic_intros)
  moreover have "no_panic read_basic_constraints"
    unfolding read_basic_constraints_def by (intro no_panic_intros)
  then have "check_basic_constraints used n input \<noteq> Panic" for input
    by (auto simp: check_basic_constraints_def res_bind_Panic no_panic_def split: option.splits UsedAsCA.splits bool.splits if_splits)
  moreover have "eku_loop eku i \<noteq> Panic" for i
  proof (induction eku i rule: eku_loop.induct)
    case (1 eku i)
    then show ?case
      using no_panicD [OF no_panic_webpki(1), of OID i] by (subst eku_loop.simps) (auto split: result.splits)
  qed
  then have "check_eku eku input \<noteq> Panic" for input
    by (auto simp: check_eku_def split: option.splits)
  ultimately show ?thesis
    unfolding check_issuer_independent_properties_def res_bind_Panic
    by (auto simp: read_all_no_panic read_all_optional_no_panic)
qed

lemma loop_while_no_panic: "(\<And>v. v \<in> set vs \<Longrightarrow> f v \<noteq> Panic) \<Longrightarrow> loop_while_non_fatal_error vs f \<noteq> Panic"
  by (induction vs) (auto split: result.splits)

lemma try_anchor_no_panic: "try_anchor verify algs cert anchor \<noteq> Panic"
  by (auto simp: try_anchor_def res_bind_Panic check_signatures_no_panic read_all_optional_no_panic check_name_constraints_no_panic)

section \<open>What one certificate must satisfy\<close>

text \<open>
  The place of a certificate in a chain: 0 for the end entity, 1 for its issuer, and so on. The
  code counts the certificates of issuers below, one less.
\<close>

definition at_place :: "nat \<Rightarrow> Cert \<Rightarrow> bool" where
  "at_place k cert \<longleftrightarrow> used_as_ca (cert_ee_or_ca cert) = (if k = 0 then UsedAsCA_No else UsedAsCA_Yes)"

definition within_validity :: "Time \<Rightarrow> Cert \<Rightarrow> bool" where
  "within_validity time cert \<longleftrightarrow>
     (\<exists>not_before not_after rest.
        time_choice (cert_validity cert) = Ok (not_before, rest) \<and> time_choice rest = Ok (not_after, []) \<and>
        not_before \<le> time \<and> time \<le> not_after)"

text \<open>An end entity is not a CA; a CA says so and allows as many certificates of issuers below.\<close>

definition allowed_at :: "nat \<Rightarrow> Cert \<Rightarrow> bool" where
  "allowed_at k cert \<longleftrightarrow>
     (case cert_basic_constraints cert of
        None \<Rightarrow> k = 0
      | Some bc \<Rightarrow>
          (\<exists>is_ca path_len. read_basic_constraints bc = Ok ((is_ca, path_len), []) \<and>
             is_ca = (0 < k) \<and> (\<forall>len. 0 < k \<and> path_len = Some len \<longrightarrow> k - 1 \<le> len)))"

definition fit_for_purpose :: "KeyPurposeId \<Rightarrow> Cert \<Rightarrow> bool" where
  "fit_for_purpose eku cert \<longleftrightarrow>
     (case cert_eku cert of
        None \<Rightarrow> eku \<noteq> EKU_OCSP_SIGNING
      | Some ekus \<Rightarrow>
          (\<exists>others rest. (\<forall>v \<in> set others. length v < 65536) \<and> length eku < 65536 \<and>
             ekus = concat (map (tlv (tag_u8 OID)) others) @ tlv (tag_u8 OID) eku @ rest))"

definition names_allowed :: "bytes option \<Rightarrow> Cert \<Rightarrow> bool" where
  "names_allowed name_constraints cert \<longleftrightarrow> read_all_optional BadDER (check_name_constraints cert) name_constraints = Ok ()"

definition signed_under :: "ring_verify \<Rightarrow> SignatureAlgorithm list \<Rightarrow> bytes \<Rightarrow> Cert \<Rightarrow> bool" where
  "signed_under verify algs spki cert \<longleftrightarrow> verify_signed_data verify algs spki (cert_signed_data cert) = Ok ()"

lemma expect_tag_tlv:
  "length v < 65536 \<Longrightarrow> expect_tag_and_get_value tag (tlv (tag_u8 tag) v @ r) = Ok (v, r)"
  by (simp add: webpki_readers_Ok)

lemma eku_loop_Ok:
  assumes "length eku < 65536"
  shows "eku_loop eku i = Ok ((), r) \<longleftrightarrow>
     r = [] \<and> (\<exists>others rest. (\<forall>v \<in> set others. length v < 65536) \<and>
       i = concat (map (tlv (tag_u8 OID)) others) @ tlv (tag_u8 OID) eku @ rest)" (is "?run i \<longleftrightarrow> r = [] \<and> ?listed i")
proof
  show "?run i \<Longrightarrow> r = [] \<and> ?listed i"
  proof (induction eku i rule: eku_loop.induct)
    case (1 eku i)
    obtain v rest where v: "expect_tag_and_get_value OID i = Ok (v, rest)"
      using 1(2) by (subst (asm) eku_loop.simps) (auto split: result.splits)
    then have i: "i = tlv (tag_u8 OID) v @ rest" "length v < 65536" by (simp_all add: webpki_readers_Ok)
    show ?case
    proof (cases "v = eku")
      case True
      then have "r = []" using 1(2) v by (subst (asm) eku_loop.simps) simp
      then show ?thesis using i True by (intro conjI exI [of _ "[]"] exI [of _ rest]) simp_all
    next
      case False
      then have ne: "rest \<noteq> []" and run: "eku_loop eku rest = Ok ((), r)"
        using 1(2) v by (subst (asm) eku_loop.simps, auto split: if_splits)+
      from 1(1) [OF v refl False ne run] obtain others rest' where
        "r = []" "\<forall>v\<in>set others. length v < 65536" "rest = concat (map (tlv (tag_u8 OID)) others) @ tlv (tag_u8 OID) eku @ rest'"
        by blast
      then show ?thesis using i by (intro conjI exI [of _ "v # others"] exI [of _ rest']) simp_all
    qed
  qed
next
  have "eku_loop eku (concat (map (tlv (tag_u8 OID)) others) @ tlv (tag_u8 OID) eku @ rest) = Ok ((), [])"
    if "\<forall>v \<in> set others. length v < 65536" for others rest
    using that
  proof (induction others)
    case Nil
    then show ?case by (subst eku_loop.simps) (simp add: expect_tag_tlv assms)
  next
    case (Cons v others)
    then show ?case by (subst eku_loop.simps) (simp add: expect_tag_tlv tlv_nonempty)
  qed
  then show "r = [] \<and> ?listed i \<Longrightarrow> ?run i" by blast
qed

lemma properties_Ok:
  assumes "length eku < 65536"
  shows "check_issuer_independent_properties cert time (if k = 0 then UsedAsCA_No else UsedAsCA_Yes) (k - 1) eku = Ok () \<longleftrightarrow>
     within_validity time cert \<and> allowed_at k cert \<and> fit_for_purpose eku cert"
proof -
  have validity: "read_all BadDER (check_validity time) (cert_validity cert) = Ok u \<longleftrightarrow> within_validity time cert" for u
    unfolding read_all_Ok check_validity_def within_validity_def rd_bind_Ok
    by (auto simp: rd_inv not_less intro: order_trans split: if_splits)
  have basic: "read_all_optional BadDER (check_basic_constraints (if k = 0 then UsedAsCA_No else UsedAsCA_Yes) (k - 1))
      (cert_basic_constraints cert) = Ok u \<longleftrightarrow> allowed_at k cert" for u
  proof (cases "cert_basic_constraints cert")
    case None
    then show ?thesis by (simp add: read_all_optional_def check_basic_constraints_def allowed_at_def res_bind_def)
  next
    case (Some bc)
    have judge: "(case (if k = 0 then UsedAsCA_No else UsedAsCA_Yes, is_ca, path_len) of
          (UsedAsCA_No, True, _) \<Rightarrow> Err CAUsedAsEndEntity
        | (UsedAsCA_Yes, False, _) \<Rightarrow> Err EndEntityUsedAsCA
        | (UsedAsCA_Yes, True, Some len) \<Rightarrow> if k - 1 > len then Err PathLenConstraintViolated else Ok ((), rest)
        | _ \<Rightarrow> Ok ((), rest)) = Ok (u, []) \<longleftrightarrow>
        rest = [] \<and> is_ca = (0 < k) \<and> (\<forall>len. 0 < k \<and> path_len = Some len \<longrightarrow> k - 1 \<le> len)" for is_ca path_len rest
      by (cases is_ca; cases path_len; cases "k = 0") auto
    show ?thesis
      unfolding Some read_all_optional_def check_basic_constraints_def allowed_at_def read_all_Ok option.case res_bind_Ok
        split_paired_Ex prod.case judge [unfolded prod.case] by blast
  qed
  have purpose: "read_all_optional BadDER (check_eku eku) (cert_eku cert) = Ok u \<longleftrightarrow> fit_for_purpose eku cert" for u
    using eku_loop_Ok [OF assms]
    by (auto simp: read_all_optional_def check_eku_def fit_for_purpose_def rd_inv assms split: option.splits)
  show ?thesis
    unfolding check_issuer_independent_properties_def res_bind_Ok validity basic purpose by simp
qed

section \<open>The search finds the paths\<close>

lemma loop_while_Ok:
  "(\<And>v. v \<in> set vs \<Longrightarrow> f v \<noteq> Panic) \<Longrightarrow> loop_while_non_fatal_error vs f = Ok u \<longleftrightarrow> (\<exists>v \<in> set vs. f v = Ok ())"
  by (induction vs) (auto split: result.splits)

definition issued_by :: "bytes list \<Rightarrow> Cert \<Rightarrow> Cert \<Rightarrow> bool" where
  "issued_by intermediates cert issuer \<longleftrightarrow>
     (\<exists>der \<in> set intermediates. parse_cert der (CA cert) = Ok issuer) \<and>
     cert_subject issuer = cert_issuer cert \<and> \<not> occurs_below issuer cert \<and> names_allowed (cert_name_constraints issuer) cert"

definition acceptable :: "KeyPurposeId \<Rightarrow> Time \<Rightarrow> nat \<Rightarrow> Cert \<Rightarrow> bool" where
  "acceptable eku time k cert \<longleftrightarrow> within_validity time cert \<and> allowed_at k cert \<and> fit_for_purpose eku cert"

definition anchored :: "ring_verify \<Rightarrow> SignatureAlgorithm list \<Rightarrow> TrustAnchor list \<Rightarrow> Cert \<Rightarrow> bool" where
  "anchored verify algs anchors cert \<longleftrightarrow> (\<exists>a \<in> set anchors. try_anchor verify algs cert a = Ok ())"

text \<open>What the search looks for, without an order: a certificate is trusted at a place if it is
  acceptable there and a trust anchor or a trusted certificate at the next place issued it.\<close>

inductive trusted ::
  "ring_verify \<Rightarrow> KeyPurposeId \<Rightarrow> SignatureAlgorithm list \<Rightarrow> TrustAnchor list \<Rightarrow> bytes list \<Rightarrow> Time \<Rightarrow> nat \<Rightarrow> Cert \<Rightarrow> bool"
  for verify eku algs anchors intermediates time where
  anchor: "acceptable eku time k cert \<Longrightarrow> k \<le> 6 \<Longrightarrow> anchored verify algs anchors cert \<Longrightarrow>
     trusted verify eku algs anchors intermediates time k cert"
| issuer: "acceptable eku time k cert \<Longrightarrow> k \<le> 6 \<Longrightarrow> issued_by intermediates cert issuer \<Longrightarrow>
     trusted verify eku algs anchors intermediates time (Suc k) issuer \<Longrightarrow>
     trusted verify eku algs anchors intermediates time k cert"

inductive_simps trusted_iff: "trusted verify eku algs anchors intermediates time k cert"

lemma issued_by_place: "issued_by intermediates cert issuer \<Longrightarrow> at_place (Suc k) issuer"
  by (auto simp: issued_by_def at_place_def dest: parse_cert_ee)

text \<open>One round of the search, as the certificates it goes on with.\<close>

definition try_issuer ::
  "(Cert \<Rightarrow> (unit, webpki_error) result) \<Rightarrow> Cert \<Rightarrow> bytes \<Rightarrow> (unit, webpki_error) result" where
  "try_issuer continue cert cert_der =
     res_bind (parse_cert cert_der (CA cert)) (\<lambda>potential_issuer.
       if cert_subject potential_issuer \<noteq> cert_issuer cert then Err UnknownIssuer
       else if occurs_below potential_issuer cert then Err UnknownIssuer
       else
         res_bind (read_all_optional BadDER (check_name_constraints cert) (cert_name_constraints potential_issuer)) (\<lambda>_.
         continue potential_issuer))"

lemma build_chain_round:
  assumes place: "at_place k cert"
  shows "build_chain verify eku algs anchors intermediates cert time (k - 1) =
     res_bind (check_issuer_independent_properties cert time (if k = 0 then UsedAsCA_No else UsedAsCA_Yes) (k - 1) eku) (\<lambda>_.
       if 6 < k then Err UnknownIssuer
       else
         (case loop_while_non_fatal_error anchors (try_anchor verify algs cert) of
            Ok _ \<Rightarrow> Ok ()
          | Panic \<Rightarrow> Panic
          | Err _ \<Rightarrow>
              loop_while_non_fatal_error intermediates
                (try_issuer (\<lambda>issuer. build_chain verify eku algs anchors intermediates issuer time k) cert)))"
proof -
  have ca: "(if k = 0 then UsedAsCA_No else UsedAsCA_Yes) = UsedAsCA_Yes \<and> MAX_SUB_CA_COUNT \<le> k - 1 \<longleftrightarrow> 6 < k"
    by (auto simp: MAX_SUB_CA_COUNT_def)
  have ee: "\<not> ((if k = 0 then UsedAsCA_No else UsedAsCA_Yes) = UsedAsCA_No \<and> k - 1 \<noteq> 0)" by simp
  have "(if (if k = 0 then UsedAsCA_No else UsedAsCA_Yes) = UsedAsCA_No then k - 1 else k - 1 + 1) = k" by simp
  then show ?thesis
    by (subst build_chain.simps)
      (simp only: Let_def place [unfolded at_place_def] ca if_not_P [OF ee] try_issuer_def [abs_def] cong: if_cong)
qed

lemma try_issuer_no_panic:
  assumes "\<And>issuer. at_place (Suc k) issuer \<Longrightarrow> continue issuer \<noteq> Panic"
  shows "try_issuer continue cert der \<noteq> Panic"
proof -
  have "continue issuer \<noteq> Panic" if "parse_cert der (CA cert) = Ok issuer" for issuer
    using parse_cert_ee [OF that] assms by (simp add: at_place_def)
  then show ?thesis
    by (auto simp: try_issuer_def res_bind_Panic parse_cert_no_panic read_all_optional_no_panic check_name_constraints_no_panic)
qed

lemma build_chain_no_panic:
  "at_place k cert \<Longrightarrow> build_chain verify eku algs anchors intermediates cert time (k - 1) \<noteq> Panic"
proof (induction "7 - k" arbitrary: k cert rule: less_induct)
  case less
  have "loop_while_non_fatal_error intermediates
      (try_issuer (\<lambda>issuer. build_chain verify eku algs anchors intermediates issuer time k) cert) \<noteq> Panic" if "\<not> 6 < k"
    by (rule loop_while_no_panic, rule try_issuer_no_panic [of k]) (use less.hyps [of "Suc k"] that in simp)
  moreover have "loop_while_non_fatal_error anchors (try_anchor verify algs cert) \<noteq> Panic"
    by (rule loop_while_no_panic) (rule try_anchor_no_panic)
  ultimately show ?case
    unfolding build_chain_round [OF less.prems] res_bind_Panic
    using properties_no_panic [of cert time _ "k - 1" eku] by (auto split: result.splits)
qed

lemma try_issuer_Ok:
  "(\<exists>der \<in> set intermediates. try_issuer continue cert der = Ok ()) \<longleftrightarrow>
     (\<exists>issuer. issued_by intermediates cert issuer \<and> continue issuer = Ok ())"
  by (auto simp: try_issuer_def issued_by_def names_allowed_def res_bind_Ok)

lemma build_chain_trusted:
  assumes "length eku < 65536"
  shows "at_place k cert \<Longrightarrow> build_chain verify eku algs anchors intermediates cert time (k - 1) = Ok () \<longleftrightarrow>
     trusted verify eku algs anchors intermediates time k cert"
proof (induction "7 - k" arbitrary: k cert rule: less_induct)
  case less
  let ?next = "\<lambda>issuer. build_chain verify eku algs anchors intermediates issuer time k"
  show ?case
  proof (cases "6 < k")
    case True
    then show ?thesis
      unfolding build_chain_round [OF less.prems] by (subst trusted_iff) (simp add: res_bind_Ok)
  next
    case False
    have next_no_panic: "?next issuer \<noteq> Panic" if "at_place (Suc k) issuer" for issuer
      using build_chain_no_panic [OF that] by simp
    have next_trusted: "?next issuer = Ok () \<longleftrightarrow> trusted verify eku algs anchors intermediates time (Suc k) issuer"
      if "issued_by intermediates cert issuer" for issuer
      using less.hyps [of "Suc k" issuer] issued_by_place [OF that] False by simp
    have anchors: "loop_while_non_fatal_error anchors (try_anchor verify algs cert) = Ok u \<longleftrightarrow> anchored verify algs anchors cert" for u
      unfolding anchored_def by (rule loop_while_Ok) (rule try_anchor_no_panic)
    have issuers: "loop_while_non_fatal_error intermediates (try_issuer ?next cert) = Ok u \<longleftrightarrow>
        (\<exists>issuer. issued_by intermediates cert issuer \<and> ?next issuer = Ok ())" for u
      unfolding try_issuer_Ok [symmetric] by (rule loop_while_Ok) (rule try_issuer_no_panic, rule next_no_panic)
    have round: "(case loop_while_non_fatal_error anchors (try_anchor verify algs cert) of
          Ok _ \<Rightarrow> Ok () | Panic \<Rightarrow> Panic | Err _ \<Rightarrow> loop_while_non_fatal_error intermediates (try_issuer ?next cert)) = Ok () \<longleftrightarrow>
        anchored verify algs anchors cert \<or> (\<exists>issuer. issued_by intermediates cert issuer \<and> ?next issuer = Ok ())"
      using anchors issuers loop_while_no_panic [of anchors "try_anchor verify algs cert", OF try_anchor_no_panic]
      by (cases "loop_while_non_fatal_error anchors (try_anchor verify algs cert)") auto
    have properties: "check_issuer_independent_properties cert time (if k = 0 then UsedAsCA_No else UsedAsCA_Yes) (k - 1) eku = Ok u
        \<longleftrightarrow> acceptable eku time k cert" for u
      using properties_Ok [OF assms] unfolding acceptable_def by (cases u) simp
    show ?thesis
      unfolding build_chain_round [OF less.prems] res_bind_Ok if_not_P [OF False] round properties
      using False next_trusted by (subst trusted_iff) auto
  qed
qed

section \<open>Paths\<close>

definition path_from ::
  "ring_verify \<Rightarrow> KeyPurposeId \<Rightarrow> SignatureAlgorithm list \<Rightarrow> TrustAnchor list \<Rightarrow> bytes list \<Rightarrow> Time \<Rightarrow> nat \<Rightarrow> Cert list \<Rightarrow> bool" where
  "path_from verify eku algs anchors intermediates time k path \<longleftrightarrow>
     path \<noteq> [] \<and> length path + k \<le> 7 \<and>
     (\<forall>i < length path. acceptable eku time (k + i) (path ! i)) \<and>
     (\<forall>i. Suc i < length path \<longrightarrow> issued_by intermediates (path ! i) (path ! Suc i)) \<and>
     anchored verify algs anchors (last path)"

lemma path_single:
  "path_from verify eku algs anchors intermediates time k [cert] \<longleftrightarrow>
     acceptable eku time k cert \<and> k \<le> 6 \<and> anchored verify algs anchors cert"
  by (auto simp: path_from_def)

lemma path_Cons:
  assumes "path \<noteq> []"
  shows "path_from verify eku algs anchors intermediates time k (cert # path) \<longleftrightarrow>
     acceptable eku time k cert \<and> issued_by intermediates cert (hd path) \<and>
     path_from verify eku algs anchors intermediates time (Suc k) path"
proof -
  obtain c cs where path: "path = c # cs" using assms by (cases path) auto
  have acc: "(\<forall>i < length (cert # path). acceptable eku time (k + i) ((cert # path) ! i)) \<longleftrightarrow>
      acceptable eku time k cert \<and> (\<forall>i < length path. acceptable eku time (Suc k + i) (path ! i))"
    by (simp add: All_less_Suc2)
  have iss: "(\<forall>i. Suc i < length (cert # path) \<longrightarrow> issued_by intermediates ((cert # path) ! i) ((cert # path) ! Suc i)) \<longleftrightarrow>
      issued_by intermediates cert (hd path) \<and> (\<forall>i. Suc i < length path \<longrightarrow> issued_by intermediates (path ! i) (path ! Suc i))"
    unfolding path by (auto simp: nth_Cons split: nat.splits)
  show ?thesis unfolding path_from_def acc iss using assms by auto
qed

lemma trusted_path:
  "trusted verify eku algs anchors intermediates time k cert \<longleftrightarrow>
     (\<exists>path. hd path = cert \<and> path_from verify eku algs anchors intermediates time k path)"
proof
  assume "trusted verify eku algs anchors intermediates time k cert"
  then show "\<exists>path. hd path = cert \<and> path_from verify eku algs anchors intermediates time k path"
  proof induction
    case (anchor k cert)
    then show ?case by (intro exI [of _ "[cert]"]) (simp add: path_single)
  next
    case (issuer k cert issuer)
    then obtain path where "hd path = issuer" "path_from verify eku algs anchors intermediates time (Suc k) path" by blast
    moreover then have "path \<noteq> []" by (simp add: path_from_def)
    ultimately show ?case using issuer by (intro exI [of _ "cert # path"]) (simp add: path_Cons)
  qed
next
  have "trusted verify eku algs anchors intermediates time k (hd path)"
    if "path_from verify eku algs anchors intermediates time k path" for path
    using that
  proof (induction path arbitrary: k)
    case Nil
    then show ?case by (simp add: path_from_def)
  next
    case (Cons c cs)
    show ?case
    proof (cases "cs = []")
      case True
      then show ?thesis using Cons.prems by (auto simp: path_single intro: trusted.anchor)
    next
      case False
      have "k \<le> 6" using Cons.prems by (simp add: path_from_def)
      then show ?thesis using Cons False by (auto simp: path_Cons intro: trusted.issuer)
    qed
  qed
  then show "\<exists>path. hd path = cert \<and> path_from verify eku algs anchors intermediates time k path \<Longrightarrow>
      trusted verify eku algs anchors intermediates time k cert" by blast
qed

lemma check_signatures_run:
  "check_signatures verify algs cert spki =
     res_bind (verify_signed_data verify algs spki (cert_signed_data cert)) (\<lambda>_.
       case cert_ee_or_ca cert of CA child \<Rightarrow> check_signatures verify algs child (cert_spki cert) | EndEntity \<Rightarrow> Ok ())"
  by (cases cert) (simp split: EndEntityOrCA.splits)

lemma path_signatures:
  assumes "cert_ee_or_ca (path ! 0) = EndEntity"
    and "\<And>i. Suc i < length path \<Longrightarrow> cert_ee_or_ca (path ! Suc i) = CA (path ! i)"
  shows "n < length path \<Longrightarrow> check_signatures verify algs (path ! n) spki = Ok () \<longleftrightarrow>
     signed_under verify algs spki (path ! n) \<and> (\<forall>i < n. signed_under verify algs (cert_spki (path ! Suc i)) (path ! i))"
proof (induction n arbitrary: spki)
  case 0
  show ?case by (subst check_signatures_run) (simp add: assms(1) res_bind_Ok signed_under_def)
next
  case (Suc n)
  then show ?case
    by (subst check_signatures_run) (auto simp: assms(2) res_bind_Ok signed_under_def less_Suc_eq)
qed

text \<open>
  C3: the check of a server certificate succeeds exactly when the certificate is the start of a
  path of at most seven certificates that ends at one of the trust anchors. Every certificate of
  the path is valid at the given time, may stand at its place and serves the purpose; every
  certificate but the last is issued by the next, which is one of the given intermediates, and
  bears its signature; the last is issued and signed by the trust anchor.
\<close>
theorem server_cert_chain:
  assumes "cert_ee_or_ca cert = EndEntity"
  shows "verify_is_valid_tls_server_cert verify cert algs anchors intermediates time = Ok () \<longleftrightarrow>
     (\<exists>path anchor.
        path \<noteq> [] \<and> hd path = cert \<and> length path \<le> 7 \<and> anchor \<in> set anchors \<and>
        (\<forall>k < length path. within_validity time (path ! k) \<and> allowed_at k (path ! k) \<and> fit_for_purpose EKU_SERVER_AUTH (path ! k)) \<and>
        (\<forall>k. Suc k < length path \<longrightarrow>
           issued_by intermediates (path ! k) (path ! Suc k) \<and> signed_under verify algs (cert_spki (path ! Suc k)) (path ! k)) \<and>
        cert_issuer (last path) = ta_subject anchor \<and> names_allowed (ta_name_constraints anchor) (last path) \<and>
        signed_under verify algs (ta_spki anchor) (last path))" (is "_ \<longleftrightarrow> (\<exists>path anchor. ?good path anchor)")
proof -
  have place: "at_place 0 cert" using assms by (simp add: at_place_def)
  have "verify_is_valid_tls_server_cert verify cert algs anchors intermediates time = Ok () \<longleftrightarrow>
      (\<exists>path. hd path = cert \<and> path_from verify EKU_SERVER_AUTH algs anchors intermediates time 0 path)"
    using build_chain_trusted [OF _ place, of EKU_SERVER_AUTH] unfolding trusted_path verify_is_valid_tls_server_cert_def
    by (simp add: EKU_SERVER_AUTH_def)
  moreover have "hd path = cert \<and> path_from verify EKU_SERVER_AUTH algs anchors intermediates time 0 path \<longleftrightarrow>
      (\<exists>anchor. ?good path anchor)" for path
  proof (cases "path \<noteq> [] \<and> hd path = cert \<and> (\<forall>i. Suc i < length path \<longrightarrow> issued_by intermediates (path ! i) (path ! Suc i))")
    case True
    then have "cert_ee_or_ca (path ! 0) = EndEntity" using assms hd_conv_nth [of path] by metis
    moreover have "cert_ee_or_ca (path ! Suc i) = CA (path ! i)" if "Suc i < length path" for i
      using True that by (auto simp: issued_by_def dest: parse_cert_ee)
    ultimately have "check_signatures verify algs (last path) spki = Ok () \<longleftrightarrow>
        signed_under verify algs spki (last path) \<and> (\<forall>k. Suc k < length path \<longrightarrow> signed_under verify algs (cert_spki (path ! Suc k)) (path ! k))" for spki
      using path_signatures [of path "length path - 1"] True by (simp add: last_conv_nth less_diff_conv)
    with True show ?thesis
      by (auto simp: path_from_def anchored_def try_anchor_def acceptable_def names_allowed_def res_bind_Ok)
  qed (auto simp: path_from_def)
  ultimately show ?thesis by blast
qed

text \<open>A chain of two: the issuer \<open>[1, 2, 3]\<close> of the example is an intermediate under the anchor \<open>[5]\<close>.\<close>

definition ex_ee_der :: bytes where
  "ex_ee_der = ex_der (ex_tbs [1, 2, 3] [4] (ex_extension 15 []))"

definition ex_ee :: Cert where
  "ex_ee = Cert EndEntity (ex_signed (ex_tbs [1, 2, 3] [4] (ex_extension 15 []))) [1, 2, 3] ex_validity [4] ex_spki None None None None"

definition ex_intermediate :: bytes where
  "ex_intermediate = ex_der (ex_tbs [5] [1, 2, 3] (ex_extension 19 (tlv (tag_u8 Boolean) [0xff])))"

definition ex_anchor :: TrustAnchor where
  "ex_anchor = \<lparr>ta_subject = [5], ta_spki = ex_spki, ta_name_constraints = None\<rparr>"

definition ex_verify :: ring_verify where
  "ex_verify alg key msg signature \<longleftrightarrow> key = [9] \<and> signature = [7]"

lemma ex_chain:
  "verify_is_valid_tls_server_cert ex_verify ex_ee [RSA_PKCS1_2048_8192_SHA256] [ex_anchor] [ex_intermediate] 1700000000 = Ok ()"
  by code_simp

theorem server_cert_chain_witness:
  "cert_ee_or_ca ex_ee = EndEntity \<and>
   (\<exists>path anchor. path \<noteq> [] \<and> hd path = ex_ee \<and> length path \<le> 7 \<and> anchor \<in> set [ex_anchor] \<and>
      (\<forall>k < length path. within_validity 1700000000 (path ! k) \<and> allowed_at k (path ! k)) \<and>
      cert_issuer (last path) = ta_subject anchor \<and>
      signed_under ex_verify [RSA_PKCS1_2048_8192_SHA256] (ta_spki anchor) (last path))"
proof -
  have ee: "cert_ee_or_ca ex_ee = EndEntity" by (simp add: ex_ee_def)
  from server_cert_chain [OF ee, THEN iffD1, OF ex_chain] show ?thesis using ee by blast
qed

section \<open>Chains without intermediates\<close>

lemma direct_chain:
  assumes "cert_ee_or_ca cert = EndEntity"
  shows "verify_is_valid_tls_server_cert verify cert algs anchors [] time = Ok () \<longleftrightarrow>
     acceptable EKU_SERVER_AUTH time 0 cert \<and> anchored verify algs anchors cert"
proof -
  have "at_place 0 cert" using assms by (simp add: at_place_def)
  from build_chain_trusted [OF _ this, of EKU_SERVER_AUTH verify algs anchors "[]" time]
  have "verify_is_valid_tls_server_cert verify cert algs anchors [] time = Ok () \<longleftrightarrow>
      trusted verify EKU_SERVER_AUTH algs anchors [] time 0 cert"
    by (simp add: verify_is_valid_tls_server_cert_def EKU_SERVER_AUTH_def)
  also have "\<dots> \<longleftrightarrow> acceptable EKU_SERVER_AUTH time 0 cert \<and> anchored verify algs anchors cert"
    by (subst trusted_iff) (auto simp: issued_by_def)
  finally show ?thesis .
qed

lemma anchored_end_entity:
  assumes "cert_ee_or_ca cert = EndEntity"
  shows "anchored verify algs anchors cert \<longleftrightarrow>
     (\<exists>a \<in> set anchors. cert_issuer cert = ta_subject a \<and> names_allowed (ta_name_constraints a) cert \<and>
        signed_under verify algs (ta_spki a) cert)"
  unfolding anchored_def try_anchor_def names_allowed_def signed_under_def check_signatures_run [of _ _ cert]
  by (auto simp: assms res_bind_Ok)

lemma sd_verify_signature_Ok:
  "sd_verify_signature verify alg spki msg signature = Ok u \<longleftrightarrow>
     (\<exists>key. parse_spki_value spki = Ok key \<and> algorithm_id_value key = public_key_alg_id alg \<and>
        verify (verification_alg alg) (key_value key) msg signature)"
  by (auto simp: sd_verify_signature_def res_bind_Ok matches_algorithm_id_value_def split: if_splits)

lemma verify_signed_loop_Ok:
  "verify_signed_loop verify algs spki sd found = Ok u \<Longrightarrow>
     \<exists>alg \<in> set algs. sd_verify_signature verify alg spki (sd_data sd) (sd_signature sd) = Ok u"
  by (induction verify algs spki sd found rule: verify_signed_loop.induct)
    (auto split: if_splits result.splits webpki_error.splits)

lemma signed_under_alg:
  assumes "signed_under verify algs spki cert"
  shows "\<exists>alg \<in> set algs. \<exists>key. signature_alg_id alg = sd_algorithm (cert_signed_data cert) \<and>
     parse_spki_value spki = Ok key \<and> algorithm_id_value key = public_key_alg_id alg \<and>
     verify (verification_alg alg) (key_value key) (sd_data (cert_signed_data cert)) (sd_signature (cert_signed_data cert))"
  using assms unfolding signed_under_def verify_signed_data_def
  by (auto simp: matches_algorithm_id_value_def sd_verify_signature_Ok dest!: verify_signed_loop_Ok)

lemma verify_signature_no_panic: "EndEntityCert_verify_signature verify cert alg msg signature \<noteq> Panic"
proof -
  have "parse_spki_value spki \<noteq> Panic" for spki
    unfolding parse_spki_value_def by (intro no_panic_intros)
  then show ?thesis
    by (auto simp: EndEntityCert_verify_signature_def sd_verify_signature_def res_bind_Panic)
qed

section \<open>No call panics\<close>

lemma dns_name_no_panic: "verify_is_valid_for_dns_name cert dns_name \<noteq> Panic"
  unfolding verify_is_valid_for_dns_name_def verify_cert_dns_name_def
  by (rule iterate_names_no_panic)
    (auto simp: calm_def presented_dns_id_matches_reference_dns_id_def match_no_panic res_bind_Panic res_bind_Ok
      split: GeneralName.splits option.splits bool.splits)

lemma trust_anchor_no_panic: "cert_der_as_trust_anchor cert_der \<noteq> Panic"
proof -
  have skip: "no_panic (skip tag)" for tag
    unfolding skip_def by (intro no_panic_intros)
  have "parse_cert_internal cert_der EndEntity possibly_invalid_certificate_serial_number \<noteq> Panic"
    unfolding possibly_invalid_certificate_serial_number_def by (rule parse_cert_internal_no_panic) (rule skip)
  moreover have "parse_cert_v1 cert_der \<noteq> Panic"
    unfolding parse_cert_v1_def certificate_serial_number_def by (intro no_panic_intros skip)
  ultimately show ?thesis
    by (auto simp: cert_der_as_trust_anchor_def res_map_err_Panic split: result.splits webpki_error.splits)
qed



end
