(* ===== verification/Enclave_Verify.thy ===== *)
theory Enclave_Verify
  imports Scheduler_Credit Webpki_Chain
begin

text \<open>
  \<open>primitives/enclave-verify\<close>: decoding of hexadecimal strings and the check of an attestation
  report, over the certificate library of \<open>utils/webpki\<close>. Base64 and the signature schemes are
  parameters: they are called and not implemented here. A Rust panic is \<open>None\<close> in
  \<open>hexstr_to_u8v\<close> and the error \<open>Panicked\<close> elsewhere.

  The lemmas show that decoding inverts the usual encoding, and what a verified report means.
\<close>

section \<open>Hexadecimal strings\<close>

definition to_digit16 :: "char \<Rightarrow> nat option" where
  "to_digit16 c =
     (let n = of_char c :: nat in
      if 48 \<le> n \<and> n \<le> 57 then Some (n - 48)
      else if 97 \<le> n \<and> n \<le> 102 then Some (n - 87)
      else if 65 \<le> n \<and> n \<le> 70 then Some (n - 55)
      else None)"

text \<open>The loop over the characters, with the position, the pending value and the digit count.\<close>

fun hex_loop :: "string \<Rightarrow> u8 list \<Rightarrow> nat \<Rightarrow> u8 \<Rightarrow> nat \<Rightarrow> (u8 list \<times> nat \<times> u8) option" where
  "hex_loop [] x pos val cct = Some (x, pos, val)"
| "hex_loop (c # cs) x pos val cct =
     (if pos < length x then
        (case to_digit16 c of
           Some d \<Rightarrow>
             let val = val + of_nat d; cct = cct + 1 in
             if cct mod 2 = 0 then hex_loop cs (x[pos := val]) (pos + 1) 0 cct
             else hex_loop cs x pos (push_bit 4 val) cct
         | None \<Rightarrow> None)
      else Some (x, pos, val))"

fun hex_fill :: "nat list \<Rightarrow> u8 \<Rightarrow> u8 list \<Rightarrow> u8 list" where
  "hex_fill [] val x = x"
| "hex_fill (ix # ixs) val x = hex_fill ixs 0 (x[ix := val])"

definition hexstr_to_u8v :: "string \<Rightarrow> u8 list \<Rightarrow> u8 list option" where
  "hexstr_to_u8v s x =
     (case hex_loop s x 0 0 0 of
        None \<Rightarrow> None
      | Some (x', pos, val) \<Rightarrow> Some (hex_fill [pos..<length x] val x'))"

section \<open>Attestation reports\<close>

record ev_config = sc_config +
  base64_decode_config :: "u8 list \<Rightarrow> u8 list option"
  base64_decode :: "u8 list \<Rightarrow> u8 list option"
  unparsed_public_key_verify :: ring_verify
  rsa_from_public_key_der :: "u8 list \<Rightarrow> u8 list option"
  rsa_verify :: "u8 list \<Rightarrow> u8 list \<Rightarrow> u8 list \<Rightarrow> bool"
  bls_key_deserialize :: "u8 list \<Rightarrow> u8 list option"
  bls_sig_deserialize :: "u8 list \<Rightarrow> u8 list option"
  bls_verify :: "u8 list \<Rightarrow> u8 list \<Rightarrow> u8 list \<Rightarrow> bool"

text \<open>The name and the key of Intel's attestation service, the only trust anchor.\<close>

definition IAS_SUBJECT :: bytes where
  "IAS_SUBJECT =
     [49, 11, 48, 9, 6, 3, 85, 4, 6, 19, 2, 85, 83, 49, 11, 48, 9, 6, 3, 85, 4, 8, 12, 2,
      67, 65, 49, 20, 48, 18, 6, 3, 85, 4, 7, 12, 11, 83, 97, 110, 116, 97, 32, 67, 108, 97, 114, 97,
      49, 26, 48, 24, 6, 3, 85, 4, 10, 12, 17, 73, 110, 116, 101, 108, 32, 67, 111, 114, 112, 111, 114, 97,
      116, 105, 111, 110, 49, 48, 48, 46, 6, 3, 85, 4, 3, 12, 39, 73, 110, 116, 101, 108, 32, 83, 71, 88,
      32, 65, 116, 116, 101, 115, 116, 97, 116, 105, 111, 110, 32, 82, 101, 112, 111, 114, 116, 32, 83, 105, 103, 110,
      105, 110, 103, 32, 67, 65]"

definition IAS_SPKI :: bytes where
  "IAS_SPKI =
     [48, 13, 6, 9, 42, 134, 72, 134, 247, 13, 1, 1, 1, 5, 0, 3, 130, 1, 143, 0, 48, 130, 1, 138,
      2, 130, 1, 129, 0, 159, 60, 100, 126, 181, 119, 60, 187, 81, 45, 39, 50, 192, 215, 65, 94, 187, 85, 160,
      250, 158, 222, 46, 100, 145, 153, 230, 130, 29, 185, 16, 213, 49, 119, 55, 9, 119, 70, 106, 106, 94, 71, 134,
      204, 210, 221, 235, 212, 20, 157, 106, 47, 99, 37, 82, 157, 209, 12, 201, 135, 55, 176, 119, 156, 26, 7, 226,
      156, 71, 161, 174, 0, 73, 72, 71, 108, 72, 159, 69, 165, 161, 93, 122, 200, 236, 198, 172, 198, 69, 173, 180,
      61, 135, 103, 157, 245, 156, 9, 59, 197, 162, 233, 105, 108, 84, 120, 84, 27, 151, 158, 117, 75, 87, 57, 20,
      190, 85, 211, 47, 244, 192, 157, 223, 39, 33, 153, 52, 205, 153, 5, 39, 179, 249, 46, 215, 143, 191, 41, 36,
      106, 190, 203, 113, 36, 14, 243, 156, 45, 113, 7, 180, 71, 84, 90, 127, 251, 16, 235, 6, 10, 104, 169, 133,
      128, 33, 158, 54, 145, 9, 82, 104, 56, 146, 214, 165, 226, 168, 8, 3, 25, 62, 64, 117, 49, 64, 78, 54,
      179, 21, 98, 55, 153, 170, 130, 80, 116, 64, 151, 84, 162, 223, 232, 245, 175, 213, 254, 99, 30, 31, 194, 175,
      56, 8, 144, 111, 40, 167, 144, 217, 221, 159, 224, 96, 147, 155, 18, 87, 144, 197, 128, 93, 3, 125, 245, 106,
      153, 83, 27, 150, 222, 105, 222, 51, 237, 34, 108, 193, 32, 125, 16, 66, 181, 201, 171, 127, 64, 79, 199, 17,
      192, 254, 71, 105, 251, 149, 120, 177, 220, 14, 196, 105, 234, 26, 37, 224, 255, 153, 20, 136, 110, 242, 105, 155,
      35, 91, 180, 132, 125, 214, 255, 64, 182, 6, 230, 23, 7, 147, 194, 251, 152, 179, 20, 88, 127, 156, 253, 37,
      115, 98, 223, 234, 177, 11, 59, 210, 217, 118, 115, 161, 164, 189, 68, 196, 83, 170, 244, 127, 193, 242, 211, 208,
      243, 132, 247, 74, 6, 248, 156, 8, 159, 13, 166, 205, 183, 252, 238, 232, 201, 130, 26, 142, 84, 242, 92, 4,
      22, 209, 140, 70, 131, 154, 95, 128, 18, 251, 221, 61, 199, 77, 37, 98, 121, 173, 194, 192, 213, 90, 255, 111,
      6, 34, 66, 93, 27, 2, 3, 1, 0, 1]"

definition IAS_SERVER_ROOTS :: "TrustAnchor list" where
  "IAS_SERVER_ROOTS = [\<lparr>ta_subject = IAS_SUBJECT, ta_spki = IAS_SPKI, ta_name_constraints = None\<rparr>]"

definition SUPPORTED_SIG_ALGS :: "SignatureAlgorithm list" where
  "SUPPORTED_SIG_ALGS =
     [RSA_PKCS1_2048_8192_SHA256, RSA_PKCS1_2048_8192_SHA384, RSA_PKCS1_2048_8192_SHA512, RSA_PKCS1_3072_8192_SHA384]"

text \<open>The time at which certificates are checked is a constant, 2022-12-08 16:00:00 UTC.\<close>

definition verify_miner_cert ::
  "'t ev_config_scheme \<Rightarrow> u8 list \<Rightarrow> u8 list \<Rightarrow> u8 list \<Rightarrow> dispatch_error + u8 option" where
  "verify_miner_cert T ias_sig ias_cert report_json_raw =
     (let verify = unparsed_public_key_verify T in
      case base64_decode_config T ias_cert of
        None \<Rightarrow> Inr None
      | Some ias_cert_dec \<Rightarrow>
          (case EndEntityCert_from ias_cert_dec of
             Panic \<Rightarrow> Inl Panicked
           | Err _ \<Rightarrow> Inr None
           | Ok sig_cert \<Rightarrow>
               (case verify_is_valid_tls_server_cert verify sig_cert SUPPORTED_SIG_ALGS IAS_SERVER_ROOTS []
                       (from_seconds_since_unix_epoch 1670515200) of
                  Panic \<Rightarrow> Inl Panicked
                | Err _ \<Rightarrow> Inr None
                | Ok _ \<Rightarrow>
                    (case base64_decode T ias_sig of
                       None \<Rightarrow> Inr None
                     | Some ias_sig_dec \<Rightarrow>
                         (case EndEntityCert_verify_signature verify sig_cert RSA_PKCS1_2048_8192_SHA256 report_json_raw ias_sig_dec of
                            Panic \<Rightarrow> Inl Panicked
                          | Err _ \<Rightarrow> Inr None
                          | Ok _ \<Rightarrow> Inr (Some 1))))))"

definition verify_rsa :: "'t ev_config_scheme \<Rightarrow> u8 list \<Rightarrow> u8 list \<Rightarrow> u8 list \<Rightarrow> dispatch_error + bool" where
  "verify_rsa T key msg sig' =
     (case rsa_from_public_key_der T key of None \<Rightarrow> Inl Panicked | Some pk \<Rightarrow> Inr (rsa_verify T pk msg sig'))"

definition verify_bls :: "'t ev_config_scheme \<Rightarrow> u8 list \<Rightarrow> u8 list \<Rightarrow> u8 list \<Rightarrow> dispatch_error + bool" where
  "verify_bls T key msg sig' =
     (case bls_key_deserialize T key of
        None \<Rightarrow> Inl Panicked
      | Some puk \<Rightarrow>
          (case bls_sig_deserialize T sig' of
             None \<Rightarrow> Inl Panicked
           | Some sg \<Rightarrow> Inr (bls_verify T puk msg sg)))"

section \<open>Properties\<close>

text \<open>The usual encoding of bytes: two lower-case digits each, the high one first.\<close>

definition hex_digit :: "nat \<Rightarrow> char" where
  "hex_digit n = (if n < 10 then char_of (48 + n) else char_of (87 + n))"

definition hex_encode :: "u8 list \<Rightarrow> string" where
  "hex_encode bs = concat (map (\<lambda>b. [hex_digit (unat b div 16), hex_digit (unat b mod 16)]) bs)"

lemma to_digit16_hex_digit: "n < 16 \<Longrightarrow> to_digit16 (hex_digit n) = Some n"
  by (auto simp: to_digit16_def hex_digit_def Let_def)

lemma hex_pair:
  "push_bit 4 (of_nat (unat b div 16)) + of_nat (unat b mod 16) = (b :: u8)"
proof -
  have "push_bit 4 (of_nat (unat b div 16)) + of_nat (unat b mod 16) = (of_nat (unat b div 16 * 16 + unat b mod 16) :: u8)"
    unfolding push_bit_eq_mult of_nat_add of_nat_mult by simp
  also have "\<dots> = b" unfolding div_mult_mod_eq by simp
  finally show ?thesis .
qed

lemma hex_loop_encode:
  assumes "pos + length bs \<le> length x" and "even cct"
  shows "hex_loop (hex_encode bs @ rest) x pos 0 cct =
     hex_loop rest (take pos x @ bs @ drop (pos + length bs) x) (pos + length bs) 0 (cct + 2 * length bs)"
  using assms
proof (induction bs arbitrary: x pos cct)
  case Nil
  then show ?case by (simp add: hex_encode_def)
next
  case (Cons b bs)
  have lt: "unat b div 16 < 16" "unat b mod 16 < 16" using unat_lt [of b] by auto
  have split: "hex_encode (b # bs) @ rest = hex_digit (unat b div 16) # hex_digit (unat b mod 16) # (hex_encode bs @ rest)"
    by (simp add: hex_encode_def)
  have "hex_loop (hex_encode (b # bs) @ rest) x pos 0 cct = hex_loop (hex_encode bs @ rest) (x[pos := b]) (Suc pos) 0 (cct + 2)"
    unfolding split using Cons.prems 
    by (simp add: to_digit16_hex_digit [OF lt(1)] to_digit16_hex_digit [OF lt(2)] Let_def hex_pair mod_Suc)
  also have "\<dots> = hex_loop rest (take (Suc pos) (x[pos := b]) @ bs @ drop (Suc pos + length bs) (x[pos := b]))
      (Suc pos + length bs) 0 (cct + 2 + 2 * length bs)"
    using Cons.prems by (intro Cons.IH) auto
  also have "take (Suc pos) (x[pos := b]) = take pos x @ [b]"
    using Cons.prems by (simp add: take_Suc_conv_app_nth)
  finally show ?case using Cons.prems by simp
qed

lemma hex_fill_zeros: "hex_fill [pos..<pos + n] 0 x = take pos x @ replicate n 0 @ drop (pos + n) x" if "pos + n \<le> length x"
  using that
proof (induction n arbitrary: x pos)
  case (Suc n)
  have "hex_fill [pos..<pos + Suc n] 0 x = hex_fill [Suc pos..<Suc pos + n] 0 (x[pos := 0])"
    by (subst upt_conv_Cons) simp_all
  also have "\<dots> = take (Suc pos) (x[pos := 0]) @ replicate n 0 @ drop (Suc pos + n) (x[pos := 0])"
    using Suc.prems by (intro Suc.IH) simp
  also have "take (Suc pos) (x[pos := 0]) = take pos x @ [0]"
    using Suc.prems by (simp add: take_Suc_conv_app_nth)
  finally show ?case using Suc.prems by (simp add: replicate_app_Cons_same)
qed simp

text \<open>
  Decoding inverts encoding. A buffer that is long enough receives the encoded bytes,
  followed by zeros; a full buffer ignores what follows in the string.
\<close>
theorem hex_roundtrip:
  assumes "length bs \<le> length x"
  shows "hexstr_to_u8v (hex_encode bs) x = Some (bs @ replicate (length x - length bs) 0)
     \<and> (length bs = length x \<longrightarrow> hexstr_to_u8v (hex_encode bs @ rest) x = Some bs)"
proof -
  have "hex_loop (hex_encode bs) x 0 0 0 = Some (bs @ drop (length bs) x, length bs, 0)"
    using hex_loop_encode [of 0 bs x 0 "[]"] assms by simp
  moreover have "hex_fill [length bs..<length x] 0 (bs @ drop (length bs) x) = bs @ replicate (length x - length bs) 0"
    using hex_fill_zeros [of "length bs" "length x - length bs" "bs @ drop (length bs) x"] assms by simp
  moreover have "hex_loop (hex_encode bs @ rest) x 0 0 0 = Some (bs, length bs, 0)" if "length bs = length x"
    using hex_loop_encode [of 0 bs x 0 rest] that by (cases rest) simp_all
  ultimately show ?thesis by (simp add: hexstr_to_u8v_def)
qed

theorem hex_roundtrip_witness:
  "hexstr_to_u8v (hex_encode [0xC0, 0xDE]) [1, 1, 1] = Some [0xC0, 0xDE, 0]"
  using hex_roundtrip [of "[0xC0, 0xDE]" "[1, 1, 1]" "[]"] by simp

section \<open>What a verified report means\<close>

lemma ias_key: "parse_spki_value IAS_SPKI = Ok \<lparr>algorithm_id_value = RSA_ENCRYPTION, key_value = drop 20 IAS_SPKI\<rparr>"
proof -
  have "IAS_SPKI = tlv (tag_u8 Sequence) RSA_ENCRYPTION @ tlv (tag_u8 BitString) (0 # drop 20 IAS_SPKI)"
    by (simp add: IAS_SPKI_def RSA_ENCRYPTION_def tlv_def len_octets_def tag_u8.simps CONSTRUCTED_def)
  moreover have "length RSA_ENCRYPTION < 65536" "length (drop 20 IAS_SPKI) < 65535"
    by (simp_all add: RSA_ENCRYPTION_def IAS_SPKI_def)
  ultimately show ?thesis
    unfolding parse_spki_value_def read_all_Ok rd_bind_Ok webpki_readers_Ok bit_string_Ok by (auto simp: rd_ret_Ok)
qed

lemma verify_miner_cert_no_panic: "verify_miner_cert T ias_sig ias_cert report_json_raw \<noteq> Inl e"
proof -
  have "verify_is_valid_tls_server_cert verify cert algs anchors [] time \<noteq> Panic"
    if "EndEntityCert_from der = Ok cert" for verify cert algs anchors time der
  proof -
    have "at_place 0 cert" using parse_cert_ee that by (simp add: EndEntityCert_from_def at_place_def)
    from build_chain_no_panic [OF this] show ?thesis by (simp add: verify_is_valid_tls_server_cert_def)
  qed
  then show ?thesis
    using parse_cert_no_panic verify_signature_no_panic
    by (auto simp: verify_miner_cert_def Let_def EndEntityCert_from_def split: option.splits result.splits)
qed

lemma verify_miner_cert_Some:
  "verify_miner_cert T ias_sig ias_cert report_json_raw = Inr (Some v) \<longleftrightarrow>
     v = 1 \<and>
     (\<exists>der cert sg.
        base64_decode_config T ias_cert = Some der \<and> EndEntityCert_from der = Ok cert \<and>
        verify_is_valid_tls_server_cert (unparsed_public_key_verify T) cert SUPPORTED_SIG_ALGS IAS_SERVER_ROOTS [] 1670515200 = Ok () \<and>
        base64_decode T ias_sig = Some sg \<and>
        EndEntityCert_verify_signature (unparsed_public_key_verify T) cert RSA_PKCS1_2048_8192_SHA256 report_json_raw sg = Ok ())"
  by (auto simp: verify_miner_cert_def Let_def from_seconds_since_unix_epoch_def split: option.splits result.splits)

lemma ias_time: "(of_nat (seconds_since_1970 2022 12 8 16 0 0) :: u64) = 1670515200"
proof -
  have "sum_list (map year_length [1970..<2022]) = 18993"
    using sum_year_length [of 52] by (simp add: days_before_ad_def)
  moreover have "[1..<12] = [1, 2, 3, 4, 5, 6, 7, 8, 9, 10, 11 :: nat]" by (simp add: upt_rec)
  ultimately have "days_since_1970 2022 12 8 = 19334"
    unfolding days_since_1970_def by (simp add: month_lengths leap_year_def)
  then show ?thesis by (simp add: seconds_since_1970_def)
qed

text \<open>
  C8: a report is accepted only with a certificate that Intel's attestation service itself
  issued: the certificate names the service as its issuer and bears a signature under the
  service's key by one of the four supported algorithms, covers the eighth of December 2022 at
  16:00 UTC, is not that of a CA and serves the purpose; and the report bears a signature under
  the RSA key of the certificate. Nothing else of the report is looked at.
\<close>
theorem attestation_from_ias:
  assumes "verify_miner_cert T ias_sig ias_cert report_json_raw = Inr (Some v)"
  shows "v = 1 \<and>
     (\<exists>der cert sg alg key.
        base64_decode_config T ias_cert = Some der \<and> EndEntityCert_from der = Ok cert \<and>
        cert_issuer cert = IAS_SUBJECT \<and>
        within_validity (of_nat (seconds_since_1970 2022 12 8 16 0 0)) cert \<and>
        allowed_at 0 cert \<and> fit_for_purpose EKU_SERVER_AUTH cert \<and>
        alg \<in> set SUPPORTED_SIG_ALGS \<and> signature_alg_id alg = sd_algorithm (cert_signed_data cert) \<and>
        unparsed_public_key_verify T (verification_alg alg) (drop 20 IAS_SPKI)
          (sd_data (cert_signed_data cert)) (sd_signature (cert_signed_data cert)) \<and>
        base64_decode T ias_sig = Some sg \<and>
        parse_spki_value (cert_spki cert) = Ok key \<and> algorithm_id_value key = RSA_ENCRYPTION \<and>
        unparsed_public_key_verify T Ring_RSA_PKCS1_2048_8192_SHA256 (key_value key) report_json_raw sg)"
proof -
  from assms obtain der cert sg where v: "v = 1" "base64_decode_config T ias_cert = Some der" "EndEntityCert_from der = Ok cert"
    and chain: "verify_is_valid_tls_server_cert (unparsed_public_key_verify T) cert SUPPORTED_SIG_ALGS IAS_SERVER_ROOTS [] 1670515200 = Ok ()"
    and sg: "base64_decode T ias_sig = Some sg"
      "EndEntityCert_verify_signature (unparsed_public_key_verify T) cert RSA_PKCS1_2048_8192_SHA256 report_json_raw sg = Ok ()"
    unfolding verify_miner_cert_Some by blast
  have ee: "cert_ee_or_ca cert = EndEntity" using v(3) by (simp add: EndEntityCert_from_def parse_cert_ee)
  have "acceptable EKU_SERVER_AUTH 1670515200 0 cert" and "anchored (unparsed_public_key_verify T) SUPPORTED_SIG_ALGS IAS_SERVER_ROOTS cert"
    using chain unfolding direct_chain [OF ee] by blast+
  then have issuer: "cert_issuer cert = IAS_SUBJECT" and signed: "signed_under (unparsed_public_key_verify T) SUPPORTED_SIG_ALGS IAS_SPKI cert"
    unfolding anchored_end_entity [OF ee] IAS_SERVER_ROOTS_def by simp_all
  obtain alg where alg: "alg \<in> set SUPPORTED_SIG_ALGS" "signature_alg_id alg = sd_algorithm (cert_signed_data cert)"
    "unparsed_public_key_verify T (verification_alg alg) (drop 20 IAS_SPKI)
       (sd_data (cert_signed_data cert)) (sd_signature (cert_signed_data cert))"
    using signed_under_alg [OF signed] unfolding ias_key by fastforce
  moreover obtain key where "parse_spki_value (cert_spki cert) = Ok key" "algorithm_id_value key = RSA_ENCRYPTION"
    "unparsed_public_key_verify T Ring_RSA_PKCS1_2048_8192_SHA256 (key_value key) report_json_raw sg"
    using sg(2) by (auto simp: EndEntityCert_verify_signature_def sd_verify_signature_Ok RSA_PKCS1_2048_8192_SHA256_def sig_alg_def)
  ultimately show ?thesis
    using v sg(1) issuer \<open>acceptable _ _ _ _\<close> unfolding ias_time acceptable_def by blast
qed

text \<open>A certificate that the service would issue, and a report signed with its key.\<close>

definition ex_ias_der :: bytes where
  "ex_ias_der = ex_der (ex_tbs IAS_SUBJECT [4] (ex_extension 15 []))"

definition ex_ias_cert :: Cert where
  "ex_ias_cert = Cert EndEntity (ex_signed (ex_tbs IAS_SUBJECT [4] (ex_extension 15 []))) IAS_SUBJECT ex_validity [4] ex_spki None None None None"

definition ex_ring :: ring_verify where
  "ex_ring alg key msg signature \<longleftrightarrow> signature = [7]"

lemma ex_ias_parse: "EndEntityCert_from ex_ias_der = Ok ex_ias_cert"
  by code_simp

lemma ex_ias_chain:
  "verify_is_valid_tls_server_cert ex_ring ex_ias_cert SUPPORTED_SIG_ALGS IAS_SERVER_ROOTS [] 1670515200 = Ok ()"
  by code_simp

lemma ex_ias_signature: "EndEntityCert_verify_signature ex_ring ex_ias_cert RSA_PKCS1_2048_8192_SHA256 msg [7] = Ok ()"
proof -
  have "parse_spki_value ex_spki = Ok \<lparr>algorithm_id_value = RSA_ENCRYPTION, key_value = [9]\<rparr>" by code_simp
  then show ?thesis
    by (simp add: EndEntityCert_verify_signature_def sd_verify_signature_Ok ex_ias_cert_def ex_ring_def
        RSA_PKCS1_2048_8192_SHA256_def sig_alg_def)
qed

lemma ex_ias_verified:
  assumes "base64_decode_config T = Some" "base64_decode T = Some" "unparsed_public_key_verify T = ex_ring"
  shows "verify_miner_cert T [7] ex_ias_der msg = Inr (Some 1)"
  using assms by (auto simp: verify_miner_cert_Some ex_ias_parse ex_ias_chain ex_ias_signature)

definition ev_conf :: "'t \<Rightarrow> 't ev_config_scheme" where
  "ev_conf more' = sc_conf (ev_config_ext Some Some ex_ring Some (\<lambda>k m sg. m = sg) Some Some (\<lambda>k m sg. m = sg) more')"

lemma ev_conf_verified: "verify_miner_cert (ev_conf m) [7] ex_ias_der msg = Inr (Some 1)"
  by (rule ex_ias_verified)
    (simp_all add: ev_conf_def sc_conf_def st_conf_def sm_conf_def ca_conf_def sh_conf_def ref_ext_def)

theorem attestation_from_ias_witness:
  "verify_miner_cert (ev_conf ()) [7] ex_ias_der [1, 2] = Inr (Some 1) \<and>
   (\<exists>cert. cert_issuer cert = IAS_SUBJECT \<and> within_validity (of_nat (seconds_since_1970 2022 12 8 16 0 0)) cert)"
  using attestation_from_ias [OF ev_conf_verified, of "()" "[1, 2]"] ev_conf_verified [of "()" "[1, 2]"] by blast

end
