(* ===== verification/Tee_Worker.thy ===== *)
theory Tee_Worker
  imports Enclave_Verify
begin

text \<open>
  The tee-worker pallet (\<open>c-pallets/tee-worker\<close>): registration of TEE workers with an
  attestation report, the network's PoDR2 key, and the trait \<open>ScheduleFind\<close>, here the locale
  \<open>schedule_find\<close>, through which the file bank and the audit find and punish workers.

  The lemmas show who can become a worker, that the PoDR2 key is there exactly while there are
  workers, and what a punishment touches.
\<close>

section \<open>Types and storage\<close>

record TeeWorkerInfo =
  controller_account :: AccountId
  tee_peer_id :: PeerId
  node_key :: NodePublicKey
  stash_account :: AccountId

record SgxAttestationReport =
  report_json_raw :: "u8 list"
  report_sign :: "u8 list"
  cert_der :: "u8 list"

datatype tw_event =
    RegistrationTeeWorker AccountId PeerId
  | TeeExit AccountId
  | UpdatePeerId AccountId

record tw_config = ev_config +
  MaxWhitelist :: nat

record tw_state = sc_state +
  TeeWorkerMap :: "AccountId \<rightharpoonup> TeeWorkerInfo"
  TeePodr2Pk :: "Podr2Key option"
  MrEnclaveWhitelist :: "u8 list list"
  tw_events :: "tw_event list"

abbreviation TWErr :: "tee_error \<Rightarrow> dispatch_error" where
  "TWErr \<equiv> dispatch_error.TeeWorker"

definition tw_deposit_event :: "tw_event \<Rightarrow> ('s tw_state_scheme, unit) act" where
  "tw_deposit_event ev = modify (tw_events_update (\<lambda>es. es @ [ev]))"

text \<open>The counter of a \<open>CountedStorageMap\<close>.\<close>

definition tee_worker_count :: "'s tw_state_scheme \<Rightarrow> nat" where
  "tee_worker_count s = card (dom (TeeWorkerMap s))"

section \<open>Extrinsics\<close>

definition tee_register ::
  "'t tw_config_scheme \<Rightarrow> origin \<Rightarrow> AccountId \<Rightarrow> NodePublicKey \<Rightarrow> PeerId \<Rightarrow> Podr2Key \<Rightarrow> SgxAttestationReport
     \<Rightarrow> ('s tw_state_scheme, unit) act" where
  "tee_register T origin stash_account' node_key' peer_id' podr2_pbk sgx_attestation_report = transactional (
     bnd (ensure_signed origin) (\<lambda>sender.
     bnd (gets_some (\<lambda>s. Bonded s stash_account') (TWErr TW_NotBond)) (\<lambda>acc.
     andthen (ensure (sender = acc) (TWErr TW_NotController))
    (andthen (ensures (\<lambda>s. \<not> contains_key (TeeWorkerMap s) sender) (TWErr TW_AlreadyRegistration))
    (bnd (bnd (lift (verify_miner_cert T (report_sign sgx_attestation_report) (cert_der sgx_attestation_report)
         (report_json_raw sgx_attestation_report))) (\<lambda>verified. ok_or verified (TWErr TW_VerifyCertFailed))) (\<lambda>_.
     bnd (gets tee_worker_count) (\<lambda>count.
     andthen (act_when (count = 0) (modify (TeePodr2Pk_update (\<lambda>_. Some podr2_pbk))))
    (andthen (modify (TeeWorkerMap_update (\<lambda>m. m(sender \<mapsto>
       \<lparr>controller_account = sender, tee_peer_id = peer_id', node_key = node_key', stash_account = stash_account'\<rparr>))))
     (tw_deposit_event (RegistrationTeeWorker sender peer_id'))))))))))"

definition update_whitelist :: "'t tw_config_scheme \<Rightarrow> origin \<Rightarrow> u8 list \<Rightarrow> ('s tw_state_scheme, unit) act" where
  "update_whitelist T origin mr_enclave = transactional (
     andthen (ensure_root origin)
    (bnd (gets_some (\<lambda>s. try_push (MaxWhitelist T) (MrEnclaveWhitelist s) mr_enclave) Panicked) (\<lambda>list'.
     modify (MrEnclaveWhitelist_update (\<lambda>_. list')))))"

definition tee_exit :: "origin \<Rightarrow> ('s tw_state_scheme, unit) act" where
  "tee_exit origin = transactional (
     bnd (ensure_signed origin) (\<lambda>sender.
     andthen (modify (TeeWorkerMap_update (\<lambda>m. m(sender := None))))
    (bnd (gets tee_worker_count) (\<lambda>count.
     andthen (act_when (count = 0) (modify (TeePodr2Pk_update (\<lambda>_. None))))
     (tw_deposit_event (TeeExit sender))))))"

section \<open>The trait \<open>ScheduleFind\<close>\<close>

definition contains_scheduler :: "AccountId \<Rightarrow> 's tw_state_scheme \<Rightarrow> bool" where
  "contains_scheduler acc s = contains_key (TeeWorkerMap s) acc"

definition punish_scheduler :: "'t tw_config_scheme \<Rightarrow> AccountId \<Rightarrow> ('s tw_state_scheme, unit) act" where
  "punish_scheduler T acc =
     bnd (gets_some (\<lambda>s. TeeWorkerMap s acc) (TWErr TW_NonTeeWorker)) (\<lambda>tee_worker.
     andthen (slash_scheduler T (stash_account tee_worker))
     (record_punishment (stash_account tee_worker)))"

definition get_controller_list :: "'t tw_config_scheme \<Rightarrow> 's tw_state_scheme \<Rightarrow> AccountId list" where
  "get_controller_list T s = iter_keys T (dom (TeeWorkerMap s))"

definition get_first_controller :: "'t tw_config_scheme \<Rightarrow> ('s tw_state_scheme, AccountId) act" where
  "get_first_controller T =
     bnd (gets (\<lambda>s. iter_keys T (dom (TeeWorkerMap s)))) (\<lambda>accs.
     (case accs of [] \<Rightarrow> throw (TWErr TW_NonTeeWorker) | acc # _ \<Rightarrow> ret acc))"

text \<open>
  What its clients rely on: the first controller is a worker and exists when there is one, and
  the list of controllers has every worker once.
\<close>

locale schedule_find =
  fixes laws :: "'t \<Rightarrow> bool"
    and workers :: "'s \<Rightarrow> AccountId set"
    and contains :: "AccountId \<Rightarrow> 's \<Rightarrow> bool"
    and first :: "'t \<Rightarrow> ('s, AccountId) act"
    and controllers :: "'t \<Rightarrow> 's \<Rightarrow> AccountId list"
  assumes contains_iff: "contains a s \<longleftrightarrow> a \<in> workers s"
    and controllers_set: "laws T \<Longrightarrow> finite (workers s) \<Longrightarrow> set (controllers T s) = workers s"
    and controllers_distinct: "laws T \<Longrightarrow> finite (workers s) \<Longrightarrow> distinct (controllers T s)"
    and first_hd: "first T s = (case controllers T s of [] \<Rightarrow> (Inl (TWErr TW_NonTeeWorker), s) | a # _ \<Rightarrow> (Inr a, s))"
begin

lemma first_succeeds:
  assumes "laws T" and "finite (workers s)"
  shows "(\<exists>a. first T s = (Inr a, s) \<and> contains a s) \<longleftrightarrow> workers s \<noteq> {}"
  using controllers_set [OF assms] by (cases "controllers T s") (auto simp: first_hd contains_iff)

lemma first_is_worker:
  assumes "laws T" and "finite (workers s)" and "first T s = (Inr a, t)"
  shows "t = s" and "contains a s"
  using assms(3) controllers_set [OF assms(1,2)] by (auto simp: first_hd contains_iff split: list.splits)

lemma some_controller:
  assumes "laws T" and "finite (workers s)" and "i < length (controllers T s)"
  shows "contains (controllers T s ! i) s"
  using nth_mem [OF assms(3)] controllers_set [OF assms(1,2)] contains_iff by blast

lemma controllers_count: "laws T \<Longrightarrow> finite (workers s) \<Longrightarrow> length (controllers T s) = card (workers s)"
  using controllers_set controllers_distinct by (metis distinct_card)

end

interpretation tee: schedule_find iter_laws "\<lambda>s. dom (TeeWorkerMap s)" contains_scheduler
  get_first_controller get_controller_list
proof
  fix s :: "'s tw_state_scheme" and T :: "'t tw_config_scheme" and a
  show "contains_scheduler a s \<longleftrightarrow> a \<in> dom (TeeWorkerMap s)"
    by (simp add: contains_scheduler_def contains_key_dom)
  show "get_first_controller T s =
      (case get_controller_list T s of [] \<Rightarrow> (Inl (TWErr TW_NonTeeWorker), s) | a # _ \<Rightarrow> (Inr a, s))"
    by (simp add: get_first_controller_def get_controller_list_def run_simps split: list.split)
qed (simp_all add: get_controller_list_def iter_laws_def)

section \<open>Workers and the PoDR2 key\<close>

inductive tw_reachable :: "'t tw_config_scheme \<Rightarrow> 's tw_state_scheme \<Rightarrow> bool" for T where
  genesis: "TeeWorkerMap s = Map.empty \<Longrightarrow> TeePodr2Pk s = None \<Longrightarrow> tw_reachable T s"
| register: "tw_reachable T s \<Longrightarrow> tw_reachable T (snd (tee_register T origin st nk p pk r s))"
| whitelist: "tw_reachable T s \<Longrightarrow> tw_reachable T (snd (update_whitelist T origin m s))"
| exit: "tw_reachable T s \<Longrightarrow> tw_reachable T (snd (tee_exit origin s))"
| elsewhere: "tw_reachable T s \<Longrightarrow> TeeWorkerMap t = TeeWorkerMap s \<Longrightarrow> TeePodr2Pk t = TeePodr2Pk s \<Longrightarrow> tw_reachable T t"

definition tw_inv :: "'s tw_state_scheme \<Rightarrow> bool" where
  "tw_inv s \<longleftrightarrow> finite (dom (TeeWorkerMap s)) \<and> (TeePodr2Pk s = None \<longleftrightarrow> TeeWorkerMap s = Map.empty)
     \<and> (\<forall>a w. TeeWorkerMap s a = Some w \<longrightarrow> controller_account w = a)"

lemma tee_worker_count_zero:
  "finite (dom (TeeWorkerMap s)) \<Longrightarrow> tee_worker_count s = 0 \<longleftrightarrow> TeeWorkerMap s = Map.empty"
  by (simp add: tee_worker_count_def)

lemma tw_inv_ops:
  assumes "tw_inv s"
  shows "tw_inv (snd (tee_register T origin st nk p pk r s))"
    and "tw_inv (snd (update_whitelist T origin m s))" and "tw_inv (snd (tee_exit origin s))"
proof -
  have "wp (tee_register T origin st nk p pk r) (\<lambda>_. tw_inv) (\<lambda>_. tw_inv) s"
    using assms by (auto simp: tee_register_def tw_deposit_event_def tee_worker_count_def wp_rules tw_inv_def)
  moreover have "wp (update_whitelist T origin m) (\<lambda>_. tw_inv) (\<lambda>_. tw_inv) s"
    using assms by (auto simp: update_whitelist_def wp_rules tw_inv_def)
  moreover have "wp (tee_exit origin) (\<lambda>_. tw_inv) (\<lambda>_. tw_inv) s"
    using assms by (auto simp: tee_exit_def tw_deposit_event_def tee_worker_count_zero wp_rules tw_inv_def split: if_splits)
  ultimately show "tw_inv (snd (tee_register T origin st nk p pk r s))"
    and "tw_inv (snd (update_whitelist T origin m s))" and "tw_inv (snd (tee_exit origin s))"
    by (simp_all add: wp_state)
qed

lemma tw_reachable_inv: "tw_reachable T s \<Longrightarrow> tw_inv s"
proof (induction rule: tw_reachable.induct)
  case (genesis s)
  then show ?case by (simp add: tw_inv_def)
next
  case (elsewhere s t)
  then show ?case by (simp add: tw_inv_def)
qed (simp_all add: tw_inv_ops)

section \<open>Properties\<close>

text \<open>
  C22: in every reachable state the network has a PoDR2 key exactly while a TEE worker is
  registered, and every worker is stored under its own controller account; asking for the
  first controller then succeeds exactly when there is a key.
\<close>
theorem podr2_key_iff_worker:
  assumes "tw_reachable T s" and "iter_laws T"
  shows "(TeePodr2Pk s \<noteq> None \<longleftrightarrow> (\<exists>a. get_first_controller T s = (Inr a, s) \<and> contains_scheduler a s))
    \<and> (\<forall>a w. TeeWorkerMap s a = Some w \<longrightarrow> controller_account w = a)"
proof -
  note inv = tw_reachable_inv [OF assms(1)]
  then have "finite (dom (TeeWorkerMap s))" by (simp add: tw_inv_def)
  from tee.first_succeeds [OF assms(2) this] inv show ?thesis by (auto simp: tw_inv_def)
qed

text \<open>
  C23: a successful registration means that the sender is the controller bonded to the stash,
  was not registered, and that the certificate and the signature of the attestation report
  verify; the PoDR2 key of the network is set by the first worker only.
\<close>
theorem tee_register_correct:
  assumes "tee_register T (SignedOrigin a) st nk p pk r s = (Inr (), t)" and "finite (dom (TeeWorkerMap s))"
  shows "Bonded s st = Some a \<and> TeeWorkerMap s a = None
     \<and> (\<exists>dec cert sg. base64_decode_config T (cert_der r) = Some dec \<and> EndEntityCert_from dec = Ok cert
          \<and> verify_is_valid_tls_server_cert (unparsed_public_key_verify T) cert SUPPORTED_SIG_ALGS IAS_SERVER_ROOTS [] 1670515200 = Ok ()
          \<and> base64_decode T (report_sign r) = Some sg
          \<and> EndEntityCert_verify_signature (unparsed_public_key_verify T) cert RSA_PKCS1_2048_8192_SHA256 (report_json_raw r) sg = Ok ())
     \<and> TeeWorkerMap t = (TeeWorkerMap s)(a \<mapsto>
          \<lparr>controller_account = a, tee_peer_id = p, node_key = nk, stash_account = st\<rparr>)
     \<and> TeePodr2Pk t = (if TeeWorkerMap s = Map.empty then Some pk else TeePodr2Pk s)"
    (is "?Q t")
proof -
  have "wp (tee_register T (SignedOrigin a) st nk p pk r) (\<lambda>_. ?Q) any_error s"
    using assms(2)
    by (auto simp: tee_register_def tw_deposit_event_def tee_worker_count_def wp_rules contains_key_def
        verify_miner_cert_Some split: sum.splits option.splits if_splits)
  from wpD [OF this assms(1)] show ?thesis .
qed

text \<open>
  Registration does not look at the whitelist of enclaves: with any other whitelist the
  call has the same outcome and leaves the same state.
\<close>
theorem registration_ignores_whitelist:
  "tee_register T origin st nk p pk r (s\<lparr>MrEnclaveWhitelist := ws\<rparr>)
     = (case tee_register T origin st nk p pk r s of (res, t) \<Rightarrow> (res, t\<lparr>MrEnclaveWhitelist := ws\<rparr>))"
proof (cases origin)
  case (SignedOrigin a)
  show ?thesis
  proof (cases "Bonded s st")
    case (Some c)
    then show ?thesis
      by (cases "verify_miner_cert T (report_sign r) (cert_der r) (report_json_raw r)")
        (simp_all add: SignedOrigin tee_register_def tw_deposit_event_def tee_worker_count_def run_simps split: option.splits)
  qed (simp add: SignedOrigin tee_register_def run_simps)
qed (simp_all add: tee_register_def run_simps)

lemma do_slash_counters:
  fixes s :: "'s sc_state_scheme"
  shows "wp (do_slash T x v p q e) (\<lambda>_ t. CurrentCounters t = CurrentCounters s) any_error s"
  unfolding do_slash_def update_ledger_def st_deposit_event_def wp_bnd wp_gets wp_case_option wp_ret
  by (intro conjI impI allI refl) (simp add: wp_rules)

lemma slash_scheduler_counters:
  fixes s :: "'s sc_state_scheme"
  shows "wp (slash_scheduler T x) (\<lambda>_ t. CurrentCounters t = CurrentCounters s) any_error s"
  unfolding slash_scheduler_def apply_scheduler_slash_def wp_bnd wp_gets wp_gets_some
  by (auto simp: wp_case_prod wp_modify intro!: wp_mono [OF do_slash_counters])

text \<open>
  A punishment is booked on the stash account of the worker and leaves the counter of
  the controller account as it was, although credit values are looked up by controller.
\<close>
theorem punishment_misses_controller:
  assumes "punish_scheduler T a s = (Inr (), t)" and "TeeWorkerMap s a = Some w" and "stash_account w \<noteq> a"
  shows "CurrentCounters t a = CurrentCounters s a
     \<and> (\<exists>e. CurrentCounters t (stash_account w) = Some e \<and> punishment_count e =
          punishment_count (get_or default_entry (CurrentCounters s) (stash_account w)) + 1)"
    (is "?Q t")
proof -
  have "wp (record_punishment (stash_account w)) (\<lambda>_. ?Q) any_error v"
    if "CurrentCounters v = CurrentCounters s" for v
    using that assms(3)
    by (auto simp: record_punishment_def mutate_counter_def increase_punishment_count_def wp_rules checked_add_def
        split: if_splits)
  then have "wp (punish_scheduler T a) (\<lambda>_. ?Q) any_error s"
    using assms(2) unfolding punish_scheduler_def wp_bnd wp_gets_some wp_andthen
    by (auto intro: wp_mono [OF slash_scheduler_counters])
  from wpD [OF this assms(1)] show ?thesis .
qed


section \<open>A concrete configuration\<close>

definition tw_conf :: "'t \<Rightarrow> 't tw_config_scheme" where
  "tw_conf more' = ev_conf (tw_config_ext 10 more')"

lemma tw_conf_laws: "currency_laws (tw_conf m)" "perbill_laws (tw_conf m)" "iter_laws (tw_conf m)"
  by (simp_all add: tw_conf_def ev_conf_def sc_conf_laws)

lemmas conf_defs = tw_conf_def ev_conf_def sc_conf_def st_conf_def sm_conf_def ca_conf_def sh_conf_def ref_ext_def

definition ex_report :: SgxAttestationReport where
  "ex_report = \<lparr>report_json_raw = [1, 2], report_sign = [7], cert_der = ex_ias_der\<rparr>"

definition ex_tw_with :: "(AccountId \<rightharpoonup> TeeWorkerInfo) \<Rightarrow> Podr2Key option \<Rightarrow> 's \<Rightarrow> 's tw_state_scheme" where
  "ex_tw_with ws pk more' = ex_sc_with (tw_state_ext ws pk [] [] more')"

definition ex_worker :: TeeWorkerInfo where
  "ex_worker = \<lparr>controller_account = 31, tee_peer_id = [5], node_key = [6], stash_account = 30\<rparr>"

lemma ex_tw_fields:
  "TeeWorkerMap (ex_tw_with ws pk m) = ws" "TeePodr2Pk (ex_tw_with ws pk m) = pk" "MrEnclaveWhitelist (ex_tw_with ws pk m) = []"
  "Bonded (ex_tw_with ws pk m) = [30 \<mapsto> 31]" "Ledger (ex_tw_with ws pk m) = [31 \<mapsto> ex_ledger]"
  "CurrentCounters (ex_tw_with ws pk m) = [31 \<mapsto> \<lparr>proceed_block_size = 300, punishment_count = 1\<rparr>]"
  "MinValidatorBond (ex_tw_with ws pk m) = 1000" "CurrentEra (ex_tw_with ws pk m) = Some 3"
  by (simp_all add: ex_tw_with_def ex_sc_with_def ex_sm_with_def ex_ca_with_def ex_oss_with_def ex_sh_with_def)

lemma ex_tee_register: "\<exists>t. tee_register (tw_conf ()) (SignedOrigin 31) 30 [6] [5] [9] ex_report
    (ex_tw_with Map.empty None ()) = (Inr (), t) \<and> TeeWorkerMap t = [31 \<mapsto> ex_worker] \<and> TeePodr2Pk t = Some [9]"
  by (simp add: tee_register_def run_simps ex_tw_fields contains_key_def ex_report_def
      ev_conf_verified tw_conf_def tee_worker_count_def tw_deposit_event_def ex_worker_def)

theorem podr2_key_iff_worker_witness:
  "\<exists>t :: tw_state. tw_reachable (tw_conf ()) t \<and> TeePodr2Pk t = Some [9]
     \<and> (\<exists>a. get_first_controller (tw_conf ()) t = (Inr a, t) \<and> contains_scheduler a t)"
proof -
  let ?s = "ex_tw_with Map.empty None () :: tw_state"
  obtain t where t: "tee_register (tw_conf ()) (SignedOrigin 31) 30 [6] [5] [9] ex_report ?s = (Inr (), t)"
    "TeePodr2Pk t = Some [9]" using ex_tee_register by blast
  have "tw_reachable (tw_conf ()) ?s" by (rule tw_reachable.genesis) (simp_all add: ex_tw_fields)
  from tw_reachable.register [OF this, of "SignedOrigin 31" 30 "[6]" "[5]" "[9]" ex_report] t(1)
  have "tw_reachable (tw_conf ()) t" by simp
  with podr2_key_iff_worker [OF this tw_conf_laws(3)] t(2) show ?thesis by auto
qed

theorem tee_register_correct_witness:
  "\<exists>t :: tw_state. tee_register (tw_conf ()) (SignedOrigin 31) 30 [6] [5] [9] ex_report (ex_tw_with Map.empty None ()) = (Inr (), t)
     \<and> TeeWorkerMap t = [31 \<mapsto> ex_worker]"
proof -
  let ?s = "ex_tw_with Map.empty None () :: tw_state"
  obtain t where t: "tee_register (tw_conf ()) (SignedOrigin 31) 30 [6] [5] [9] ex_report ?s = (Inr (), t)"
    using ex_tee_register by blast
  have "finite (dom (TeeWorkerMap ?s))" by (simp add: ex_tw_fields)
  from tee_register_correct [OF t this] t show ?thesis by (auto simp: ex_tw_fields ex_worker_def)
qed

lemma ex_punish_worker: "\<exists>t. punish_scheduler (tw_conf ()) 31 (ex_tw_with [31 \<mapsto> ex_worker] (Some [9]) ()) = (Inr (), t)"
  by (simp add: punish_scheduler_def run_simps ex_tw_fields ex_worker_def slash_scheduler_def apply_scheduler_slash_def
      do_slash_def record_punishment_def mutate_counter_def increase_punishment_count_def checked_add_def
      update_ledger_def st_deposit_event_def default_entry_def split: prod.split)

theorem punishment_misses_controller_witness:
  "\<exists>t :: tw_state. punish_scheduler (tw_conf ()) 31 (ex_tw_with [31 \<mapsto> ex_worker] (Some [9]) ()) = (Inr (), t)
     \<and> CurrentCounters t 31 = Some \<lparr>proceed_block_size = 300, punishment_count = 1\<rparr>
     \<and> (\<exists>e. CurrentCounters t 30 = Some e \<and> punishment_count e = 1)"
proof -
  obtain t :: tw_state where t: "punish_scheduler (tw_conf ()) 31 (ex_tw_with [31 \<mapsto> ex_worker] (Some [9]) ()) = (Inr (), t)"
    using ex_punish_worker by blast
  from punishment_misses_controller [OF t, of ex_worker] t show ?thesis
    by (auto simp: ex_tw_fields ex_worker_def default_entry_def)
qed

end
