(* ===== verification/File_Bank_Types.thy ===== *)
theory File_Bank_Types
  imports Tee_Worker
begin

text \<open>
  Data of the file-bank pallet (\<open>c-pallets/file-bank\<close>): the structures of \<open>types.rs\<close>, the
  pallet's configuration, storage and events, its random numbers, and the rule for bucket
  names. The scheduler pallet and the source of randomness are not part of the repository;
  they are fields of the configuration, and \<open>scheduler_laws\<close> states what the pallet relies on.
\<close>

section \<open>Structures of \<open>types.rs\<close>\<close>

record SegmentList =
  seg_hash :: Hash
  seg_fragments :: "Hash list"

record MinerTaskList =
  task_miner :: AccountId
  task_fragments :: "Hash list"

datatype DataType = DtFile | DtFiller

datatype FileState = FsActive | FsCalculate | FsMissing | FsRecovery

record UserBrief =
  brief_user :: AccountId
  file_name :: bytes
  bucket_name :: bytes

record FragmentInfo =
  frag_hash :: Hash
  frag_avail :: bool
  frag_miner :: AccountId

record SegmentInfo =
  si_hash :: Hash
  si_fragments :: "FragmentInfo list"

record DealInfo =
  stage :: u8
  deal_count :: u8
  deal_file_size :: u128
  deal_segments :: "SegmentList list"
  needed_list :: "SegmentList list"
  deal_user :: UserBrief
  assigned_miner :: "MinerTaskList list"
  share_info :: "SegmentInfo list"
  complete_list :: "AccountId list"

record FileInfo =
  file_segments :: "SegmentInfo list"
  owner :: "UserBrief list"
  file_size :: u128
  completion :: BlockNumber
  stat :: FileState

record FillerInfo =
  filler_block_num :: u32
  miner_address :: AccountId
  filler_hash :: Hash

record UserFileSliceInfo =
  slice_hash :: Hash
  slice_size :: u128

record BucketInfo =
  object_list :: "Hash list"
  authority :: "AccountId list"

record RestoralTargetInfo =
  rt_miner :: AccountId
  rt_service_space :: u128
  restored_space :: u128
  cooling_block :: BlockNumber

record RestoralOrderInfo =
  order_count :: u32
  order_miner :: AccountId
  origin_miner :: AccountId
  fragment_hash :: Hash
  order_file :: Hash
  gen_block :: BlockNumber
  order_deadline :: BlockNumber

definition TRANSFER_RATE :: u128 where "TRANSFER_RATE = 8947849"
definition CALCULATE_RATE :: u128 where "CALCULATE_RATE = 67108864"

section \<open>Configuration, storage, events\<close>

text \<open>
  Tasks of the scheduler are named by the bytes of a file hash (64 of them) or of an account
  (32 of them); the calls the pallet schedules are those with the root origin.
\<close>

datatype task_id = DealTask Hash | MinerTask AccountId

datatype fb_call = Call_deal_reassign_miner Hash u8 u32 | Call_calculate_end Hash | Call_miner_exit AccountId

type_synonym agenda = "task_id \<rightharpoonup> BlockNumber \<times> fb_call"

record fb_config = tw_config +
  fb_OneDay :: BlockNumber
  StringLimit :: nat
  UploadFillerLimit :: u8
  NameStrLimit :: nat
  FileListLimit :: nat
  BucketLimit :: nat
  NameMinLength :: u32
  SegmentCount :: nat
  FragmentCount :: u32
  OwnerLimit :: nat
  RestoralOrderLife :: u32
  MissionCount :: nat
  fb_random :: "BlockNumber \<Rightarrow> u32 \<Rightarrow> u8 list option"
  schedule_named :: "task_id \<Rightarrow> BlockNumber \<Rightarrow> fb_call \<Rightarrow> BlockNumber \<Rightarrow> agenda \<Rightarrow> dispatch_error + agenda"
  cancel_named :: "task_id \<Rightarrow> agenda \<Rightarrow> dispatch_error + agenda"

text \<open>
  A name is in the agenda at most once: scheduling it again fails, cancelling frees it.
\<close>

definition scheduler_laws :: "'t fb_config_scheme \<Rightarrow> bool" where
  "scheduler_laws T \<longleftrightarrow>
     (\<forall>i at c now ag ag'. schedule_named T i at c now ag = Inr ag' \<longrightarrow> ag i = None \<and> ag' = ag(i \<mapsto> (at, c)))
   \<and> (\<forall>i at c now ag e. schedule_named T i at c now ag = Inl e \<longrightarrow> e \<noteq> Panicked)
   \<and> (\<forall>i ag. cancel_named T i ag = (if ag i = None then Inl (External 2) else Inr (ag(i := None))))"

datatype fb_event =
    UploadDeclaration AccountId AccountId Hash
  | TransferReport AccountId "Hash list"
  | DeleteFile AccountId AccountId "Hash list"
  | ReplaceFiller AccountId "Hash list"
  | CalculateEnd Hash
  | FillerUpload AccountId u64
  | FillerDelete AccountId Hash
  | CreateBucket AccountId AccountId bytes
  | DeleteBucket AccountId AccountId bytes
  | Withdraw AccountId
  | GenerateRestoralOrder AccountId Hash
  | ClaimRestoralOrder AccountId Hash
  | RecoveryCompleted AccountId Hash
  | StorageCompleted Hash
  | MinerExitPrep AccountId

record fb_state = tw_state +
  DealMap :: "Hash \<rightharpoonup> DealInfo"
  FileMap :: "Hash \<rightharpoonup> FileInfo"
  UserHoldFileList :: "AccountId \<rightharpoonup> UserFileSliceInfo list"
  FillerMap :: "AccountId \<times> Hash \<rightharpoonup> FillerInfo"
  PendingReplacements :: "AccountId \<rightharpoonup> u32"
  InvalidFile :: "AccountId \<rightharpoonup> Hash list"
  MinerLock :: "AccountId \<rightharpoonup> BlockNumber"
  Bucket :: "AccountId \<times> bytes \<rightharpoonup> BucketInfo"
  UserBucketList :: "AccountId \<rightharpoonup> bytes list"
  RestoralTarget :: "AccountId \<rightharpoonup> RestoralTargetInfo"
  RestoralOrder :: "Hash \<rightharpoonup> RestoralOrderInfo"
  ClearUserList :: "AccountId list"
  Agenda :: agenda
  fb_events :: "fb_event list"

abbreviation FBErr :: "fb_error \<Rightarrow> dispatch_error" where
  "FBErr \<equiv> dispatch_error.FileBank"

definition fb_deposit_event :: "fb_event \<Rightarrow> ('s fb_state_scheme, unit) act" where
  "fb_deposit_event ev = modify (fb_events_update (\<lambda>es. es @ [ev]))"

text \<open>\<open>schedule_named\<close> with its error mapped to \<open>Unexpected\<close>, as every caller does.\<close>

definition schedule_task ::
  "'t fb_config_scheme \<Rightarrow> task_id \<Rightarrow> BlockNumber \<Rightarrow> fb_call \<Rightarrow> ('s fb_state_scheme, unit) act" where
  "schedule_task T i at c =
     bnd (gets (\<lambda>s. schedule_named T i at c (block_number s) (Agenda s))) (\<lambda>r.
     (case r of Inl _ \<Rightarrow> throw (FBErr FB_Unexpected) | Inr ag \<Rightarrow> modify (Agenda_update (\<lambda>_. ag))))"

text \<open>\<open>cancel_named\<close> whose failure is only logged.\<close>

definition cancel_task :: "'t fb_config_scheme \<Rightarrow> task_id \<Rightarrow> ('s fb_state_scheme, unit) act" where
  "cancel_task T i =
     bnd (gets (\<lambda>s. cancel_named T i (Agenda s))) (\<lambda>r.
     (case r of Inl _ \<Rightarrow> ret () | Inr ag \<Rightarrow> modify (Agenda_update (\<lambda>_. ag))))"

section \<open>Random numbers\<close>

text \<open>SCALE decoding of a \<open>u32\<close>: the first four bytes, the lowest first.\<close>

definition decode_u32 :: "u8 list \<Rightarrow> u32" where
  "decode_u32 bs = (case bs of
      a # b # c # d # _ \<Rightarrow> ucast a + 256 * ucast b + 65536 * ucast c + 16777216 * ucast d
    | _ \<Rightarrow> 0)"

text \<open>The seeds are added without a check; the counter is what ends the search.\<close>

function random_from :: "(u32 \<Rightarrow> u8 list option) \<Rightarrow> u32 \<Rightarrow> u32 \<Rightarrow> dispatch_error \<Rightarrow> dispatch_error + u32" where
  "random_from random seed counter e =
     (let random_number = (case random (seed + counter) of Some v \<Rightarrow> decode_u32 v | None \<Rightarrow> 0) in
      if random_number \<noteq> 0 then Inr random_number
      else (case checked_add counter 1 of None \<Rightarrow> Inl e | Some c \<Rightarrow> random_from random seed c e))"
  by pat_completeness auto
termination
proof (relation "measure (\<lambda>(random, seed, counter, e). 2 ^ 32 - unat counter)")
  fix random :: "u32 \<Rightarrow> u8 list option" and seed counter c :: u32 and e n
  assume "checked_add counter 1 = Some c"
  then have "unat c = unat counter + 1" by (simp add: arith_wp)
  with unat_lt [of c] show "((random, seed, c, e), random, seed, counter, e)
      \<in> measure (\<lambda>(random, seed, counter, e). 2 ^ 32 - unat counter)"
    by simp
qed simp

declare random_from.simps [simp del]

definition generate_random_number :: "'t fb_config_scheme \<Rightarrow> u32 \<Rightarrow> ('s fb_state_scheme, u32) act" where
  "generate_random_number T seed =
     bnd (gets (\<lambda>s. random_from (fb_random T (block_number s)) seed 0 (FBErr FB_Overflow))) lift"

lemma random_from_nonzero: "random_from random seed counter e = Inr n \<Longrightarrow> n \<noteq> 0"
proof (induction random seed counter e rule: random_from.induct)
  case (1 random seed counter e)
  let ?n = "case random (seed + counter) of Some v \<Rightarrow> decode_u32 v | None \<Rightarrow> 0"
  show ?case
  proof (cases "?n = 0")
    case True
    then obtain c where c: "checked_add counter 1 = Some c" "random_from random seed c e = Inr n"
      using "1.prems" by (subst (asm) random_from.simps) (auto simp: Let_def split: option.splits)
    show ?thesis by (rule "1.IH" [OF refl _ c]) (use True in simp)
  next
    case False
    then show ?thesis
      using "1.prems" by (subst (asm) random_from.simps) (auto simp: Let_def)
  qed
qed

end
