(* ===== verification/File_Bank_Functions.thy ===== *)
theory File_Bank_Functions
  imports File_Bank_Types
begin

text \<open>
  The helpers of the file bank (\<open>c-pallets/file-bank/src/functions.rs\<close>), in the order of the
  file: the shape of a file, the file built from a finished deal, buckets, deals and the
  choice of miners, removal of owners, restoral targets, bucket names.
\<close>

abbreviation try_mutate_file ::
  "Hash \<Rightarrow> fb_error \<Rightarrow> (FileInfo \<Rightarrow> ('s fb_state_scheme, FileInfo) act) \<Rightarrow> ('s fb_state_scheme, unit) act" where
  "try_mutate_file h e f \<equiv> try_mutate_some FileMap FileMap_update h (FBErr e) f"

abbreviation try_get_file :: "Hash \<Rightarrow> fb_error \<Rightarrow> ('s fb_state_scheme, FileInfo) act" where
  "try_get_file h e \<equiv> gets_some (\<lambda>s. FileMap s h) (FBErr e)"

section \<open>The shape of a file, and the file of a finished deal\<close>

fun check_file_spec :: "'t fb_config_scheme \<Rightarrow> SegmentList list \<Rightarrow> bool" where
  "check_file_spec T [] = True"
| "check_file_spec T (segment # seg_list) =
     (if len_as (seg_fragments segment) \<noteq> FragmentCount T then False else check_file_spec T seg_list)"

definition best_miner_count :: u32 where
  "best_miner_count = ucast (SEGMENT_SIZE * 15 div 10 div FRAGMENT_SIZE)"

text \<open>
  The search for the miner of a fragment: the first task list that has it, skipping the miners
  already used for this segment when there are as many miners as fragments. The task lists are
  sorted, so \<open>binary_search\<close> finds a fragment exactly when it is there, and whichever of several
  equal entries is removed the list is the same afterwards (lemma \<open>sorted_remove_any\<close>).
\<close>

fun find_task :: "bool \<Rightarrow> AccountId list \<Rightarrow> Hash \<Rightarrow> MinerTaskList list \<Rightarrow> (AccountId \<times> MinerTaskList list) option" where
  "find_task flag mark h [] = None"
| "find_task flag mark h (t # ts) =
     (if flag \<and> task_miner t \<in> set mark
      then map_option (\<lambda>(m, ts'). (m, t # ts')) (find_task flag mark h ts)
      else if h \<in> set (task_fragments t)
      then Some (task_miner t, t\<lparr>task_fragments := remove1 h (task_fragments t)\<rparr> # ts)
      else map_option (\<lambda>(m, ts'). (m, t # ts')) (find_task flag mark h ts))"

fun place_fragments ::
  "nat \<Rightarrow> bool \<Rightarrow> Hash list \<Rightarrow> AccountId list \<Rightarrow> FragmentInfo list \<Rightarrow> MinerTaskList list
     \<Rightarrow> (FragmentInfo list \<times> MinerTaskList list) option" where
  "place_fragments n flag [] mark frags tasks = Some (frags, tasks)"
| "place_fragments n flag (h # hs) mark frags tasks =
     (case find_task flag mark h tasks of
        None \<Rightarrow> place_fragments n flag hs mark frags tasks
      | Some (m, tasks') \<Rightarrow>
          (case try_push n frags \<lparr>frag_hash = h, frag_avail = True, frag_miner = m\<rparr> of
             None \<Rightarrow> None
           | Some frags' \<Rightarrow> place_fragments n flag hs (mark @ [m]) frags' tasks'))"

definition sort_tasks :: "MinerTaskList list \<Rightarrow> MinerTaskList list" where
  "sort_tasks = map (\<lambda>t. t\<lparr>task_fragments := sort (task_fragments t)\<rparr>)"

fun build_segments ::
  "'t fb_config_scheme \<Rightarrow> SegmentInfo list \<Rightarrow> SegmentList list \<Rightarrow> SegmentInfo list \<Rightarrow> MinerTaskList list
     \<Rightarrow> SegmentInfo list option" where
  "build_segments T share [] infos tasks = Some infos"
| "build_segments T share (segment # segments) infos tasks =
     (case (case find (\<lambda>si. seg_hash segment = si_hash si) share of
              Some si \<Rightarrow> Some (si_fragments si, tasks)
            | None \<Rightarrow>
                (let tasks = sort_tasks tasks in
                 place_fragments (unat (FragmentCount T)) (best_miner_count = len_as tasks)
                   (seg_fragments segment) [] [] tasks)) of
        None \<Rightarrow> None
      | Some (frags, tasks') \<Rightarrow>
          (case try_push (SegmentCount T) infos \<lparr>si_hash = seg_hash segment, si_fragments = frags\<rparr> of
             None \<Rightarrow> None
           | Some infos' \<Rightarrow> build_segments T share segments infos' tasks'))"

definition fb_generate_file ::
  "'t fb_config_scheme \<Rightarrow> Hash \<Rightarrow> SegmentList list \<Rightarrow> MinerTaskList list \<Rightarrow> SegmentInfo list \<Rightarrow> UserBrief
     \<Rightarrow> FileState \<Rightarrow> u128 \<Rightarrow> ('s fb_state_scheme, unit) act" where
  "fb_generate_file T file_hash deal_info miner_task_list share user_brief st size' =
     bnd (ok_or (build_segments T share deal_info [] miner_task_list) (FBErr FB_BoundedVecError)) (\<lambda>segments.
     bnd (gets block_number) (\<lambda>cur_block.
     bnd (ok_or (bounded (OwnerLimit T) [user_brief]) (FBErr FB_BoundedVecError)) (\<lambda>owners.
     modify (FileMap_update (\<lambda>m. m(file_hash \<mapsto>
       \<lparr>file_segments = segments, owner = owners, file_size = size', completion = cur_block, stat = st\<rparr>))))))"

section \<open>Bucket names\<close>

text \<open>
  The table has the letter \<open>g\<close> where \<open>j\<close> would be, in both cases. Its last entry, at index 64, is
  the full stop.
\<close>

definition BUCKET_ALLOW_CHAR :: "u8 list" where
  "BUCKET_ALLOW_CHAR = map (\<lambda>c. of_nat (of_char c))
     (''abcdefghigklmnopqrstuvwxyz'' @ ''ABCDEFGHIGKLMNOPQRSTUVWXYZ'' @ ''0123456789'' @ ''-_.'')"

definition bucket_dot :: u8 where
  "bucket_dot = BUCKET_ALLOW_CHAR ! 64"

text \<open>The loop over the characters: \<open>None\<close> when it returns false, else the number of full stops.\<close>

fun scan_bucket_name :: "u8 list \<Rightarrow> bool \<Rightarrow> nat \<Rightarrow> nat option" where
  "scan_bucket_name [] point_flag count = Some count"
| "scan_bucket_name (elem # name) point_flag count =
     (if elem \<notin> set BUCKET_ALLOW_CHAR then None
      else if elem = bucket_dot
      then (if point_flag then None else scan_bucket_name name True (count + 1))
      else scan_bucket_name name False count)"

fun split_at :: "u8 \<Rightarrow> u8 list \<Rightarrow> u8 list list" where
  "split_at d [] = [[]]"
| "split_at d (x # xs) =
     (if x = d then [] # split_at d xs
      else (case split_at d xs of [] \<Rightarrow> [[x]] | p # ps \<Rightarrow> (x # p) # ps))"

definition check_bucket_name_spec :: "u8 list \<Rightarrow> bool" where
  "check_bucket_name_spec name =
     (case scan_bucket_name name False 0 of
        None \<Rightarrow> False
      | Some count \<Rightarrow>
          if count = 3
          then list_ex (\<lambda>arr. list_ex (\<lambda>elem. elem \<notin> set BUCKET_ALLOW_CHAR) arr) (split_at bucket_dot name)
          else True)"

section \<open>Buckets\<close>

definition create_bucket_helper ::
  "'t fb_config_scheme \<Rightarrow> AccountId \<Rightarrow> bytes \<Rightarrow> Hash option \<Rightarrow> ('s fb_state_scheme, unit) act" where
  "create_bucket_helper T user name file_hash =
     andthen (ensure (length name \<ge> 3) (FBErr FB_LessMinLength))
    (andthen (ensures (\<lambda>s. \<not> contains_key (Bucket s) (user, name)) (FBErr FB_Existed))
    (andthen (ensure (check_bucket_name_spec name) (FBErr FB_SpecError))
    (bnd (ok_or (bounded (StringLimit T) [user]) (FBErr FB_BoundedVecError)) (\<lambda>auth.
     bnd (case file_hash of
            None \<Rightarrow> ret []
          | Some h \<Rightarrow> ok_or (try_push (FileListLimit T) [] h) (FBErr FB_BoundedVecError)) (\<lambda>objects.
     andthen (modify (Bucket_update (\<lambda>m. m((user, name) \<mapsto> \<lparr>object_list = objects, authority = auth\<rparr>))))
    (bnd (gets_some (\<lambda>s. try_push (BucketLimit T) (get_or [] (UserBucketList s) user) name) (FBErr FB_LengthExceedsLimit)) (\<lambda>names.
     modify (UserBucketList_update (\<lambda>m. m(user \<mapsto> names))))))))))"

definition add_file_to_bucket ::
  "'t fb_config_scheme \<Rightarrow> AccountId \<Rightarrow> bytes \<Rightarrow> Hash \<Rightarrow> ('s fb_state_scheme, unit) act" where
  "add_file_to_bucket T user name file_hash =
     try_mutate_some Bucket Bucket_update (user, name) (FBErr FB_NonExistent) (\<lambda>bucket.
       bnd (ok_or (try_push (FileListLimit T) (object_list bucket) file_hash) (FBErr FB_BoundedVecError)) (\<lambda>objects.
       ret (bucket\<lparr>object_list := objects\<rparr>)))"

section \<open>Scheduled tasks\<close>

definition start_first_task ::
  "'t fb_config_scheme \<Rightarrow> task_id \<Rightarrow> Hash \<Rightarrow> u8 \<Rightarrow> u32 \<Rightarrow> ('s fb_state_scheme, unit) act" where
  "start_first_task T task_id deal_hash count life =
     bnd (gets block_number) (\<lambda>start.
     bnd (ok_or (checked_add start (50 * ucast count)) (FBErr FB_Overflow)) (\<lambda>block.
     bnd (ok_or (checked_add block life) (FBErr FB_Overflow)) (\<lambda>survival_block.
     schedule_task T task_id survival_block (Call_deal_reassign_miner deal_hash count life))))"

definition start_second_task ::
  "'t fb_config_scheme \<Rightarrow> task_id \<Rightarrow> Hash \<Rightarrow> u32 \<Rightarrow> ('s fb_state_scheme, unit) act" where
  "start_second_task T task_id deal_hash life =
     bnd (gets block_number) (\<lambda>start.
     bnd (ok_or (checked_add start life) (FBErr FB_Overflow)) (\<lambda>survival_block.
     schedule_task T task_id survival_block (Call_calculate_end deal_hash)))"

section \<open>Choosing miners for a deal\<close>

text \<open>
  The state of the first loop of \<open>random_assign_miner\<close>: the seed, the miners not yet drawn and
  their number, the idle space of the chosen miners, their task lists, and each one's idle
  space.
\<close>

record picking =
  pick_seed :: u32
  pick_all :: "AccountId list"
  pick_total :: u32
  pick_idle :: u128
  pick_tasks :: "MinerTaskList list"
  pick_spaces :: "u128 list"

text \<open>The draw of one index, and the seed for the next one.\<close>

definition pick_index :: "'t fb_config_scheme \<Rightarrow> picking \<Rightarrow> ('s fb_state_scheme, u32 \<times> u32) act" where
  "pick_index T p =
     bnd (generate_random_number T (pick_seed p)) (\<lambda>r.
     bnd (ok_or (checked_add (pick_seed p) 1) (FBErr FB_Overflow)) (\<lambda>seed.
     ret (r mod pick_total p, seed)))"

text \<open>A miner with enough idle space for one fragment of every segment is chosen.\<close>

definition pick_miner ::
  "'t fb_config_scheme \<Rightarrow> u128 \<Rightarrow> AccountId \<Rightarrow> picking \<Rightarrow> ('s fb_state_scheme, picking) act" where
  "pick_miner T needed miner p =
     bnd (get_miner_idle_space miner) (\<lambda>cur_space.
     if cur_space > needed * FRAGMENT_SIZE then
       bnd (ok_or (checked_add (pick_idle p) cur_space) (FBErr FB_Overflow)) (\<lambda>idle.
       bnd (ok_or (try_push (StringLimit T) (pick_tasks p) \<lparr>task_miner = miner, task_fragments = []\<rparr>) (FBErr FB_BoundedVecError)) (\<lambda>tasks.
       ret (p\<lparr>pick_idle := idle, pick_tasks := tasks, pick_spaces := pick_spaces p @ [cur_space]\<rparr>)))
     else ret p)"

text \<open>The loop; its first argument is the number of rounds left, \<open>max_count - cur_count\<close>.\<close>

primrec pick_miners ::
  "nat \<Rightarrow> 't fb_config_scheme \<Rightarrow> u128 \<Rightarrow> picking \<Rightarrow> ('s fb_state_scheme, picking) act" where
  "pick_miners 0 T needed p =
     (if pick_total p = 0 then ret p
      else bnd (pick_index T p) (\<lambda>(index, seed). ret (p\<lparr>pick_seed := seed\<rparr>)))"
| "pick_miners (Suc rounds) T needed p =
     (if pick_total p = 0 then ret p
      else bnd (pick_index T p) (\<lambda>(index, seed).
           bnd (ok_or (vec_remove (unat index) (pick_all p)) Panicked) (\<lambda>rest.
           let miner = pick_all p ! unat index;
               p = p\<lparr>pick_seed := seed, pick_all := rest, pick_total := pick_total p - 1\<rparr> in
           bnd (is_positive miner) (\<lambda>result.
           if \<not> result then pick_miners rounds T needed p
           else bnd (pick_miner T needed miner p) (\<lambda>p.
                if len_as (pick_tasks p) = best_miner_count then ret p
                else pick_miners rounds T needed p)))))"

text \<open>
  The innermost loop of the assignment looks for a miner with room, going round the chosen
  miners; only the overflow of its index (\<open>usize\<close>, 32 bits in the Wasm runtime) ends a search
  that finds none.
\<close>

function find_slot :: "u128 list \<Rightarrow> MinerTaskList list \<Rightarrow> u32 \<Rightarrow> u32 option" where
  "find_slot spaces tasks index =
     (let temp_index = unat index mod length tasks in
      if spaces ! temp_index > (len_as (task_fragments (tasks ! temp_index)) + 1) * FRAGMENT_SIZE then Some index
      else (case checked_add index 1 of None \<Rightarrow> None | Some i \<Rightarrow> find_slot spaces tasks i))"
  by pat_completeness auto
termination
proof (relation "measure (\<lambda>(spaces, tasks, index). 2 ^ 32 - unat index)")
  fix spaces :: "u128 list" and tasks :: "MinerTaskList list" and index i :: u32 and temp_index
  assume "checked_add index 1 = Some i"
  then have "unat i = unat index + 1" by (simp add: arith_wp)
  with unat_lt [of i] show "((spaces, tasks, i), spaces, tasks, index)
      \<in> measure (\<lambda>(spaces, tasks, index). 2 ^ 32 - unat index)"
    by simp
qed simp

declare find_slot.simps [simp del]

definition assign_fragment ::
  "'t fb_config_scheme \<Rightarrow> u128 list \<Rightarrow> Hash \<Rightarrow> MinerTaskList list \<times> u32
     \<Rightarrow> ('s, MinerTaskList list \<times> u32) act" where
  "assign_fragment T spaces hash = (\<lambda>(tasks, index).
     bnd (ok_or (find_slot spaces tasks index) (FBErr FB_PanicOverflow)) (\<lambda>index.
     let k = unat index mod length tasks in
     bnd (ok_or (try_push (MissionCount T) (task_fragments (tasks ! k)) hash) (FBErr FB_BoundedVecError)) (\<lambda>fragments.
     bnd (ok_or (checked_add index 1) (FBErr FB_PanicOverflow)) (\<lambda>index.
     ret (tasks[k := (tasks ! k)\<lparr>task_fragments := fragments\<rparr>], index)))))"

definition assign_segment ::
  "'t fb_config_scheme \<Rightarrow> u128 list \<Rightarrow> SegmentList \<Rightarrow> MinerTaskList list \<Rightarrow> ('s, MinerTaskList list) act" where
  "assign_segment T spaces segment tasks =
     bnd (fold_act (assign_fragment T spaces) (seg_fragments segment) (tasks, 0)) (\<lambda>(tasks, index). ret tasks)"

definition random_assign_miner ::
  "'t fb_config_scheme \<Rightarrow> SegmentList list \<Rightarrow> ('s fb_state_scheme, MinerTaskList list) act" where
  "random_assign_miner T needed =
     bnd (gets block_number) (\<lambda>seed.
     bnd get_all_miner (\<lambda>all_miner.
     bnd (pick_miners (unat (best_miner_count * 5)) T (len_as needed)
            \<lparr>pick_seed = seed, pick_all = all_miner, pick_total = len_as all_miner, pick_idle = 0,
             pick_tasks = [], pick_spaces = []\<rparr>) (\<lambda>p.
     andthen (ensure (length (pick_tasks p) \<noteq> 0) (FBErr FB_BugInvalid))
    (andthen (ensure (pick_idle p > SEGMENT_SIZE * 15 div 10) (FBErr FB_NodesInsufficient))
    (bnd (fold_act (assign_segment T (pick_spaces p)) needed (pick_tasks p)) (\<lambda>tasks.
     andthen (for_each (\<lambda>t. lock_space (task_miner t) (len_as (task_fragments t) * FRAGMENT_SIZE)) tasks)
     (ret tasks)))))))"

definition cal_file_size :: "u128 \<Rightarrow> u128" where
  "cal_file_size len = len * (SEGMENT_SIZE * 15 div 10)"

definition generate_deal ::
  "'t fb_config_scheme \<Rightarrow> Hash \<Rightarrow> SegmentList list \<Rightarrow> UserBrief \<Rightarrow> u128 \<Rightarrow> ('s fb_state_scheme, unit) act" where
  "generate_deal T file_hash file_info user_brief size' =
     bnd (random_assign_miner T file_info) (\<lambda>miner_task_list.
     let space = cal_file_size (len_as file_info);
         life = space div TRANSFER_RATE + 1 in
     andthen (start_first_task T (DealTask file_hash) file_hash 1 (ucast life))
     (modify (DealMap_update (\<lambda>m. m(file_hash \<mapsto>
       \<lparr>stage = 1, deal_count = 0, deal_file_size = size', deal_segments = file_info, needed_list = file_info,
        deal_user = user_brief, assigned_miner = miner_task_list, share_info = [], complete_list = []\<rparr>)))))"

section \<open>Restoral targets\<close>

text \<open>The number of days is computed with 128 bits and truncated to 32.\<close>

definition create_restoral_target ::
  "'t fb_config_scheme \<Rightarrow> AccountId \<Rightarrow> u128 \<Rightarrow> ('s fb_state_scheme, unit) act" where
  "create_restoral_target T miner service_space' =
     bnd (ok_or (checked_div service_space' T_BYTE) (FBErr FB_Overflow)) (\<lambda>tibs.
     bnd (ok_or (checked_add tibs 1) (FBErr FB_Overflow)) (\<lambda>days.
     bnd (ok_or (checked_mul days (ucast (fb_OneDay T))) (FBErr FB_Overflow)) (\<lambda>blocks.
     bnd (gets block_number) (\<lambda>now.
     bnd (ok_or (checked_add now (ucast blocks)) (FBErr FB_Overflow)) (\<lambda>block.
     modify (RestoralTarget_update (\<lambda>m. m(miner \<mapsto>
       \<lparr>rt_miner = miner, rt_service_space = service_space', restored_space = 0, cooling_block = block\<rparr>))))))))"

definition update_restoral_target :: "AccountId \<Rightarrow> u128 \<Rightarrow> ('s fb_state_scheme, unit) act" where
  "update_restoral_target miner space =
     try_mutate_some RestoralTarget RestoralTarget_update miner (FBErr FB_NonExistent) (\<lambda>info.
       bnd (ok_or (checked_add (restored_space info) space) (FBErr FB_Overflow)) (\<lambda>v.
       ret (info\<lparr>restored_space := v\<rparr>)))"

section \<open>Removing the owner of a file\<close>

text \<open>The first entry of the account in the list of owners is removed.\<close>

fun remove_first_owner :: "AccountId \<Rightarrow> UserBrief list \<Rightarrow> UserBrief list option" where
  "remove_first_owner acc [] = None"
| "remove_first_owner acc (b # bs) =
     (if acc = brief_user b then Some bs else map_option (Cons b) (remove_first_owner acc bs))"

definition remove_file_owner :: "Hash \<Rightarrow> AccountId \<Rightarrow> bool \<Rightarrow> ('s fb_state_scheme, unit) act" where
  "remove_file_owner file_hash acc user_clear =
     try_mutate_file file_hash FB_Overflow (\<lambda>file.
       (case remove_first_owner acc (owner file) of
          None \<Rightarrow> ret file
        | Some owners \<Rightarrow>
            andthen (act_when user_clear (update_user_space acc 2 (cal_file_size (len_as (file_segments file)))))
            (ret (file\<lparr>owner := owners\<rparr>))))"

text \<open>
  The \<open>BTreeMap\<close> that counts the fragments of each miner, as the list of its entries in the
  order of their keys.
\<close>

fun count_miner :: "AccountId \<Rightarrow> (AccountId \<times> u32) list \<Rightarrow> (AccountId \<times> u32) list" where
  "count_miner m [] = [(m, 1)]"
| "count_miner m ((k, c) # cs) =
     (if m < k then (m, 1) # (k, c) # cs
      else if m = k then (k, c + 1) # cs
      else (k, c) # count_miner m cs)"

definition all_fragments :: "FileInfo \<Rightarrow> FragmentInfo list" where
  "all_fragments file = concat (map si_fragments (file_segments file))"

definition miner_list :: "FileInfo \<Rightarrow> (AccountId \<times> u32) list" where
  "miner_list file = fold (\<lambda>f. count_miner (frag_miner f)) (all_fragments file) []"

text \<open>The total is an \<open>i32\<close>, cast to \<open>u128\<close> with its sign.\<close>

definition total_fragment_dec :: "FileInfo \<Rightarrow> u128" where
  "total_fragment_dec file = scast (of_nat (length (all_fragments file)) :: 32 word)"

definition remove_file_last_owner :: "Hash \<Rightarrow> AccountId \<Rightarrow> bool \<Rightarrow> ('s fb_state_scheme, unit) act" where
  "remove_file_last_owner file_hash acc user_clear =
     bnd (try_get_file file_hash FB_NonExistent) (\<lambda>file.
     andthen (for_each (\<lambda>(miner, count).
       bnd (gets (\<lambda>s. contains_key (RestoralTarget s) miner)) (\<lambda>leaving.
       if leaving then update_restoral_target miner (FRAGMENT_SIZE * ucast count)
       else sub_miner_service_space miner (FRAGMENT_SIZE * ucast count))) (miner_list file))
    (andthen (act_when user_clear (update_user_space acc 2 (total_fragment_dec file * FRAGMENT_SIZE)))
    (andthen (sub_total_service_space (total_fragment_dec file * FRAGMENT_SIZE))
     (modify (FileMap_update (\<lambda>m. m(file_hash := None)))))))"

text \<open>Every entry of the account in the list as it was read removes one owner.\<close>

definition delete_user_file :: "Hash \<Rightarrow> AccountId \<Rightarrow> FileInfo \<Rightarrow> ('s fb_state_scheme, unit) act" where
  "delete_user_file file_hash acc file =
     andthen (ensure (stat file \<noteq> FsCalculate) (FBErr FB_Calculate))
     (for_each (\<lambda>user_brief.
        if brief_user user_brief = acc
        then if length (owner file) > 1 then remove_file_owner file_hash acc True
             else remove_file_last_owner file_hash acc True
        else ret ()) (owner file))"

definition bucket_remove_file :: "Hash \<Rightarrow> AccountId \<Rightarrow> FileInfo \<Rightarrow> ('s fb_state_scheme, unit) act" where
  "bucket_remove_file file_hash acc file =
     for_each (\<lambda>user_brief.
       if brief_user user_brief = acc
       then try_mutate_some Bucket Bucket_update (acc, bucket_name user_brief) (FBErr FB_NonExistent) (\<lambda>bucket.
              ret (bucket\<lparr>object_list := filter (\<lambda>f. f \<noteq> file_hash) (object_list bucket)\<rparr>))
       else ret ()) (owner file)"

definition remove_user_hold_file_list :: "Hash \<Rightarrow> AccountId \<Rightarrow> ('s fb_state_scheme, unit) act" where
  "remove_user_hold_file_list file_hash acc =
     modify (UserHoldFileList_update (\<lambda>m.
       m(acc \<mapsto> filter (\<lambda>f. slice_hash f \<noteq> file_hash) (get_or [] m acc))))"

definition add_user_hold_fileslice ::
  "'t fb_config_scheme \<Rightarrow> AccountId \<Rightarrow> Hash \<Rightarrow> u128 \<Rightarrow> ('s fb_state_scheme, unit) act" where
  "add_user_hold_fileslice T user file_hash size' =
     bnd (gets_some (\<lambda>s. try_push (StringLimit T) (get_or [] (UserHoldFileList s) user)
         \<lparr>slice_hash = file_hash, slice_size = size'\<rparr>) (FBErr FB_StorageLimitReached)) (\<lambda>files.
     modify (UserHoldFileList_update (\<lambda>m. m(user \<mapsto> files))))"

section \<open>Permissions\<close>

definition check_is_file_owner :: "AccountId \<Rightarrow> Hash \<Rightarrow> 's fb_state_scheme \<Rightarrow> bool" where
  "check_is_file_owner acc file_hash s =
     (case FileMap s file_hash of
        Some file \<Rightarrow> list_ex (\<lambda>user_brief. brief_user user_brief = acc) (owner file)
      | None \<Rightarrow> False)"

definition check_permission :: "AccountId \<Rightarrow> AccountId \<Rightarrow> 's oss_state_scheme \<Rightarrow> bool" where
  "check_permission operator owner' s \<longleftrightarrow> owner' = operator \<or> is_authorized s owner' operator"

section \<open>Miners that leave\<close>

text \<open>\<open>clear_prefix\<close> is repeated with its cursor until nothing is left of the prefix.\<close>

definition clear_filler :: "AccountId \<Rightarrow> ('s fb_state_scheme, unit) act" where
  "clear_filler miner = modify (FillerMap_update (\<lambda>m. remove_prefix m miner))"

definition fb_force_miner_exit :: "'t fb_config_scheme \<Rightarrow> AccountId \<Rightarrow> ('s fb_state_scheme, unit) act" where
  "fb_force_miner_exit T miner =
     andthen (clear_filler miner)
    (bnd (get_power miner) (\<lambda>(idle, service).
     andthen (sub_total_idle_space idle)
    (andthen (force_miner_exit T miner)
     (create_restoral_target T miner service))))"

end
