(* ===== verification/File_Bank.thy ===== *)
theory File_Bank
  imports File_Bank_Functions
begin

text \<open>
  The calls and hooks of the file bank (\<open>c-pallets/file-bank/src/lib.rs\<close>) and its trait
  \<open>RandomFileList\<close>, in the order of the file.
\<close>

section \<open>The daily and per-block cleaning of expired leases\<close>

text \<open>
  One file of an expired lease. The results of the removals are looked at only for logging and
  weights, and \<open>remove_file_last_owner\<close> is called twice.
\<close>

definition clear_one_file :: "AccountId \<Rightarrow> Hash \<Rightarrow> ('s fb_state_scheme, unit) act" where
  "clear_one_file acc file_hash =
     bnd (gets (\<lambda>s. FileMap s file_hash)) (\<lambda>file_opt.
     (case file_opt of
        None \<Rightarrow> ret ()
      | Some file \<Rightarrow>
          if length (owner file) > 1
          then bnd (attempt (remove_file_owner file_hash acc False)) (\<lambda>_. ret ())
          else bnd (attempt (remove_file_last_owner file_hash acc False)) (\<lambda>_.
               bnd (attempt (remove_file_last_owner file_hash acc False)) (\<lambda>_. ret ()))))"

text \<open>
  The \<open>while\<close> loop that pops the user's files, given in the order in which they are popped; it
  yields the new count, or \<open>None\<close> when the block's share of 300 files is used up.
\<close>

fun clear_files :: "AccountId \<Rightarrow> UserFileSliceInfo list \<Rightarrow> u32 \<Rightarrow> ('s fb_state_scheme, u32 option) act" where
  "clear_files acc [] count = ret (Some count)"
| "clear_files acc (file_info # rest) count =
     (if count + 1 = 300
      then andthen (modify (UserHoldFileList_update (\<lambda>m. m(acc \<mapsto> rev rest)))) (ret None)
      else andthen (clear_one_file acc (slice_hash file_info)) (clear_files acc rest (count + 1)))"

definition clear_user :: "AccountId \<Rightarrow> u32 \<Rightarrow> ('s fb_state_scheme, u32 option) act" where
  "clear_user acc count =
     bnd (gets (\<lambda>s. UserHoldFileList s acc)) (\<lambda>files_opt.
     (case files_opt of
        None \<Rightarrow> ret (Some count)
      | Some files \<Rightarrow>
          bnd (clear_files acc (rev files) count) (\<lambda>count_opt.
          (case count_opt of
             None \<Rightarrow> ret None
           | Some count \<Rightarrow>
               andthen (attempt (delete_user_space_storage acc))
              (andthen (modify (ClearUserList_update (filter (\<lambda>a. a \<noteq> acc))))
              (andthen (modify (UserHoldFileList_update (\<lambda>m. m(acc := None))))
              (andthen (modify (Bucket_update (\<lambda>m. remove_prefix m acc)))
              (andthen (modify (UserBucketList_update (\<lambda>m. m(acc := None))))
               (ret (Some count))))))))))"

fun clear_users :: "AccountId list \<Rightarrow> u32 \<Rightarrow> ('s fb_state_scheme, unit) act" where
  "clear_users [] count = ret ()"
| "clear_users (acc # accs) count =
     bnd (clear_user acc count) (\<lambda>count_opt.
     (case count_opt of None \<Rightarrow> ret () | Some count \<Rightarrow> clear_users accs count))"

definition fb_on_initialize :: "'t fb_config_scheme \<Rightarrow> BlockNumber \<Rightarrow> ('s fb_state_scheme, unit) act" where
  "fb_on_initialize T now =
     andthen (ensure (fb_OneDay T \<noteq> 0) Panicked)
    (andthen (act_when (now mod fb_OneDay T = 0)
       (bnd (frozen_task T) (\<lambda>acc_list.
        modify (ClearUserList_update (\<lambda>_. if length acc_list \<le> 5000 then acc_list else [])))))
    (bnd (gets ClearUserList) (\<lambda>acc_list. clear_users acc_list 0)))"

section \<open>Declaring and reassigning a deal\<close>

definition upload_declaration ::
  "'t fb_config_scheme \<Rightarrow> origin \<Rightarrow> Hash \<Rightarrow> SegmentList list \<Rightarrow> UserBrief \<Rightarrow> u128 \<Rightarrow> ('s fb_state_scheme, unit) act" where
  "upload_declaration T origin file_hash deal_info user_brief size' = transactional (
     bnd (ensure_signed origin) (\<lambda>sender.
     andthen (ensures (check_permission sender (brief_user user_brief)) (FBErr FB_NoPermission))
    (andthen (ensure (check_file_spec T deal_info) (FBErr FB_SpecError))
    (andthen (ensure (len_as (file_name user_brief) \<ge> NameMinLength T) (FBErr FB_SpecError))
    (andthen (ensure (len_as (bucket_name user_brief) \<ge> NameMinLength T) (FBErr FB_SpecError))
    (let needed_space = len_as deal_info * (SEGMENT_SIZE * 15 div 10) in
     bnd (get_user_avail_space (brief_user user_brief)) (\<lambda>avail.
     andthen (ensure (avail > needed_space) (FBErr FB_InsufficientAvailableSpace))
    (bnd (gets (\<lambda>s. contains_key (FileMap s) file_hash)) (\<lambda>known.
     andthen
      (if known then
         andthen (update_user_space (brief_user user_brief) 1 needed_space)
        (bnd (gets (\<lambda>s. contains_key (Bucket s) (brief_user user_brief, bucket_name user_brief))) (\<lambda>has_bucket.
         andthen (if has_bucket then add_file_to_bucket T (brief_user user_brief) (bucket_name user_brief) file_hash
                  else create_bucket_helper T (brief_user user_brief) (bucket_name user_brief) (Some file_hash))
        (andthen (add_user_hold_fileslice T (brief_user user_brief) file_hash needed_space)
         (try_mutate_file file_hash FB_FileNonExistent (\<lambda>file.
            bnd (ok_or (try_push (OwnerLimit T) (owner file) user_brief) (FBErr FB_BoundedVecError)) (\<lambda>owners.
            ret (file\<lparr>owner := owners\<rparr>)))))))
       else
         andthen (lock_user_space (brief_user user_brief) needed_space)
         (generate_deal T file_hash deal_info user_brief size'))
     (fb_deposit_event (UploadDeclaration sender (brief_user user_brief) file_hash)))))))))))"

definition unlock_tasks :: "MinerTaskList list \<Rightarrow> ('s fb_state_scheme, unit) act" where
  "unlock_tasks = for_each (\<lambda>t. unlock_space (task_miner t) (FRAGMENT_SIZE * len_as (task_fragments t)))"

definition deal_reassign_miner ::
  "'t fb_config_scheme \<Rightarrow> origin \<Rightarrow> Hash \<Rightarrow> u8 \<Rightarrow> u32 \<Rightarrow> ('s fb_state_scheme, unit) act" where
  "deal_reassign_miner T origin deal_hash count life = transactional (
     andthen (ensure_root origin)
     (if count < 5 then
        try_mutate_some DealMap DealMap_update deal_hash (FBErr FB_NonExistent) (\<lambda>deal_info.
          andthen (unlock_tasks (assigned_miner deal_info))
         (bnd (random_assign_miner T (needed_list deal_info)) (\<lambda>miner_task_list.
          andthen (start_first_task T (DealTask deal_hash) deal_hash (count + 1) life)
          (ret (deal_info\<lparr>assigned_miner := miner_task_list, complete_list := [], deal_count := count\<rparr>)))))
      else
        bnd (gets_some (\<lambda>s. DealMap s deal_hash) (FBErr FB_NonExistent)) (\<lambda>deal_info.
        andthen (unlock_user_space (brief_user (deal_user deal_info)) (cal_file_size (len_as (deal_segments deal_info))))
       (andthen (unlock_tasks (assigned_miner deal_info))
        (modify (DealMap_update (\<lambda>m. m(deal_hash := None))))))))"

section \<open>Transfer of ownership\<close>

definition ownership_transfer ::
  "'t fb_config_scheme \<Rightarrow> origin \<Rightarrow> UserBrief \<Rightarrow> Hash \<Rightarrow> ('s fb_state_scheme, unit) act" where
  "ownership_transfer T origin target_brief file_hash = transactional (
     bnd (ensure_signed origin) (\<lambda>sender.
     bnd (try_get_file file_hash FB_FileNonExistent) (\<lambda>file.
     andthen (ensures (check_is_file_owner sender file_hash) (FBErr FB_NotOwner))
    (andthen (ensures (\<lambda>s. \<not> check_is_file_owner (brief_user target_brief) file_hash s) (FBErr FB_IsOwned))
    (andthen (ensure (stat file = FsActive) (FBErr FB_Unprepared))
    (andthen (ensures (\<lambda>s. contains_key (Bucket s) (brief_user target_brief, bucket_name target_brief)) (FBErr FB_NonExistent))
    (let size' = cal_file_size (len_as (file_segments file)) in
     andthen (update_user_space (brief_user target_brief) 1 size')
    (andthen (try_mutate_file file_hash FB_FileNonExistent (\<lambda>file.
       bnd (ok_or (try_push (OwnerLimit T) (owner file) target_brief) (FBErr FB_BoundedVecError)) (\<lambda>owners.
       ret (file\<lparr>owner := owners\<rparr>))))
    (andthen (try_mutate_some Bucket Bucket_update (brief_user target_brief, bucket_name target_brief) (FBErr FB_NonExistent) (\<lambda>bucket.
       bnd (ok_or (try_push (FileListLimit T) (object_list bucket) file_hash) (FBErr FB_LengthExceedsLimit)) (\<lambda>objects.
       ret (bucket\<lparr>object_list := objects\<rparr>))))
    (andthen (add_user_hold_fileslice T (brief_user target_brief) file_hash size')
    (bnd (try_get_file file_hash FB_NonExistent) (\<lambda>file.
     andthen (delete_user_file file_hash sender file)
    (andthen (bucket_remove_file file_hash sender file)
     (remove_user_hold_file_list file_hash sender))))))))))))))"

section \<open>Reports of the miners, and the end of a deal\<close>

text \<open>What the last report of a deal does.\<close>

definition max_task_count :: "MinerTaskList list \<Rightarrow> u32" where
  "max_task_count tasks =
     fold (\<lambda>t m. let count = len_as (task_fragments t) in if count > m then count else m) tasks 0"

definition deal_life :: "u32 \<Rightarrow> u32" where
  "deal_life max_count =
     (let max_needed_cal_space = ucast max_count * FRAGMENT_SIZE in
      ucast (max_needed_cal_space div TRANSFER_RATE + 1) + ucast (max_needed_cal_space div CALCULATE_RATE + 1))"

definition add_pending :: "MinerTaskList \<Rightarrow> ('s fb_state_scheme, unit) act" where
  "add_pending t =
     bnd (gets_some (\<lambda>s. checked_add (get_or 0 (PendingReplacements s) (task_miner t)) (len_as (task_fragments t)))
       (FBErr FB_Overflow)) (\<lambda>v.
     modify (PendingReplacements_update (\<lambda>m. m(task_miner t \<mapsto> v))))"

definition complete_deal :: "'t fb_config_scheme \<Rightarrow> Hash \<Rightarrow> DealInfo \<Rightarrow> ('s fb_state_scheme, unit) act" where
  "complete_deal T hash deal_info =
     (let user = brief_user (deal_user deal_info);
          bucket = bucket_name (deal_user deal_info);
          needed_space = cal_file_size (len_as (deal_segments deal_info)) in
     andthen (fb_generate_file T hash (deal_segments deal_info) (assigned_miner deal_info) (share_info deal_info)
       (deal_user deal_info) FsCalculate (deal_file_size deal_info))
    (andthen (for_each add_pending (assigned_miner deal_info))
    (andthen (unlock_and_used_user_space user needed_space)
    (andthen (sub_total_idle_space needed_space)
    (andthen (add_total_service_space needed_space)
    (andthen (cancel_task T (DealTask hash))
    (andthen (start_second_task T (DealTask hash) hash (deal_life (max_task_count (assigned_miner deal_info))))
    (bnd (gets (\<lambda>s. contains_key (Bucket s) (user, bucket))) (\<lambda>has_bucket.
     andthen (if has_bucket then add_file_to_bucket T user bucket hash
              else create_bucket_helper T user bucket (Some hash))
    (andthen (add_user_hold_fileslice T user hash needed_space)
     (fb_deposit_event (StorageCompleted hash))))))))))))"

text \<open>The report for one deal; the accumulator is \<open>failed_list\<close>.\<close>

definition report_deal ::
  "'t fb_config_scheme \<Rightarrow> AccountId \<Rightarrow> Hash \<Rightarrow> Hash list \<Rightarrow> ('s fb_state_scheme, Hash list) act" where
  "report_deal T sender hash failed_list =
     bnd (gets (\<lambda>s. contains_key (DealMap s) hash)) (\<lambda>known.
     if \<not> known then ret (failed_list @ [hash])
     else try_mutate DealMap DealMap_update hash (\<lambda>deal_info_opt.
       bnd (ok_or deal_info_opt Panicked) (\<lambda>deal_info.
       if sender \<in> set (map task_miner (assigned_miner deal_info)) then
         bnd (if sender \<notin> set (complete_list deal_info)
              then ok_or (try_push (unat (FragmentCount T)) (complete_list deal_info) sender) (FBErr FB_BoundedVecError)
              else ret (complete_list deal_info)) (\<lambda>complete.
         let deal_info = deal_info\<lparr>complete_list := complete\<rparr> in
         if length complete = length (assigned_miner deal_info)
         then let deal_info = deal_info\<lparr>stage := 2\<rparr> in
              andthen (complete_deal T hash deal_info) (ret (failed_list, Some deal_info))
         else ret (failed_list, Some deal_info))
       else ret (failed_list @ [hash], Some deal_info))))"

definition transfer_report :: "'t fb_config_scheme \<Rightarrow> origin \<Rightarrow> Hash list \<Rightarrow> ('s fb_state_scheme, unit) act" where
  "transfer_report T origin deal_hash = transactional (
     bnd (ensure_signed origin) (\<lambda>sender.
     andthen (ensure (length deal_hash < 5) (FBErr FB_LengthExceedsLimit))
    (bnd (fold_act (report_deal T sender) deal_hash []) (\<lambda>failed_list.
     fb_deposit_event (TransferReport sender failed_list)))))"

definition calculate_end :: "origin \<Rightarrow> Hash \<Rightarrow> ('s fb_state_scheme, unit) act" where
  "calculate_end origin deal_hash = transactional (
     andthen (ensure_root origin)
    (bnd (gets_some (\<lambda>s. DealMap s deal_hash) (FBErr FB_NonExistent)) (\<lambda>deal_info.
     andthen (for_each (\<lambda>t. unlock_space_to_service (task_miner t)
       (FRAGMENT_SIZE * ucast (len_as (task_fragments t) :: u32))) (assigned_miner deal_info))
    (andthen (try_mutate_file deal_hash FB_BugInvalid (\<lambda>file. ret (file\<lparr>stat := FsActive\<rparr>)))
    (andthen (modify (DealMap_update (\<lambda>m. m(deal_hash := None))))
     (fb_deposit_event (CalculateEnd deal_hash)))))))"

text \<open>The fillers that are there are removed; the rest is logged.\<close>

fun replace_fillers :: "AccountId \<Rightarrow> Hash list \<Rightarrow> u32 \<Rightarrow> ('s fb_state_scheme, u32) act" where
  "replace_fillers sender [] count = ret count"
| "replace_fillers sender (h # hs) count =
     bnd (gets (\<lambda>s. contains_key (FillerMap s) (sender, h))) (\<lambda>known.
     if known
     then andthen (modify (FillerMap_update (\<lambda>m. m((sender, h) := None)))) (replace_fillers sender hs (count + 1))
     else replace_fillers sender hs count)"

definition replace_file_report :: "origin \<Rightarrow> Hash list \<Rightarrow> ('s fb_state_scheme, unit) act" where
  "replace_file_report origin filler = transactional (
     bnd (ensure_signed origin) (\<lambda>sender.
     andthen (ensure (length filler \<le> 30) (FBErr FB_LengthExceedsLimit))
    (bnd (gets (\<lambda>s. get_or 0 (PendingReplacements s) sender)) (\<lambda>pending_count.
     andthen (ensure (len_as filler \<le> pending_count) (FBErr FB_LengthExceedsLimit))
    (bnd (replace_fillers sender filler 0) (\<lambda>count.
     bnd (gets_some (\<lambda>s. checked_sub (get_or 0 (PendingReplacements s) sender) count) (FBErr FB_Overflow)) (\<lambda>v.
     andthen (modify (PendingReplacements_update (\<lambda>m. m(sender \<mapsto> v))))
     (fb_deposit_event (ReplaceFiller sender filler)))))))))"

section \<open>Deleting files, fillers and buckets\<close>

definition delete_file :: "origin \<Rightarrow> AccountId \<Rightarrow> Hash list \<Rightarrow> ('s fb_state_scheme, unit) act" where
  "delete_file origin owner' file_hash_list = transactional (
     bnd (ensure_signed origin) (\<lambda>sender.
     andthen (ensures (check_permission sender owner') (FBErr FB_NoPermission))
    (andthen (ensure (length file_hash_list < 10) (FBErr FB_LengthExceedsLimit))
    (andthen (for_each (\<lambda>file_hash.
       bnd (try_get_file file_hash FB_NonExistent) (\<lambda>file.
       andthen (delete_user_file file_hash owner' file)
      (andthen (bucket_remove_file file_hash owner' file)
       (remove_user_hold_file_list file_hash owner')))) file_hash_list)
     (fb_deposit_event (DeleteFile sender owner' file_hash_list))))))"

definition upload_filler ::
  "'t fb_config_scheme \<Rightarrow> origin \<Rightarrow> AccountId \<Rightarrow> FillerInfo list \<Rightarrow> ('s fb_state_scheme, unit) act" where
  "upload_filler T origin tee_worker filler_list = transactional (
     bnd (ensure_signed origin) (\<lambda>sender.
     andthen (ensure (\<not> length filler_list > unat (UploadFillerLimit T)) (FBErr FB_LengthExceedsLimit))
    (andthen (ensures (contains_scheduler tee_worker) (FBErr FB_ScheduleNonExistent))
    (bnd (is_positive sender) (\<lambda>positive.
     andthen (ensure positive (FBErr FB_NotQualified))
    (andthen (for_each (\<lambda>i.
       andthen (ensures (\<lambda>s. \<not> contains_key (FillerMap s) (sender, filler_hash i)) (FBErr FB_FileExistent))
       (modify (FillerMap_update (\<lambda>m. m((sender, filler_hash i) \<mapsto> i))))) filler_list)
    (bnd (ok_or (checked_mul M_BYTE 8) (FBErr FB_Overflow)) (\<lambda>filler_size.
     bnd (ok_or (checked_mul filler_size (len_as filler_list)) (FBErr FB_Overflow)) (\<lambda>idle.
     andthen (add_miner_idle_space sender idle)
    (andthen (add_total_idle_space idle)
     (fb_deposit_event (FillerUpload sender (ucast idle)))))))))))))"

definition delete_filler :: "origin \<Rightarrow> Hash \<Rightarrow> ('s fb_state_scheme, unit) act" where
  "delete_filler origin filler_hash' = transactional (
     bnd (ensure_signed origin) (\<lambda>sender.
     bnd (is_positive sender) (\<lambda>positive.
     andthen (ensure positive (FBErr FB_NotQualified))
    (andthen (ensures (\<lambda>s. contains_key (FillerMap s) (sender, filler_hash')) (FBErr FB_NonExistent))
    (bnd (ok_or (checked_mul M_BYTE 8) (FBErr FB_Overflow)) (\<lambda>idle.
     andthen (sub_miner_idle_space sender idle)
    (andthen (sub_total_idle_space idle)
    (andthen (modify (FillerMap_update (\<lambda>m. m((sender, filler_hash') := None))))
     (fb_deposit_event (FillerDelete sender filler_hash'))))))))))"

definition create_bucket ::
  "'t fb_config_scheme \<Rightarrow> origin \<Rightarrow> AccountId \<Rightarrow> bytes \<Rightarrow> ('s fb_state_scheme, unit) act" where
  "create_bucket T origin owner' name = transactional (
     bnd (ensure_signed origin) (\<lambda>sender.
     andthen (ensures (check_permission sender owner') (FBErr FB_NoPermission))
    (andthen (create_bucket_helper T owner' name None)
     (fb_deposit_event (CreateBucket sender owner' name)))))"

definition delete_bucket :: "origin \<Rightarrow> AccountId \<Rightarrow> bytes \<Rightarrow> ('s fb_state_scheme, unit) act" where
  "delete_bucket origin owner' name = transactional (
     bnd (ensure_signed origin) (\<lambda>sender.
     andthen (ensures (check_permission sender owner') (FBErr FB_NoPermission))
    (andthen (ensures (\<lambda>s. contains_key (Bucket s) (owner', name)) (FBErr FB_NonExistent))
    (bnd (gets_some (\<lambda>s. Bucket s (owner', name)) (FBErr FB_Unexpected)) (\<lambda>bucket.
     andthen (for_each (\<lambda>file_hash.
       bnd (try_get_file file_hash FB_Unexpected) (\<lambda>file.
       andthen (if length (owner file) > 1 then remove_file_owner file_hash owner' True
                else remove_file_last_owner file_hash owner' True)
       (remove_user_hold_file_list file_hash owner'))) (object_list bucket))
    (andthen (modify (Bucket_update (\<lambda>m. m((owner', name) := None))))
    (bnd (gets (\<lambda>s. get_or [] (UserBucketList s) owner')) (\<lambda>names.
     bnd (ok_or (vec_remove (length (takeWhile (\<lambda>n. n \<noteq> name) names)) names) Panicked) (\<lambda>names.
     andthen (modify (UserBucketList_update (\<lambda>m. m(owner' \<mapsto> names))))
     (fb_deposit_event (DeleteBucket sender owner' name)))))))))))"

section \<open>Restoral orders\<close>

text \<open>
  The nested loops over the fragments of a file: the first fragment with the hash and the
  miner is changed, \<open>None\<close> when there is none.
\<close>

fun update_fragment ::
  "Hash \<Rightarrow> AccountId \<Rightarrow> (FragmentInfo \<Rightarrow> FragmentInfo) \<Rightarrow> FragmentInfo list \<Rightarrow> FragmentInfo list option" where
  "update_fragment h miner f [] = None"
| "update_fragment h miner f (fragment # fragments) =
     (if frag_hash fragment = h \<and> frag_miner fragment = miner then Some (f fragment # fragments)
      else map_option (Cons fragment) (update_fragment h miner f fragments))"

fun update_segments ::
  "Hash \<Rightarrow> AccountId \<Rightarrow> (FragmentInfo \<Rightarrow> FragmentInfo) \<Rightarrow> SegmentInfo list \<Rightarrow> SegmentInfo list option" where
  "update_segments h miner f [] = None"
| "update_segments h miner f (segment # segments) =
     (case update_fragment h miner f (si_fragments segment) of
        Some fragments \<Rightarrow> Some (segment\<lparr>si_fragments := fragments\<rparr> # segments)
      | None \<Rightarrow> map_option (Cons segment) (update_segments h miner f segments))"

definition generate_restoral_order :: "origin \<Rightarrow> Hash \<Rightarrow> Hash \<Rightarrow> ('s fb_state_scheme, unit) act" where
  "generate_restoral_order origin file_hash restoral_fragment = transactional (
     bnd (ensure_signed origin) (\<lambda>sender.
     andthen (ensures (\<lambda>s. \<not> contains_key (RestoralOrder s) restoral_fragment) (FBErr FB_Existed))
     (try_mutate_file file_hash FB_NonExistent (\<lambda>file.
        (case update_segments restoral_fragment sender (\<lambda>f. f\<lparr>frag_avail := False\<rparr>) (file_segments file) of
           None \<Rightarrow> throw (FBErr FB_SpecError)
         | Some segments \<Rightarrow>
             bnd (gets block_number) (\<lambda>now.
             andthen (modify (RestoralOrder_update (\<lambda>m. m(restoral_fragment \<mapsto>
               \<lparr>order_count = 0, order_miner = sender, origin_miner = sender, fragment_hash = restoral_fragment,
                order_file = file_hash, gen_block = now, order_deadline = 0\<rparr>))))
            (andthen (fb_deposit_event (GenerateRestoralOrder sender restoral_fragment))
             (ret (file\<lparr>file_segments := segments\<rparr>)))))))))"

definition claim_restoral_order :: "'t fb_config_scheme \<Rightarrow> origin \<Rightarrow> Hash \<Rightarrow> ('s fb_state_scheme, unit) act" where
  "claim_restoral_order T origin restoral_fragment = transactional (
     bnd (ensure_signed origin) (\<lambda>sender.
     bnd (is_positive sender) (\<lambda>positive.
     andthen (ensure positive (FBErr FB_MinerStateError))
    (bnd (gets block_number) (\<lambda>now.
     andthen (try_mutate_some RestoralOrder RestoralOrder_update restoral_fragment (FBErr FB_NonExistent) (\<lambda>order.
       andthen (ensure (now > order_deadline order) (FBErr FB_SpecError))
      (bnd (ok_or (checked_add (order_count order) 1) (FBErr FB_Overflow)) (\<lambda>count.
       bnd (ok_or (checked_add now (RestoralOrderLife T)) (FBErr FB_Overflow)) (\<lambda>dl.
       ret (order\<lparr>order_count := count, order_deadline := dl, order_miner := sender\<rparr>))))))
     (fb_deposit_event (ClaimRestoralOrder sender restoral_fragment)))))))"

definition claim_restoral_noexist_order ::
  "'t fb_config_scheme \<Rightarrow> origin \<Rightarrow> AccountId \<Rightarrow> Hash \<Rightarrow> Hash \<Rightarrow> ('s fb_state_scheme, unit) act" where
  "claim_restoral_noexist_order T origin miner file_hash restoral_fragment = transactional (
     bnd (ensure_signed origin) (\<lambda>sender.
     bnd (is_positive sender) (\<lambda>positive.
     andthen (ensure positive (FBErr FB_MinerStateError))
    (andthen (ensures (\<lambda>s. \<not> contains_key (RestoralOrder s) restoral_fragment) (FBErr FB_Existed))
    (andthen (ensures (\<lambda>s. contains_key (RestoralTarget s) miner) (FBErr FB_NonExistent))
    (andthen (try_mutate_file file_hash FB_NonExistent (\<lambda>file.
       (case update_segments restoral_fragment miner (\<lambda>f. f\<lparr>frag_avail := False\<rparr>) (file_segments file) of
          None \<Rightarrow> throw (FBErr FB_SpecError)
        | Some segments \<Rightarrow>
            bnd (gets block_number) (\<lambda>now.
            bnd (ok_or (checked_add now (RestoralOrderLife T)) (FBErr FB_Overflow)) (\<lambda>dl.
            andthen (modify (RestoralOrder_update (\<lambda>m. m(restoral_fragment \<mapsto>
              \<lparr>order_count = 0, order_miner = sender, origin_miner = miner, fragment_hash = restoral_fragment,
               order_file = file_hash, gen_block = now, order_deadline = dl\<rparr>))))
            (ret (file\<lparr>file_segments := segments\<rparr>)))))))
     (fb_deposit_event (ClaimRestoralOrder sender restoral_fragment))))))))"

definition restoral_order_complete :: "origin \<Rightarrow> Hash \<Rightarrow> ('s fb_state_scheme, unit) act" where
  "restoral_order_complete origin fragment_hash' = transactional (
     bnd (ensure_signed origin) (\<lambda>sender.
     bnd (is_positive sender) (\<lambda>positive.
     andthen (ensure positive (FBErr FB_MinerStateError))
    (bnd (gets_some (\<lambda>s. RestoralOrder s fragment_hash') (FBErr FB_NonExistent)) (\<lambda>order.
     andthen (ensure (order_miner order = sender) (FBErr FB_SpecError))
    (bnd (gets block_number) (\<lambda>now.
     andthen (ensure (now < order_deadline order) (FBErr FB_Expired))
    (bnd (gets (\<lambda>s. contains_key (FileMap s) (order_file order))) (\<lambda>known.
     if \<not> known then modify (RestoralOrder_update (\<lambda>m. m(fragment_hash' := None)))
     else
       andthen (try_mutate_file (order_file order) FB_BugInvalid (\<lambda>file.
         (case update_segments fragment_hash' (origin_miner order)
                 (\<lambda>f. f\<lparr>frag_avail := True, frag_miner := sender\<rparr>) (file_segments file) of
            None \<Rightarrow> ret file
          | Some segments \<Rightarrow>
              andthen (sub_miner_service_space (origin_miner order) FRAGMENT_SIZE)
             (andthen (add_miner_service_space sender FRAGMENT_SIZE)
             (bnd (gets (\<lambda>s. contains_key (RestoralTarget s) (origin_miner order))) (\<lambda>leaving.
              andthen (act_when leaving (update_restoral_target (origin_miner order) FRAGMENT_SIZE))
              (ret (file\<lparr>file_segments := segments\<rparr>))))))))
      (andthen (modify (RestoralOrder_update (\<lambda>m. m(fragment_hash' := None))))
       (fb_deposit_event (RecoveryCompleted sender fragment_hash'))))))))))))"

section \<open>Leaving\<close>

definition miner_exit_prep :: "'t fb_config_scheme \<Rightarrow> origin \<Rightarrow> ('s fb_state_scheme, unit) act" where
  "miner_exit_prep T origin = transactional (
     bnd (ensure_signed origin) (\<lambda>sender.
     bnd (gets (\<lambda>s. MinerLock s sender)) (\<lambda>lock_opt.
     andthen (case lock_opt of
                None \<Rightarrow> ret ()
              | Some lock_time \<Rightarrow> bnd (gets block_number) (\<lambda>now. ensure (now > lock_time) (FBErr FB_MinerStateError)))
    (bnd (is_positive sender) (\<lambda>result.
     andthen (ensure result (FBErr FB_MinerStateError))
    (andthen (update_miner_state T sender ''lock'')
    (bnd (gets block_number) (\<lambda>now.
     bnd (ok_or (checked_add (fb_OneDay T) now) (FBErr FB_Overflow)) (\<lambda>lock_time.
     andthen (modify (MinerLock_update (\<lambda>m. m(sender \<mapsto> lock_time))))
    (andthen (schedule_task T (MinerTask sender) lock_time (Call_miner_exit sender))
     (fb_deposit_event (MinerExitPrep sender))))))))))))"

definition miner_exit :: "'t fb_config_scheme \<Rightarrow> origin \<Rightarrow> AccountId \<Rightarrow> ('s fb_state_scheme, unit) act" where
  "miner_exit T origin miner = transactional (
     andthen (ensure_root origin)
    (bnd (is_lock miner) (\<lambda>result.
     andthen (ensure result (FBErr FB_MinerStateError))
    (andthen (clear_filler miner)
    (bnd (get_power miner) (\<lambda>(idle, service).
     andthen (sub_total_idle_space idle)
    (andthen (execute_exit T miner)
     (create_restoral_target T miner service))))))))"

definition miner_withdraw :: "'t fb_config_scheme \<Rightarrow> origin \<Rightarrow> ('s fb_state_scheme, unit) act" where
  "miner_withdraw T origin = transactional (
     bnd (ensure_signed origin) (\<lambda>sender.
     bnd (gets_some (\<lambda>s. RestoralTarget s sender) (FBErr FB_MinerStateError)) (\<lambda>info.
     bnd (gets block_number) (\<lambda>now.
     andthen (ensure (\<not> (now < cooling_block info \<and> restored_space info \<noteq> rt_service_space info)) (FBErr FB_MinerStateError))
    (andthen (withdraw T sender)
     (fb_deposit_event (Withdraw sender)))))))"

section \<open>The trait \<open>RandomFileList\<close>\<close>

definition get_random_challenge_data :: "('s, (AccountId \<times> Hash \<times> u8 list \<times> u32 list \<times> u64 \<times> DataType) list) act" where
  "get_random_challenge_data = ret []"

definition delete_miner_all_filler :: "AccountId \<Rightarrow> ('s fb_state_scheme, unit) act" where
  "delete_miner_all_filler miner_acc = modify (FillerMap_update (\<lambda>m. remove_prefix m miner_acc))"

definition clear_file :: "Hash \<Rightarrow> ('s, unit) act" where
  "clear_file file_hash = ret ()"

end
