(* ===== verification/File_Bank_Deals.thy ===== *)
theory File_Bank_Deals
  imports File_Bank "HOL-Library.Multiset"
begin

text \<open>
  How a deal is made: the miners that \<open>random_assign_miner\<close> chooses, the fragments each of them
  gets, the space it locks, and the file that is built from the tasks once all miners have
  reported. The lemmas on sequences of space operations belong to the locale \<open>space_ledger\<close>, so
  that they hold for miners and for users alike.
\<close>

section \<open>Sequences of space operations\<close>

definition amount :: "(AccountId \<times> u128) list \<Rightarrow> AccountId \<Rightarrow> nat" where
  "amount xs a = (\<Sum>(b, n) \<leftarrow> xs. if b = a then unat n else 0)"

lemma amount_simps [simp]:
  "amount [] a = 0" "amount ((b, n) # xs) a = (if b = a then unat n else 0) + amount xs a"
  by (simp_all add: amount_def)

lemma amount_outside: "a \<notin> fst ` set xs \<Longrightarrow> amount xs a = 0"
  by (induction xs) auto

context space_ledger
begin

lemma lock_list:
  assumes "for_each (\<lambda>(a, n). lock a n) xs s = (Inr (), t)"
  shows "(\<forall>u l r. lease s a = Some (u, l, r) \<longrightarrow> amount xs a \<le> r \<and> lease t a = Some (u, l + amount xs a, r - amount xs a))
    \<and> (lease s a = None \<longrightarrow> lease t a = None \<and> a \<notin> fst ` set xs)"
  using assms
proof (induction xs arbitrary: s)
  case (Cons x xs)
  obtain b n where x: "x = (b, n)" by (cases x)
  from Cons.prems obtain v where v: "lock b n s = (Inr (), v)" "for_each (\<lambda>(a, n). lock a n) xs v = (Inr (), t)"
    by (auto simp: x andthen_Inr)
  from lock_moves [OF v(1)] obtain u l r where m: "lease s b = Some (u, l, unat n + r)"
    "lease v = (lease s)(b \<mapsto> (u, l + unat n, r))" by blast
  show ?case using Cons.IH [OF v(2)] by (auto simp: x m add.assoc split: if_splits)
qed (simp add: ret_def)

lemma unlock_list:
  assumes "for_each (\<lambda>(a, n). unlock a n) xs s = (Inr (), t)" and "\<forall>a \<in> fst ` set xs. lease s a \<noteq> None"
  shows "(\<forall>u l r. lease s a = Some (u, l, r) \<longrightarrow> amount xs a \<le> l \<and> lease t a = Some (u, l - amount xs a, r + amount xs a))
    \<and> (lease s a = None \<longrightarrow> lease t a = None)"
  using assms
proof (induction xs arbitrary: s)
  case (Cons x xs)
  obtain b n where x: "x = (b, n)" by (cases x)
  from Cons.prems(1) obtain v where v: "unlock b n s = (Inr (), v)" "for_each (\<lambda>(a, n). unlock a n) xs v = (Inr (), t)"
    by (auto simp: x andthen_Inr)
  from unlock_moves [OF v(1)] Cons.prems(2) obtain u l r where m: "lease s b = Some (u, unat n + l, r)"
    "lease v = (lease s)(b \<mapsto> (u, l, r + unat n))" by (auto simp: x)
  have "\<forall>a \<in> fst ` set xs. lease v a \<noteq> None" using Cons.prems(2) by (auto simp: m(2) x)
  from Cons.IH [OF v(2) this] show ?case by (auto simp: x m add.assoc split: if_splits)
qed (simp add: ret_def)

lemma consume_list:
  assumes "for_each (\<lambda>(a, n). consume a n) xs s = (Inr (), t)"
  shows "(\<forall>u l r. lease s a = Some (u, l, r) \<longrightarrow> amount xs a \<le> l \<and> lease t a = Some (u + amount xs a, l - amount xs a, r))
    \<and> (lease s a = None \<longrightarrow> lease t a = None \<and> a \<notin> fst ` set xs)"
  using assms
proof (induction xs arbitrary: s)
  case (Cons x xs)
  obtain b n where x: "x = (b, n)" by (cases x)
  from Cons.prems obtain v where v: "consume b n s = (Inr (), v)" "for_each (\<lambda>(a, n). consume a n) xs v = (Inr (), t)"
    by (auto simp: x andthen_Inr)
  from consume_moves [OF v(1)] obtain u l r where m: "lease s b = Some (u, unat n + l, r)"
    "lease v = (lease s)(b \<mapsto> (u + unat n, l, r))" by blast
  show ?case using Cons.IH [OF v(2)] by (auto simp: x m add.assoc split: if_splits)
qed (simp add: ret_def)

lemma locks_abandoned:
  assumes "for_each (\<lambda>(a, n). lock a n) xs s = (Inr (), t)" and "lease t' = lease t"
    and "for_each (\<lambda>(a, n). unlock a n) xs t' = (Inr (), v)"
  shows "lease v = lease s"
proof
  fix a
  note lock = lock_list [OF assms(1)]
  have "\<forall>a \<in> fst ` set xs. lease t' a \<noteq> None"
    using lock assms(2) by (metis option.exhaust prod_cases3 option.distinct(1))
  from unlock_list [OF assms(3) this, of a] lock [of a] assms(2) show "lease v a = lease s a"
    by (cases "lease s a") auto
qed

lemma locks_consumed:
  assumes "for_each (\<lambda>(a, n). lock a n) xs s = (Inr (), t)" and "lease t' = lease t"
    and "for_each (\<lambda>(a, n). consume a n) xs t' = (Inr (), v)" and "lease s a = Some (u, l, r)"
  shows "amount xs a \<le> r \<and> lease v a = Some (u + amount xs a, l, r - amount xs a)"
  using lock_list [OF assms(1), of a] consume_list [OF assms(3), of a] assms(2,4) by auto

end

section \<open>The miners that are chosen\<close>

lemma best_miner_count_3 [simp]: "best_miner_count = 3"
  by (simp add: best_miner_count_def size_defs)

text \<open>A chosen miner has no task yet, is in the state \<open>positive\<close> and has the idle space recorded.\<close>

definition good_pick :: "'s sm_state_scheme \<Rightarrow> u128 \<Rightarrow> MinerTaskList \<Rightarrow> u128 \<Rightarrow> bool" where
  "good_pick s needed t space \<longleftrightarrow> task_fragments t = [] \<and> space > needed * FRAGMENT_SIZE
     \<and> (\<exists>m. MinerItems s (task_miner t) = Some m \<and> miner_state m = STATE_POSITIVE \<and> idle_space m = space)"

definition pick_inv :: "'s sm_state_scheme \<Rightarrow> u128 \<Rightarrow> picking \<Rightarrow> bool" where
  "pick_inv s needed p \<longleftrightarrow> list_all2 (good_pick s needed) (pick_tasks p) (pick_spaces p)
     \<and> length (pick_tasks p) \<le> 3
     \<and> distinct (map task_miner (pick_tasks p) @ pick_all p)
     \<and> set (map task_miner (pick_tasks p)) \<union> set (pick_all p) \<subseteq> set (AllMiner s)"

lemma wp_is_positive [wp_rules]:
  "wp (is_positive a) Q E = (\<lambda>s. (\<forall>m. MinerItems s a = Some m \<longrightarrow> Q (miner_state m = STATE_POSITIVE) s)
     \<and> (MinerItems s a = None \<longrightarrow> E (SMErr SM_NotMiner) s))"
  by (auto simp: is_positive_def get_miner_state_def wp_rules fun_eq_iff)

lemma wp_pick_index:
  "wp (pick_index T p) (\<lambda>_ t. t = s) any_error s"
  by (auto simp: pick_index_def generate_random_number_def wp_rules)

lemma vec_remove_split:
  "vec_remove i xs = Some ys \<longleftrightarrow> i < length xs \<and> ys = take i xs @ drop (Suc i) xs"
  by (auto simp: vec_remove_def)

lemma pick_inv_drawn:
  assumes "pick_inv s needed p" and "vec_remove i (pick_all p) = Some rest"
  shows "pick_inv s needed (p\<lparr>pick_seed := sd, pick_all := rest, pick_total := n\<rparr>)"
    and "distinct (map task_miner (pick_tasks p) @ [pick_all p ! i] @ rest)"
    and "pick_all p ! i \<in> set (AllMiner s)"
proof -
  from assms(2) have i: "i < length (pick_all p)" "rest = take i (pick_all p) @ drop (Suc i) (pick_all p)"
    by (simp_all add: vec_remove_split)
  have split: "pick_all p = take i (pick_all p) @ pick_all p ! i # drop (Suc i) (pick_all p)"
    using i(1) by (rule id_take_nth_drop)
  have m: "mset (pick_all p) = mset (pick_all p ! i # rest)" by (subst split) (simp add: i(2))
  then have set: "set (pick_all p) = insert (pick_all p ! i) (set rest)"
    by (metis list.simps(15) mset_eq_setD)
  have "distinct (pick_all p ! i # rest)"
    using m assms(1) by (metis distinct_append mset_eq_imp_distinct_iff pick_inv_def)
  with set show "distinct (map task_miner (pick_tasks p) @ [pick_all p ! i] @ rest)"
    using assms(1) by (auto simp: pick_inv_def)
  then show "pick_inv s needed (p\<lparr>pick_seed := sd, pick_all := rest, pick_total := n\<rparr>)"
    and "pick_all p ! i \<in> set (AllMiner s)"
    using assms(1) set by (auto simp: pick_inv_def)
qed

lemma wp_pick_miner:
  assumes "pick_inv s needed p" and "length (pick_tasks p) < 3"
    and "MinerItems s miner = Some m" and "miner_state m = STATE_POSITIVE"
    and "distinct (map task_miner (pick_tasks p) @ [miner] @ pick_all p)" and "miner \<in> set (AllMiner s)"
  shows "wp (pick_miner T needed miner p) (\<lambda>p' t. t = s \<and> pick_inv s needed p') any_error s"
  using assms
  by (auto simp: pick_miner_def get_miner_idle_space_def wp_rules arith_wp pick_inv_def good_pick_def
      intro!: list_all2_appendI)

lemma pick_inv_len: "pick_inv s needed p \<Longrightarrow> length (pick_tasks p) \<le> 3"
  by (simp add: pick_inv_def)

lemma len_as_3: "length xs \<le> 3 \<Longrightarrow> (len_as xs :: u32) = 3 \<longleftrightarrow> length xs = 3"
  by (simp add: word_unat_eq_iff unat_len_as)

lemma wp_pick_miners:
  assumes "pick_inv s needed p" and "length (pick_tasks p) < 3"
  shows "wp (pick_miners rounds T needed p) (\<lambda>p' t. t = s \<and> pick_inv s needed p') any_error s"
  using assms
proof (induction rounds arbitrary: p)
  case 0
  then show ?case
    by (auto simp: wp_rules pick_inv_def intro!: wp_mono [OF wp_pick_index])
next
  case (Suc rounds)
  have "wp (bnd (ok_or (vec_remove (unat index) (pick_all p)) Panicked) (\<lambda>rest.
           let miner = pick_all p ! unat index;
               p = p\<lparr>pick_seed := seed, pick_all := rest, pick_total := pick_total p - 1\<rparr> in
           bnd (is_positive miner) (\<lambda>result.
           if \<not> result then pick_miners rounds T needed p
           else bnd (pick_miner T needed miner p) (\<lambda>p.
                if len_as (pick_tasks p) = best_miner_count then ret p
                else pick_miners rounds T needed p))))
          (\<lambda>p' t. t = s \<and> pick_inv s needed p') any_error s" for index seed
    unfolding wp_bnd wp_ok_or Let_def wp_is_positive wp_if
  proof (intro conjI allI impI TrueI)
    fix rest m
    assume rest: "vec_remove (unat index) (pick_all p) = Some rest"
      and m: "MinerItems s (pick_all p ! unat index) = Some m"
    let ?p = "p\<lparr>pick_seed := seed, pick_all := rest, pick_total := pick_total p - 1\<rparr>"
    note inv = pick_inv_drawn(1) [OF Suc.prems(1) rest, where sd = seed and n = "pick_total p - 1"]
      pick_inv_drawn(2,3) [OF Suc.prems(1) rest]
    have rec: "wp (pick_miners rounds T needed q) (\<lambda>p' t. t = s \<and> pick_inv s needed p') any_error s"
      if "pick_inv s needed q" "length (pick_tasks q) < 3" for q
      using that by (rule Suc.IH)
    show "if \<not> miner_state m = STATE_POSITIVE
      then wp (pick_miners rounds T needed ?p) (\<lambda>p' t. t = s \<and> pick_inv s needed p') any_error s
      else wp (pick_miner T needed (pick_all p ! unat index) ?p)
            (\<lambda>x s'. if len_as (pick_tasks x) = best_miner_count then wp (ret x) (\<lambda>p' t. t = s \<and> pick_inv s needed p') any_error s'
               else wp (pick_miners rounds T needed x) (\<lambda>p' t. t = s \<and> pick_inv s needed p') any_error s') any_error s"
    proof (cases "miner_state m = STATE_POSITIVE")
      case True
      have "wp (pick_miner T needed (pick_all p ! unat index) ?p) (\<lambda>p' t. t = s \<and> pick_inv s needed p') any_error s"
        using wp_pick_miner [OF inv(1) _ m True] Suc.prems(2) inv(2,3) by simp
      then show ?thesis
        using True by (auto simp: wp_ret len_as_3 pick_inv_len le_neq_implies_less elim!: wp_mono intro!: rec)
    next
      case False
      then show ?thesis using rec [OF inv(1)] Suc.prems(2) by simp
    qed
  qed
  then show ?case
    using Suc.prems(1) by (auto simp: wp_if wp_bnd wp_ret wp_case_prod intro!: wp_mono [OF wp_pick_index])
qed

section \<open>The fragments each miner gets\<close>

definition all_tasks :: "MinerTaskList list \<Rightarrow> Hash multiset" where
  "all_tasks tasks = mset (concat (map task_fragments tasks))"

lemma all_tasks_upd:
  assumes "k < length tasks" and "t = (tasks ! k)\<lparr>task_fragments := task_fragments (tasks ! k) @ [h]\<rparr>"
  shows "all_tasks (tasks[k := t]) = all_tasks tasks + {#h#}"
    and "map task_miner (tasks[k := t]) = map task_miner tasks"
proof -
  have "all_tasks tasks = all_tasks (take k tasks @ tasks ! k # drop (Suc k) tasks)"
    using id_take_nth_drop [OF assms(1)] by simp
  then show "all_tasks (tasks[k := t]) = all_tasks tasks + {#h#}"
    using assms by (simp add: all_tasks_def upd_conv_take_nth_drop)
  show "map task_miner (tasks[k := t]) = map task_miner tasks"
    using assms by (simp add: map_update list_update_same_conv)
qed

lemma wp_assign_fragment:
  assumes "tasks \<noteq> []"
  shows "wp (assign_fragment T spaces h (tasks, i)) (\<lambda>(tasks', i') t. t = s
      \<and> map task_miner tasks' = map task_miner tasks \<and> all_tasks tasks' = all_tasks tasks + {#h#}) any_error s"
  using assms
  by (auto simp: assign_fragment_def wp_rules Let_def try_push_Some all_tasks_upd)

lemma wp_assign_segment:
  assumes "tasks \<noteq> []"
  shows "wp (assign_segment T spaces segment tasks) (\<lambda>tasks' t. t = s
      \<and> map task_miner tasks' = map task_miner tasks
      \<and> all_tasks tasks' = all_tasks tasks + mset (seg_fragments segment)) any_error s"
proof -
  let ?I = "\<lambda>ys r t. t = s \<and> map task_miner (fst r) = map task_miner tasks \<and> all_tasks (fst r) = all_tasks tasks + mset ys"
  have "wp (fold_act (assign_fragment T spaces) (seg_fragments segment) (tasks, 0)) (?I ([] @ seg_fragments segment)) any_error s"
  proof (rule wp_fold_act_prefix)
    fix h t ys and r :: "MinerTaskList list \<times> u32"
    assume "?I ys r t"
    moreover from this have "fst r \<noteq> []" using assms by auto
    ultimately show "wp (assign_fragment T spaces h r) (?I (ys @ [h])) any_error t"
      using wp_assign_fragment [of "fst r" T spaces h "snd r" t] by (auto elim: wp_mono)
  qed simp
  then show ?thesis by (auto simp: assign_segment_def wp_bnd wp_case_prod wp_ret elim: wp_mono)
qed

lemma wp_assign_segments:
  assumes "tasks \<noteq> []"
  shows "wp (fold_act (assign_segment T spaces) needed tasks) (\<lambda>tasks' t. t = s
      \<and> map task_miner tasks' = map task_miner tasks
      \<and> all_tasks tasks' = all_tasks tasks + mset (concat (map seg_fragments needed))) any_error s"
proof -
  let ?I = "\<lambda>ys r t. t = s \<and> map task_miner r = map task_miner tasks
      \<and> all_tasks r = all_tasks tasks + mset (concat (map seg_fragments ys))"
  have "wp (fold_act (assign_segment T spaces) needed tasks) (?I ([] @ needed)) any_error s"
  proof (rule wp_fold_act_prefix)
    fix seg t and r :: "MinerTaskList list" and ys :: "SegmentList list"
    assume "?I ys r t"
    moreover from this have "r \<noteq> []" using assms by auto
    ultimately show "wp (assign_segment T spaces seg r) (?I (ys @ [seg])) any_error t"
      using wp_assign_segment [of r T spaces seg t] by (auto elim: wp_mono)
  qed simp
  then show ?thesis by simp
qed

text \<open>With three miners and three fragments per segment, miner \<open>i\<close> gets fragment \<open>i\<close> of each segment.\<close>

definition even_split :: "SegmentList list \<Rightarrow> MinerTaskList list \<Rightarrow> bool" where
  "even_split segments tasks \<longleftrightarrow> length tasks = 3
     \<and> (\<forall>i < 3. task_fragments (tasks ! i) = map (\<lambda>seg. seg_fragments seg ! i) segments)"

definition roomy :: "nat \<Rightarrow> u128 list \<Rightarrow> bool" where
  "roomy n spaces \<longleftrightarrow> length spaces = 3 \<and> (\<forall>i < 3. n * unat FRAGMENT_SIZE < unat (spaces ! i))"

lemma find_slot_here:
  assumes "n * unat FRAGMENT_SIZE < unat (spaces ! (unat i mod length tasks))"
    and "length (task_fragments (tasks ! (unat i mod length tasks))) < n" and "n < 2 ^ 32"
  shows "find_slot spaces tasks i = Some i"
proof -
  let ?k = "unat i mod length tasks" and ?l = "length (task_fragments (tasks ! (unat i mod length tasks)))"
  have l: "unat (len_as (task_fragments (tasks ! ?k)) + 1 :: u128) = ?l + 1"
    using assms(2,3) by (subst unat_add_eq) (simp_all add: unat_len_as)
  have "(?l + 1) * unat FRAGMENT_SIZE \<le> n * unat FRAGMENT_SIZE" using assms(2) by simp
  with assms(1) unat_lt [of "spaces ! ?k"] have "(?l + 1) * unat FRAGMENT_SIZE < 2 ^ 128" by simp
  then have "unat ((len_as (task_fragments (tasks ! ?k)) + 1) * FRAGMENT_SIZE) = (?l + 1) * unat FRAGMENT_SIZE"
    by (subst unat_mult_eq) (simp_all add: l del: unat_sizes)
  with assms(1) \<open>(?l + 1) * unat FRAGMENT_SIZE \<le> n * unat FRAGMENT_SIZE\<close>
  show ?thesis by (subst find_slot.simps) (simp add: Let_def word_less_nat_alt del: unat_sizes)
qed

definition give :: "Hash \<Rightarrow> MinerTaskList \<Rightarrow> MinerTaskList" where
  "give h t = t\<lparr>task_fragments := task_fragments t @ [h]\<rparr>"

lemma give_simps [simp]:
  "task_fragments (give h t) = task_fragments t @ [h]" "task_miner (give h t) = task_miner t"
  by (simp_all add: give_def)

lemma assign_fragment_here:
  assumes "k < length tasks" and "unat i = k" and "k < 2 ^ 32 - 1" and "n < 2 ^ 32" and "n \<le> MissionCount T"
    and "n * unat FRAGMENT_SIZE < unat (spaces ! k)" and "length (task_fragments (tasks ! k)) < n"
  shows "assign_fragment T spaces h (tasks, i) s = (Inr (tasks[k := give h (tasks ! k)], i + 1), s)"
proof -
  have slot: "find_slot spaces tasks i = Some i"
    using assms by (intro find_slot_here [where n = n]) simp_all
  have "checked_add i 1 = Some (i + 1)" using assms(2,3) by (simp add: checked_add_def)
  with slot assms show ?thesis
    by (simp add: assign_fragment_def bnd_def ok_or_def ret_def Let_def try_push_def give_def)
qed

lemma assign_segment_even:
  assumes "even_split segments tasks" and "roomy n spaces" and "length segments < n" and "n < 2 ^ 32"
    and "n \<le> MissionCount T" and "length (seg_fragments seg) = 3"
  shows "wp (assign_segment T spaces seg tasks) (\<lambda>tasks' t. t = s \<and> even_split (segments @ [seg]) tasks') no_error s"
proof -
  obtain a b c where abc: "seg_fragments seg = [a, b, c]"
    using assms(6) by (auto simp: numeral_3_eq_3 length_Suc_conv)
  have l: "length tasks = 3" and len: "length (task_fragments (tasks ! i)) = length segments" if "i < 3" for i
    using assms(1) that by (simp_all add: even_split_def)
  have sp: "n * unat FRAGMENT_SIZE < unat (spaces ! i)" if "i < 3" for i
    using assms(2) that by (simp add: roomy_def)
  let ?t1 = "tasks[0 := give a (tasks ! 0)]"
  let ?t2 = "?t1[1 := give b (tasks ! 1)]"
  let ?t3 = "?t2[2 := give c (tasks ! 2)]"
  have 1: "assign_fragment T spaces a (tasks, 0) s = (Inr (?t1, 1), s)"
    using assign_fragment_here [of 0 tasks 0 n T spaces a s] l [of 0] len [of 0] sp [of 0] assms(3-5) by simp
  have 2: "assign_fragment T spaces b (?t1, 1) s = (Inr (?t2, 2), s)"
    using assign_fragment_here [of 1 ?t1 1 n T spaces b s] l [of 1] len [of 1] sp [of 1] assms(3-5) by simp
  have 3: "assign_fragment T spaces c (?t2, 2) s = (Inr (?t3, 3), s)"
    using assign_fragment_here [of 2 ?t2 2 n T spaces c s] l [of 2] len [of 2] sp [of 2] assms(3-5) by simp
  have "even_split (segments @ [seg]) ?t3"
    using assms(1) abc by (auto simp: even_split_def less_Suc_eq eval_nat_numeral nth_list_update)
  moreover have "assign_segment T spaces seg tasks s = (Inr ?t3, s)"
    by (simp add: assign_segment_def abc bnd_def 1 2 [unfolded One_nat_def] 3 [unfolded One_nat_def] ret_def)
  ultimately show ?thesis by (simp add: wp_def)
qed

lemma assign_segments_even:
  assumes "even_split [] tasks" and "roomy (length needed) spaces" and "length needed < 2 ^ 32"
    and "length needed \<le> MissionCount T" and "\<forall>seg \<in> set needed. length (seg_fragments seg) = 3"
  shows "wp (fold_act (assign_segment T spaces) needed tasks) (\<lambda>tasks' t. t = s \<and> even_split needed tasks') no_error s"
proof -
  have "wp (fold_act (assign_segment T spaces) xs ts) (\<lambda>tasks' t. t = s \<and> even_split (ys @ xs) tasks') no_error s"
    if "even_split ys ts" "ys @ xs = needed" for xs ys ts
    using that
  proof (induction xs arbitrary: ys ts)
    case Nil
    then show ?case by (simp add: wp_ret)
  next
    case (Cons seg xs)
    have "length ys < length needed" "length (seg_fragments seg) = 3"
      using Cons.prems(2) assms(5) by auto
    from assign_segment_even [OF Cons.prems(1) assms(2) this(1) assms(3,4) this(2), of s]
    have "wp (assign_segment T spaces seg ts) (\<lambda>tasks' t. t = s \<and> even_split (ys @ [seg]) tasks') no_error s" .
    moreover have "wp (fold_act (assign_segment T spaces) xs r) (\<lambda>tasks' t. t = s \<and> even_split (ys @ seg # xs) tasks') no_error s"
      if "even_split (ys @ [seg]) r" for r
      using Cons.IH [OF that] Cons.prems(2) by simp
    ultimately show ?case unfolding fold_act.simps wp_bnd by (auto elim: wp_mono)
  qed
  from this [OF assms(1)] show ?thesis by simp
qed

section \<open>The whole assignment\<close>

definition task_space :: "MinerTaskList \<Rightarrow> AccountId \<times> u128" where
  "task_space t = (task_miner t, len_as (task_fragments t) * FRAGMENT_SIZE)"

lemma check_file_spec_all:
  "check_file_spec T segments \<longleftrightarrow> (\<forall>seg \<in> set segments. len_as (seg_fragments seg) = FragmentCount T)"
  by (induction segments) auto

definition assignment :: "'s fb_state_scheme \<Rightarrow> SegmentList list \<Rightarrow> MinerTaskList list \<Rightarrow> bool" where
  "assignment s needed tasks \<longleftrightarrow> tasks \<noteq> [] \<and> length tasks \<le> 3
     \<and> distinct (map task_miner tasks) \<and> task_miner ` set tasks \<subseteq> set (AllMiner s)
     \<and> (\<forall>a \<in> task_miner ` set tasks. \<exists>m. MinerItems s a = Some m \<and> miner_state m = STATE_POSITIVE
          \<and> len_as needed * FRAGMENT_SIZE < idle_space m)
     \<and> all_tasks tasks = mset (concat (map seg_fragments needed))"

lemma list_all2_good_pick:
  "list_all2 (good_pick s needed) tasks spaces \<Longrightarrow> all_tasks tasks = {#}
     \<and> (\<forall>a \<in> task_miner ` set tasks. \<exists>m. MinerItems s a = Some m \<and> miner_state m = STATE_POSITIVE
          \<and> needed * FRAGMENT_SIZE < idle_space m)"
  by (induction rule: list_all2_induct) (auto simp: good_pick_def all_tasks_def)

lemma good_pick_roomy:
  assumes "list_all2 (good_pick s (len_as needed)) tasks spaces" and "length tasks = 3" and "length (needed :: 'a list) < 2 ^ 32"
  shows "roomy (length needed) spaces" and "even_split [] tasks"
proof -
  have n: "unat (len_as needed * FRAGMENT_SIZE :: u128) = length needed * unat FRAGMENT_SIZE"
    using assms(3) by (subst unat_mult_eq) (simp_all add: unat_len_as)
  have "length spaces = 3" using assms(1,2) by (simp add: list_all2_lengthD [symmetric])
  with assms(1,2) n show "roomy (length needed) spaces" and "even_split [] tasks"
    by (auto simp: roomy_def even_split_def good_pick_def list_all2_conv_all_nth word_less_nat_alt)
qed

lemma wp_random_assign_miner:
  assumes "distinct (AllMiner s)"
  shows "wp (random_assign_miner T needed) (\<lambda>tasks t. assignment s needed tasks
     \<and> (length tasks = 3 \<longrightarrow> length needed < 2 ^ 32 \<longrightarrow> length needed \<le> MissionCount T \<longrightarrow>
         (\<forall>seg \<in> set needed. length (seg_fragments seg) = 3) \<longrightarrow> even_split needed tasks)
     \<and> for_each (\<lambda>(a, n). lock_space a n) (map task_space tasks) s = (Inr (), t)) any_error s"
proof -
  let ?p0 = "\<lparr>pick_seed = block_number s, pick_all = AllMiner s, pick_total = len_as (AllMiner s), pick_idle = 0,
      pick_tasks = [], pick_spaces = []\<rparr>"
  let ?Q = "\<lambda>tasks. assignment s needed tasks
     \<and> (length tasks = 3 \<longrightarrow> length needed < 2 ^ 32 \<longrightarrow> length needed \<le> MissionCount T \<longrightarrow>
         (\<forall>seg \<in> set needed. length (seg_fragments seg) = 3) \<longrightarrow> even_split needed tasks)"
  let ?lock = "\<lambda>tasks. for_each (\<lambda>t. lock_space (task_miner t) (len_as (task_fragments t) * FRAGMENT_SIZE)) tasks"
  have pick: "wp (pick_miners rounds T (len_as needed) ?p0) (\<lambda>p' t. t = s \<and> pick_inv s (len_as needed) p') any_error s" for rounds
    by (rule wp_pick_miners) (simp_all add: pick_inv_def assms)
  have assign: "wp (fold_act (assign_segment T (pick_spaces p)) needed (pick_tasks p)) (\<lambda>tasks t. t = s \<and> ?Q tasks) any_error s"
    if p: "pick_inv s (len_as needed) p" "pick_tasks p \<noteq> []" for p
  proof -
    let ?f = "fold_act (assign_segment T (pick_spaces p)) needed (pick_tasks p)"
    from p have picks: "list_all2 (good_pick s (len_as needed)) (pick_tasks p) (pick_spaces p)" by (simp add: pick_inv_def)
    note any = wp_assign_segments [OF p(2), of T "pick_spaces p" needed s]
    have "wp ?f (\<lambda>tasks t. length (pick_tasks p) = 3 \<longrightarrow> length needed < 2 ^ 32 \<longrightarrow> length needed \<le> MissionCount T \<longrightarrow>
         (\<forall>seg \<in> set needed. length (seg_fragments seg) = 3) \<longrightarrow> even_split needed tasks) any_error s"
    proof (cases "length (pick_tasks p) = 3 \<and> length needed < 2 ^ 32 \<and> length needed \<le> MissionCount T
         \<and> (\<forall>seg \<in> set needed. length (seg_fragments seg) = 3)")
      case True
      then show ?thesis
        using assign_segments_even [OF good_pick_roomy(2,1) [OF picks], where T = T and s = s] by (auto elim!: wp_mono)
    qed (auto simp: wp_def split: prod.splits sum.splits)
    from wp_conj [OF any this] show ?thesis
    proof (rule wp_mono)
      fix tasks t
      assume post: "(t = s \<and> map task_miner tasks = map task_miner (pick_tasks p)
        \<and> all_tasks tasks = all_tasks (pick_tasks p) + mset (concat (map seg_fragments needed)))
        \<and> (length (pick_tasks p) = 3 \<longrightarrow> length needed < 2 ^ 32 \<longrightarrow> length needed \<le> MissionCount T \<longrightarrow>
         (\<forall>seg \<in> set needed. length (seg_fragments seg) = 3) \<longrightarrow> even_split needed tasks)"
      then have eq: "map task_miner tasks = map task_miner (pick_tasks p)" by simp
      then have len: "length tasks = length (pick_tasks p)" by (rule map_eq_imp_length_eq)
      then have "assignment s needed tasks"
        unfolding assignment_def list.set_map [symmetric] eq
        using post p list_all2_good_pick [OF picks] by (auto simp: pick_inv_def)
      then show "t = s \<and> ?Q tasks" using post unfolding len by blast
    qed simp
  qed
  have "wp (?lock tasks) (\<lambda>_ t. ?lock tasks s = (Inr (), t)) any_error s" for tasks
    using wp_run [of "?lock tasks" s] by simp
  then have lock: "wp (?lock tasks) (\<lambda>_ t. ?Q tasks \<and> ?lock tasks s = (Inr (), t)) any_error s" if "?Q tasks" for tasks
    using that by (auto elim: wp_mono)
  have map_lock: "for_each (\<lambda>(a, n). lock_space a n) (map task_space tasks) = ?lock tasks" for tasks
    by (simp add: for_each_map task_space_def)
  show ?thesis
    unfolding random_assign_miner_def wp_bnd wp_gets get_all_miner_def wp_andthen wp_ensure wp_ret map_lock
    by (rule wp_mono [OF pick]) (auto intro!: wp_mono [OF assign] wp_mono [OF lock])
qed

section \<open>The file that is built from the tasks\<close>

text \<open>Whichever of several equal entries of a sorted list is removed, the same list is left.\<close>

lemma sorted_remove_any:
  assumes "sorted xs" and "vec_remove i xs = Some ys" and "xs ! i = x"
  shows "ys = remove1 x xs"
proof -
  from assms(2) have i: "i < length xs" "ys = take i xs @ drop (Suc i) xs" by (simp_all add: vec_remove_split)
  have "xs = take i xs @ xs ! i # drop (Suc i) xs" using i(1) by (rule id_take_nth_drop)
  then have "mset xs = add_mset x (mset ys)" by (metis assms(3) i(2) mset.simps(2) mset_append union_mset_add_mset_right)
  then have "mset ys = mset (remove1 x xs)" by simp
  moreover have "sorted (take i xs @ xs ! i # drop (Suc i) xs)"
    using assms(1) id_take_nth_drop [OF i(1)] by simp
  then have "sorted ys" by (simp add: i(2) sorted_append)
  moreover have "sorted (remove1 x xs)" using assms(1) by (rule sorted_remove1)
  ultimately show ?thesis by (metis properties_for_sort)
qed

definition sub_tasks :: "MinerTaskList list \<Rightarrow> MinerTaskList list \<Rightarrow> bool" where
  "sub_tasks = list_all2 (\<lambda>a b. task_miner a = task_miner b \<and> set (task_fragments a) \<subseteq> set (task_fragments b))"

lemma sub_tasks_refl [simp]: "sub_tasks ts ts"
  by (simp add: sub_tasks_def list_all2_refl)

lemma sub_tasks_trans [trans]: "sub_tasks as bs \<Longrightarrow> sub_tasks bs cs \<Longrightarrow> sub_tasks as cs"
  unfolding sub_tasks_def by (rule list_all2_trans) auto

lemma sub_tasks_sort [simp]: "sub_tasks (sort_tasks ts) ts"
  by (induction ts) (simp_all add: sub_tasks_def sort_tasks_def)

lemma sub_tasks_length: "sub_tasks as bs \<Longrightarrow> length as = length bs"
  by (simp add: sub_tasks_def list_all2_lengthD)

lemma all_tasks_sort [simp]: "all_tasks (sort_tasks ts) = all_tasks ts"
  by (induction ts) (simp_all add: all_tasks_def sort_tasks_def)

text \<open>The fragment \<open>f\<close> is with a miner that has it among its tasks.\<close>

definition held :: "MinerTaskList list \<Rightarrow> FragmentInfo \<Rightarrow> bool" where
  "held tasks f \<longleftrightarrow> frag_avail f \<and> (\<exists>t \<in> set tasks. task_miner t = frag_miner f \<and> frag_hash f \<in> set (task_fragments t))"

lemma held_sub: "held as f \<Longrightarrow> sub_tasks as bs \<Longrightarrow> held bs f"
  unfolding held_def sub_tasks_def by (fastforce simp: list_all2_conv_all_nth in_set_conv_nth)

lemma find_task_any:
  assumes "h \<in># all_tasks tasks"
  shows "\<exists>m tasks'. find_task False mark h tasks = Some (m, tasks') \<and> sub_tasks tasks' tasks
    \<and> all_tasks tasks = add_mset h (all_tasks tasks') \<and> held tasks \<lparr>frag_hash = h, frag_avail = True, frag_miner = m\<rparr>"
  using assms
proof (induction tasks)
  case (Cons t ts)
  show ?case
  proof (cases "h \<in> set (task_fragments t)")
    case True
    have "set (remove1 h (task_fragments t)) \<subseteq> set (task_fragments t)" by (rule set_remove1_subset)
    with True show ?thesis
      by (auto simp: sub_tasks_def all_tasks_def held_def list_all2_refl)
  next
    case False
    with Cons show ?thesis by (auto simp: sub_tasks_def all_tasks_def held_def)
  qed
qed (simp add: all_tasks_def)

lemma place_fragments_any:
  assumes "mset hs \<subseteq># all_tasks tasks" and "length frags + length hs \<le> n"
  shows "\<exists>fs tasks'. place_fragments n False hs mark frags tasks = Some (frags @ fs, tasks') \<and> sub_tasks tasks' tasks
    \<and> all_tasks tasks = mset hs + all_tasks tasks' \<and> map frag_hash fs = hs \<and> (\<forall>f \<in> set fs. held tasks f)"
  using assms
proof (induction hs arbitrary: mark frags tasks)
  case (Cons h hs)
  then have "h \<in># all_tasks tasks" by (simp add: insert_subset_eq_iff)
  from find_task_any [OF this] obtain m tasks1 where 1: "find_task False mark h tasks = Some (m, tasks1)"
    "sub_tasks tasks1 tasks" "all_tasks tasks = add_mset h (all_tasks tasks1)"
    "held tasks \<lparr>frag_hash = h, frag_avail = True, frag_miner = m\<rparr>" by blast
  let ?f = "\<lparr>frag_hash = h, frag_avail = True, frag_miner = m\<rparr>"
  have "mset hs \<subseteq># all_tasks tasks1" "length (frags @ [?f]) + length hs \<le> n"
    using Cons.prems 1(3) by simp_all
  from Cons.IH [OF this, of "mark @ [m]"] obtain fs tasks2 where
    2: "place_fragments n False hs (mark @ [m]) (frags @ [?f]) tasks1 = Some ((frags @ [?f]) @ fs, tasks2)"
    "sub_tasks tasks2 tasks1" "all_tasks tasks1 = mset hs + all_tasks tasks2" "map frag_hash fs = hs" "\<forall>f \<in> set fs. held tasks1 f"
    by blast
  have "place_fragments n False (h # hs) mark frags tasks = Some (frags @ ?f # fs, tasks2)"
    using 1(1) 2(1) Cons.prems(2) by (simp add: try_push_def)
  then show ?case
    using 1 2 held_sub sub_tasks_trans
    by (intro exI [of _ "?f # fs"] exI [of _ tasks2]) auto
qed simp

text \<open>The tasks have what the remaining segments need.\<close>

definition covers :: "SegmentList list \<Rightarrow> MinerTaskList list \<Rightarrow> bool" where
  "covers segments tasks \<longleftrightarrow>
     (if length tasks = 3
      then distinct (map task_miner tasks)
         \<and> (\<forall>i < 3. mset (task_fragments (tasks ! i)) = mset (map (\<lambda>seg. seg_fragments seg ! i) segments))
      else length tasks < 3 \<and> all_tasks tasks = mset (concat (map seg_fragments segments)))"

lemma place_fragments_three:
  assumes "distinct [task_miner t0, task_miner t1, task_miner t2]"
    and "a \<in> set (task_fragments t0)" "b \<in> set (task_fragments t1)" "c \<in> set (task_fragments t2)"
  shows "place_fragments 3 True [a, b, c] [] [] [t0, t1, t2] =
     Some ([\<lparr>frag_hash = a, frag_avail = True, frag_miner = task_miner t0\<rparr>,
            \<lparr>frag_hash = b, frag_avail = True, frag_miner = task_miner t1\<rparr>,
            \<lparr>frag_hash = c, frag_avail = True, frag_miner = task_miner t2\<rparr>],
           [t0\<lparr>task_fragments := remove1 a (task_fragments t0)\<rparr>,
            t1\<lparr>task_fragments := remove1 b (task_fragments t1)\<rparr>,
            t2\<lparr>task_fragments := remove1 c (task_fragments t2)\<rparr>])"
  using assms by (auto simp: try_push_def)

lemma length_3_cases: "length xs = 3 \<longleftrightarrow> (\<exists>a b c. xs = [a, b, c])"
  by (auto simp: numeral_3_eq_3 length_Suc_conv)

lemma all_less_3: "(\<forall>i < 3. P i) \<longleftrightarrow> P 0 \<and> P 1 \<and> P (2 :: nat)"
  by (auto simp: less_Suc_eq numeral_3_eq_3 numeral_2_eq_2)

lemma place_segment:
  assumes "covers (seg # segments) tasks" and "length (seg_fragments seg) = 3"
  shows "\<exists>fs tasks'. place_fragments 3 (best_miner_count = len_as tasks) (seg_fragments seg) [] [] (sort_tasks tasks)
      = Some (fs, tasks') \<and> sub_tasks tasks' tasks \<and> covers segments tasks'
    \<and> map frag_hash fs = seg_fragments seg \<and> (\<forall>f \<in> set fs. held tasks f)"
proof (cases "length tasks = 3")
  case True
  obtain a b c where abc: "seg_fragments seg = [a, b, c]" using assms(2) by (auto simp: length_3_cases)
  obtain t0 t1 t2 where ts: "tasks = [t0, t1, t2]" using True by (auto simp: length_3_cases)
  from assms(1) have d: "distinct [task_miner t0, task_miner t1, task_miner t2]"
    and m: "mset (task_fragments t0) = add_mset a (mset (map (\<lambda>seg. seg_fragments seg ! 0) segments))"
      "mset (task_fragments t1) = add_mset b (mset (map (\<lambda>seg. seg_fragments seg ! 1) segments))"
      "mset (task_fragments t2) = add_mset c (mset (map (\<lambda>seg. seg_fragments seg ! 2) segments))"
    by (simp_all add: covers_def ts all_less_3 abc)
  then have mem: "a \<in> set (task_fragments t0)" "b \<in> set (task_fragments t1)" "c \<in> set (task_fragments t2)"
    by (metis set_mset_mset union_single_eq_member)+
  have flag: "best_miner_count = (len_as tasks :: u32)" by (simp add: ts len_as_def)
  let ?s = "\<lambda>t. t\<lparr>task_fragments := sort (task_fragments t)\<rparr>"
  note place = place_fragments_three [of "?s t0" "?s t1" "?s t2" a b c, simplified, OF d [simplified] mem]
  have "covers segments [t0\<lparr>task_fragments := remove1 a (sort (task_fragments t0))\<rparr>,
      t1\<lparr>task_fragments := remove1 b (sort (task_fragments t1))\<rparr>,
      t2\<lparr>task_fragments := remove1 c (sort (task_fragments t2))\<rparr>]"
    using d m by (simp add: covers_def all_less_3)
  then show ?thesis
    using place flag mem by (auto simp: abc ts sort_tasks_def sub_tasks_def held_def dest: set_remove1_subset [THEN subsetD])
next
  case False
  then have less: "length tasks < 3" and m: "all_tasks tasks = mset (seg_fragments seg) + mset (concat (map seg_fragments segments))"
    using assms(1) by (simp_all add: covers_def)
  have flag: "best_miner_count \<noteq> (len_as tasks :: u32)"
    using False less len_as_3 [of tasks] by auto
  have "mset (seg_fragments seg) \<subseteq># all_tasks (sort_tasks tasks)" by (simp add: m)
  from place_fragments_any [OF this, of "[]" 3 "[]"] assms(2) obtain fs tasks' where
    p: "place_fragments 3 False (seg_fragments seg) [] [] (sort_tasks tasks) = Some (fs, tasks')"
      "sub_tasks tasks' (sort_tasks tasks)" "all_tasks tasks = mset (seg_fragments seg) + all_tasks tasks'"
      "map frag_hash fs = seg_fragments seg" "\<forall>f \<in> set fs. held (sort_tasks tasks) f"
    by auto
  have "sub_tasks tasks' tasks" using p(2) sub_tasks_sort by (rule sub_tasks_trans)
  moreover from this have "covers segments tasks'"
    using less False p(3) m by (simp add: covers_def sub_tasks_length)
  moreover have "\<forall>f \<in> set fs. held tasks f" using p(5) held_sub sub_tasks_sort by blast
  ultimately show ?thesis using p(1,4) flag by auto
qed

definition placed :: "MinerTaskList list \<Rightarrow> SegmentList \<Rightarrow> SegmentInfo \<Rightarrow> bool" where
  "placed tasks seg info \<longleftrightarrow> si_hash info = seg_hash seg \<and> map frag_hash (si_fragments info) = seg_fragments seg
     \<and> (\<forall>f \<in> set (si_fragments info). held tasks f)"

lemma placed_sub: "placed as seg info \<Longrightarrow> sub_tasks as bs \<Longrightarrow> placed bs seg info"
  by (auto simp: placed_def intro: held_sub)

lemma build_segments_complete:
  assumes "covers segments tasks" and "\<forall>seg \<in> set segments. length (seg_fragments seg) = 3"
    and "FragmentCount T = 3" and "length infos + length segments \<le> SegmentCount T"
  shows "\<exists>new. build_segments T [] segments infos tasks = Some (infos @ new) \<and> list_all2 (placed tasks) segments new"
  using assms
proof (induction segments arbitrary: infos tasks)
  case (Cons seg segments)
  from place_segment [OF Cons.prems(1)] Cons.prems(2) obtain fs tasks' where
    p: "place_fragments 3 (best_miner_count = len_as tasks) (seg_fragments seg) [] [] (sort_tasks tasks) = Some (fs, tasks')"
      "sub_tasks tasks' tasks" "covers segments tasks'" "map frag_hash fs = seg_fragments seg" "\<forall>f \<in> set fs. held tasks f"
    by auto
  let ?info = "\<lparr>si_hash = seg_hash seg, si_fragments = fs\<rparr>"
  have len: "(len_as (sort_tasks tasks) :: u32) = len_as tasks" by (simp add: len_as_def sort_tasks_def)
  have "build_segments T [] (seg # segments) infos tasks = build_segments T [] segments (infos @ [?info]) tasks'"
    using p(1) Cons.prems(3,4) by (simp add: len Let_def try_push_def)
  moreover obtain new where new: "build_segments T [] segments (infos @ [?info]) tasks' = Some ((infos @ [?info]) @ new)"
    "list_all2 (placed tasks') segments new"
    using Cons.IH [OF p(3), of "infos @ [?info]"] Cons.prems(2-4) by auto
  moreover have "placed tasks seg ?info" using p(4,5) by (simp add: placed_def)
  moreover have "list_all2 (placed tasks) segments new"
    using new(2) by (rule list_all2_mono) (rule placed_sub [OF _ p(2)])
  ultimately show ?case by auto
qed simp

end
