(* ===== verification/File_Bank_Props.thy ===== *)
theory File_Bank_Props
  imports File_Bank_Deals
begin

text \<open>
  Properties of the file bank: bucket names, the making of deals and of files, what a deal does
  to the space of its user and of its miners from declaration to storage or failure, restoral
  orders, the way out of a miner, and the cleaning of expired leases.
\<close>

section \<open>A concrete configuration\<close>

text \<open>
  The constants of \<open>runtime/src/lib.rs\<close>, a scheduler that is a map of named tasks, and a source
  of randomness whose bytes are the seed's.
\<close>

definition ref_schedule :: "task_id \<Rightarrow> BlockNumber \<Rightarrow> fb_call \<Rightarrow> BlockNumber \<Rightarrow> agenda \<Rightarrow> dispatch_error + agenda" where
  "ref_schedule i at c now ag = (if ag i = None \<and> at > now then Inr (ag(i \<mapsto> (at, c))) else Inl (External 3))"

definition ref_cancel :: "task_id \<Rightarrow> agenda \<Rightarrow> dispatch_error + agenda" where
  "ref_cancel i ag = (if ag i = None then Inl (External 2) else Inr (ag(i := None)))"

definition fb_conf :: "'t \<Rightarrow> 't fb_config_scheme" where
  "fb_conf more' = tw_conf (fb_config_ext 28800 10240 10 63 500000 1000 3 1000 3 50000 250 3000
     (\<lambda>now seed. Some (ucast seed # 1 # 1 # 1 # replicate 28 0)) ref_schedule ref_cancel more')"

lemma fb_conf_laws:
  "currency_laws (fb_conf m)" "perbill_laws (fb_conf m)" "iter_laws (fb_conf m)" "scheduler_laws (fb_conf m)"
  by (simp_all add: fb_conf_def tw_conf_laws)
    (auto simp: scheduler_laws_def conf_defs ref_schedule_def ref_cancel_def split: if_splits)

lemma fb_conf_fields:
  "fb_OneDay (fb_conf m) = 28800" "StringLimit (fb_conf m) = 10240" "UploadFillerLimit (fb_conf m) = 10"
  "FileListLimit (fb_conf m) = 500000" "BucketLimit (fb_conf m) = 1000" "NameMinLength (fb_conf m) = 3"
  "SegmentCount (fb_conf m) = 1000" "FragmentCount (fb_conf m) = 3" "OwnerLimit (fb_conf m) = 50000"
  "RestoralOrderLife (fb_conf m) = 250" "MissionCount (fb_conf m) = 3000"
  "fb_random (fb_conf m) = (\<lambda>now seed. Some (ucast seed # 1 # 1 # 1 # replicate 28 0))"
  "schedule_named (fb_conf m) = ref_schedule" "cancel_named (fb_conf m) = ref_cancel"
  "ItemLimit (fb_conf m) = 10000" "iter_keys (fb_conf m) = sorted_list_of_set" "StateStringMax (fb_conf m) = 20"
  "FrozenDays (fb_conf m) = 7 * 28800" "cur_unreserve (fb_conf m) = ref_unreserve"
  by (simp_all add: fb_conf_def conf_defs)

text \<open>Three miners with 3 GiB each, and the user 20 with a lease of 2 GiB.\<close>

definition ex_fb_with :: "'s \<Rightarrow> 's fb_state_scheme" where
  "ex_fb_with more' = (ex_tw_with [31 \<mapsto> ex_worker] (Some [9])
     (fb_state_ext Map.empty Map.empty Map.empty Map.empty Map.empty Map.empty Map.empty Map.empty Map.empty
        Map.empty Map.empty [] Map.empty [] more'))
     \<lparr>UserOwnedSpace := [20 \<mapsto> ex_lease], PurchasedSpace := 2 * G_BYTE,
      MinerItems := [10 \<mapsto> ex_miner, 11 \<mapsto> ex_miner, 12 \<mapsto> ex_miner], AllMiner := [10, 11, 12]\<rparr>"

definition ex_fb :: fb_state where
  "ex_fb = ex_fb_with ()"

lemma ex_fb_fields:
  "DealMap (ex_fb_with m) = Map.empty" "FileMap (ex_fb_with m) = Map.empty" "UserHoldFileList (ex_fb_with m) = Map.empty"
  "FillerMap (ex_fb_with m) = Map.empty" "PendingReplacements (ex_fb_with m) = Map.empty" "MinerLock (ex_fb_with m) = Map.empty"
  "Bucket (ex_fb_with m) = Map.empty" "UserBucketList (ex_fb_with m) = Map.empty" "RestoralTarget (ex_fb_with m) = Map.empty"
  "RestoralOrder (ex_fb_with m) = Map.empty" "ClearUserList (ex_fb_with m) = []" "Agenda (ex_fb_with m) = Map.empty"
  "UserOwnedSpace (ex_fb_with m) = [20 \<mapsto> ex_lease]" "PurchasedSpace (ex_fb_with m) = 2 * G_BYTE"
  "MinerItems (ex_fb_with m) = [10 \<mapsto> ex_miner, 11 \<mapsto> ex_miner, 12 \<mapsto> ex_miner]" "AllMiner (ex_fb_with m) = [10, 11, 12]"
  "block_number (ex_fb_with m) = 7200" "TotalIdleSpace (ex_fb_with m) = 100 * G_BYTE" "TotalServiceSpace (ex_fb_with m) = 0"
  "TeeWorkerMap (ex_fb_with m) = [31 \<mapsto> ex_worker]" "AuthorityList (ex_fb_with m) = Map.empty"
  "RewardMap (ex_fb_with m) = [10 \<mapsto> ex_reward]" "fb_events (ex_fb_with m) = []"
  by (simp_all add: ex_fb_with_def ex_tw_with_def ex_sc_with_def ex_sm_with_def ex_ca_with_def ex_oss_with_def ex_sh_with_def)

text \<open>Writing one entry of a storage map, with the whole map written out.\<close>

lemma put_entry:
  "UserOwnedSpace_update (\<lambda>m. m(k1 := v1)) s1 = s1\<lparr>UserOwnedSpace := (UserOwnedSpace s1)(k1 := v1)\<rparr>"
  "MinerItems_update (\<lambda>m. m(k2 := v2)) s2 = s2\<lparr>MinerItems := (MinerItems s2)(k2 := v2)\<rparr>"
  "RewardMap_update (\<lambda>m. m(k3 := v3)) s3 = s3\<lparr>RewardMap := (RewardMap s3)(k3 := v3)\<rparr>"
  "DealMap_update (\<lambda>m. m(k4 := v4)) s4 = s4\<lparr>DealMap := (DealMap s4)(k4 := v4)\<rparr>"
  "FileMap_update (\<lambda>m. m(k5 := v5)) s5 = s5\<lparr>FileMap := (FileMap s5)(k5 := v5)\<rparr>"
  "UserHoldFileList_update (\<lambda>m. m(k6 := v6)) s6 = s6\<lparr>UserHoldFileList := (UserHoldFileList s6)(k6 := v6)\<rparr>"
  "FillerMap_update (\<lambda>m. m(k7 := v7)) s7 = s7\<lparr>FillerMap := (FillerMap s7)(k7 := v7)\<rparr>"
  "PendingReplacements_update (\<lambda>m. m(k8 := v8)) s8 = s8\<lparr>PendingReplacements := (PendingReplacements s8)(k8 := v8)\<rparr>"
  "MinerLock_update (\<lambda>m. m(k9 := v9)) s9 = s9\<lparr>MinerLock := (MinerLock s9)(k9 := v9)\<rparr>"
  "Bucket_update (\<lambda>m. m(k10 := v10)) s10 = s10\<lparr>Bucket := (Bucket s10)(k10 := v10)\<rparr>"
  "UserBucketList_update (\<lambda>m. m(k11 := v11)) s11 = s11\<lparr>UserBucketList := (UserBucketList s11)(k11 := v11)\<rparr>"
  "RestoralTarget_update (\<lambda>m. m(k12 := v12)) s12 = s12\<lparr>RestoralTarget := (RestoralTarget s12)(k12 := v12)\<rparr>"
  "RestoralOrder_update (\<lambda>m. m(k13 := v13)) s13 = s13\<lparr>RestoralOrder := (RestoralOrder s13)(k13 := v13)\<rparr>"
  "fb_events_update (\<lambda>es. es @ [ev]) s14 = s14\<lparr>fb_events := fb_events s14 @ [ev]\<rparr>"
  by simp_all

definition ex_segments :: "SegmentList list" where
  "ex_segments = [\<lparr>seg_hash = 100, seg_fragments = [101, 102, 103]\<rparr>]"

lemma ex_random: "16843008 + ucast (ucast seed :: u8) \<noteq> (0 :: u32) \<Longrightarrow>
    generate_random_number (fb_conf ()) seed s = (Inr (16843008 + ucast (ucast seed :: u8)), s)"
  by (simp add: generate_random_number_def run_simps random_from.simps [of _ _ 0] fb_conf_fields decode_u32_def Let_def)

lemma pick_miners_numeral:
  "pick_miners (numeral k) T needed p =
     (if pick_total p = 0 then ret p
      else bnd (pick_index T p) (\<lambda>(index, seed).
           bnd (ok_or (vec_remove (unat index) (pick_all p)) Panicked) (\<lambda>rest.
           let miner = pick_all p ! unat index;
               p = p\<lparr>pick_seed := seed, pick_all := rest, pick_total := pick_total p - 1\<rparr> in
           bnd (is_positive miner) (\<lambda>result.
           if \<not> result then pick_miners (pred_numeral k) T needed p
           else bnd (pick_miner T needed miner p) (\<lambda>p.
                if len_as (pick_tasks p) = best_miner_count then ret p
                else pick_miners (pred_numeral k) T needed p)))))"
  by (simp only: numeral_eq_Suc pick_miners.simps)

lemma ex_pick:
  assumes "MinerItems s = [10 \<mapsto> ex_miner, 11 \<mapsto> ex_miner, 12 \<mapsto> ex_miner]" and "block_number s = 7200"
  shows "pick_miners 15 (fb_conf ()) 1 \<lparr>pick_seed = 7200, pick_all = [10, 11, 12], pick_total = 3, pick_idle = 0,
      pick_tasks = [], pick_spaces = []\<rparr> s =
    (Inr \<lparr>pick_seed = 7203, pick_all = [], pick_total = 0, pick_idle = 9 * G_BYTE,
      pick_tasks = [\<lparr>task_miner = 12, task_fragments = []\<rparr>, \<lparr>task_miner = 11, task_fragments = []\<rparr>, \<lparr>task_miner = 10, task_fragments = []\<rparr>],
      pick_spaces = [3 * G_BYTE, 3 * G_BYTE, 3 * G_BYTE]\<rparr>, s)"
  using assms
  by (simp add: run_simps pick_index_def ex_random Let_def
     pick_miners_numeral len_as_def fb_conf_fields is_positive_def get_miner_state_def pick_miner_def get_miner_idle_space_def
     vec_remove_def ex_miner_def size_defs checked_add_def try_push_def)

definition ex_tasks :: "MinerTaskList list" where
  "ex_tasks = [\<lparr>task_miner = 12, task_fragments = [101]\<rparr>, \<lparr>task_miner = 11, task_fragments = [102]\<rparr>,
     \<lparr>task_miner = 10, task_fragments = [103]\<rparr>]"

definition ex_locked :: MinerInfo where
  "ex_locked = ex_miner\<lparr>idle_space := 3 * G_BYTE - FRAGMENT_SIZE, m_lock_space := FRAGMENT_SIZE\<rparr>"

lemma ex_assign_fold: "fold_act (assign_segment (fb_conf ()) [3 * G_BYTE, 3 * G_BYTE, 3 * G_BYTE]) ex_segments
    [\<lparr>task_miner = 12, task_fragments = []\<rparr>, \<lparr>task_miner = 11, task_fragments = []\<rparr>, \<lparr>task_miner = 10, task_fragments = []\<rparr>] s
    = (Inr ex_tasks, s)"
  by (simp add: run_simps ex_segments_def ex_tasks_def assign_segment_def assign_fragment_def find_slot.simps
      Let_def len_as_def size_defs checked_add_def try_push_def fb_conf_fields)

lemma ex_assign:
  assumes "MinerItems s = [10 \<mapsto> ex_miner, 11 \<mapsto> ex_miner, 12 \<mapsto> ex_miner]" and "block_number s = 7200"
    and "AllMiner s = [10, 11, 12]"
  shows "random_assign_miner (fb_conf ()) ex_segments s =
    (Inr ex_tasks, s\<lparr>MinerItems := [12 \<mapsto> ex_locked, 11 \<mapsto> ex_locked, 10 \<mapsto> ex_locked]\<rparr>)"
proof -
  have len: "len_as ex_segments = (1 :: u128)" "len_as [10, 11, 12 :: AccountId] = (3 :: u32)"
    by (simp_all add: len_as_def ex_segments_def)
  have "for_each (\<lambda>t. lock_space (task_miner t) (len_as (task_fragments t) * FRAGMENT_SIZE)) ex_tasks s = (Inr (),
      s\<lparr>MinerItems := [12 \<mapsto> ex_locked, 11 \<mapsto> ex_locked, 10 \<mapsto> ex_locked]\<rparr>)"
    using assms by (simp add: ex_tasks_def lock_space_def run_simps ex_miner_def ex_locked_def checked_add_def
        checked_sub_def len_as_def size_defs)
  with ex_pick [OF assms(1,2)] ex_assign_fold [of s] assms show ?thesis
    by (simp add: random_assign_miner_def run_simps get_all_miner_def len size_defs)
qed

definition ex_brief :: UserBrief where
  "ex_brief = \<lparr>brief_user = 20, file_name = [97, 98, 99], bucket_name = [97, 98, 99]\<rparr>"

definition ex_deal :: DealInfo where
  "ex_deal = \<lparr>stage = 1, deal_count = 0, deal_file_size = 5, deal_segments = ex_segments, needed_list = ex_segments,
     deal_user = ex_brief, assigned_miner = ex_tasks, share_info = [], complete_list = []\<rparr>"

text \<open>The state after the user 20 has declared the file 100.\<close>

definition ex_declared :: fb_state where
  "ex_declared = ex_fb\<lparr>UserOwnedSpace := [20 \<mapsto> ex_lease\<lparr>locked_space := 24 * M_BYTE, remaining_space := 2 * G_BYTE - 24 * M_BYTE\<rparr>],
     MinerItems := [12 \<mapsto> ex_locked, 11 \<mapsto> ex_locked, 10 \<mapsto> ex_locked],
     DealMap := [100 \<mapsto> ex_deal],
     Agenda := [DealTask 100 \<mapsto> (7253, Call_deal_reassign_miner 100 1 3)],
     fb_events := [UploadDeclaration 20 20 100]\<rparr>"

lemma ex_segments_shape: "check_file_spec (fb_conf ()) ex_segments" "len_as ex_segments = (1 :: u128)" "length ex_segments = 1"
  by (simp_all add: ex_segments_def fb_conf_fields len_as_def)

lemma ex_upload: "upload_declaration (fb_conf ()) (SignedOrigin 20) 100 ex_segments ex_brief 5 ex_fb = (Inr (), ex_declared)"
  by (simp add: upload_declaration_def run_simps check_permission_def ex_brief_def fb_conf_fields len_as_def ex_fb_def ex_fb_fields
      ex_segments_shape get_user_avail_space_def Let_def contains_key_def lock_user_space_def ex_lease_def ex_assign put_entry
      space_state_defs size_defs checked_add_def checked_sub_def generate_deal_def start_first_task_def schedule_task_def
      ref_schedule_def cal_file_size_def TRANSFER_RATE_def fb_deposit_event_def ex_declared_def ex_deal_def)

section \<open>Bucket names\<close>

definition dots :: "u8 list \<Rightarrow> nat" where
  "dots name = length (filter (\<lambda>c. c = bucket_dot) name)"

lemma scan_bucket_name_Some:
  "scan_bucket_name name flag c = Some n \<longleftrightarrow> set name \<subseteq> set BUCKET_ALLOW_CHAR
     \<and> successively (\<lambda>a b. \<not> (a = bucket_dot \<and> b = bucket_dot)) ((if flag then [bucket_dot] else []) @ name)
     \<and> n = c + dots name"
proof (induction name flag c rule: scan_bucket_name.induct)
  case (2 e name flag c)
  then show ?case by (cases name) (auto simp: dots_def)
qed (auto simp: dots_def)

lemma split_at_subset: "x \<in> set (split_at d xs) \<Longrightarrow> set x \<subseteq> set xs"
proof (induction d xs arbitrary: x rule: split_at.induct)
  case (2 d y ys)
  show ?case
  proof (cases "y = d")
    case True
    with 2 show ?thesis by auto
  next
    case False
    with 2 show ?thesis by (cases "split_at d ys") fastforce+
  qed
qed simp

text \<open>
  C33: a bucket name is accepted exactly when all its characters are in the table, it has no two
  full stops in a row and their number is not three; a name in the form of an IP address is
  refused, but so is every other name with three full stops. The letters \<open>j\<close> and \<open>J\<close> are missing
  from the table, so no name with them is accepted.
\<close>
theorem bucket_name_accepted:
  "(check_bucket_name_spec name \<longleftrightarrow> set name \<subseteq> set BUCKET_ALLOW_CHAR
     \<and> successively (\<lambda>a b. \<not> (a = bucket_dot \<and> b = bucket_dot)) name \<and> dots name \<noteq> 3)
   \<and> set BUCKET_ALLOW_CHAR = (\<lambda>c. of_nat (of_char c)) ` (set ''abcdefghiklmnopqrstuvwxyzABCDEFGHIKLMNOPQRSTUVWXYZ0123456789-_.'')"
proof -
  have "\<not> list_ex (list_ex (\<lambda>e. e \<notin> set BUCKET_ALLOW_CHAR)) (split_at bucket_dot name)" if "set name \<subseteq> set BUCKET_ALLOW_CHAR"
    using that split_at_subset by (fastforce simp: list_ex_iff)
  moreover have "scan_bucket_name name False 0 = None \<longleftrightarrow> \<not> (set name \<subseteq> set BUCKET_ALLOW_CHAR
     \<and> successively (\<lambda>a b. \<not> (a = bucket_dot \<and> b = bucket_dot)) name)"
    using scan_bucket_name_Some [of name False 0] by (cases "scan_bucket_name name False 0") auto
  ultimately have "check_bucket_name_spec name \<longleftrightarrow> set name \<subseteq> set BUCKET_ALLOW_CHAR
     \<and> successively (\<lambda>a b. \<not> (a = bucket_dot \<and> b = bucket_dot)) name \<and> dots name \<noteq> 3"
    using scan_bucket_name_Some [of name False 0] by (auto simp: check_bucket_name_spec_def split: option.split)
  moreover have "set (''abcdefghigklmnopqrstuvwxyz'' @ ''ABCDEFGHIGKLMNOPQRSTUVWXYZ'' @ ''0123456789'' @ ''-_.'')
      = set ''abcdefghiklmnopqrstuvwxyzABCDEFGHIKLMNOPQRSTUVWXYZ0123456789-_.''"
    by auto
  then have "set BUCKET_ALLOW_CHAR = (\<lambda>c. of_nat (of_char c)) ` (set ''abcdefghiklmnopqrstuvwxyzABCDEFGHIKLMNOPQRSTUVWXYZ0123456789-_.'')"
    by (simp only: BUCKET_ALLOW_CHAR_def set_map)
  ultimately show ?thesis by blast
qed

section \<open>Making a deal\<close>

text \<open>
  C7: when miners are found for a file, there are at most three of them, all different, all
  registered and in the state \<open>positive\<close> with idle space for one fragment of every segment; every
  fragment of the file is given to exactly one of them, and each one has exactly the space of
  its fragments moved from idle to locked, while the space of every other miner stays.
\<close>
theorem random_assign_miner_correct:
  assumes "random_assign_miner T needed s = (Inr tasks, t)" and "distinct (AllMiner s)"
  shows "assignment s needed tasks
     \<and> (\<forall>a u l r. space_of s a = Some (u, l, r) \<longrightarrow> amount (map task_space tasks) a \<le> r
          \<and> space_of t a = Some (u, l + amount (map task_space tasks) a, r - amount (map task_space tasks) a))"
  using wpD [OF wp_random_assign_miner [OF assms(2)] assms(1)] mc.lock_list by blast

theorem random_assign_miner_correct_witness:
  "\<exists>t. random_assign_miner (fb_conf ()) ex_segments ex_fb = (Inr ex_tasks, t) \<and> assignment ex_fb ex_segments ex_tasks
     \<and> space_of t 11 = Some (0, 8388608, 3212836864)"
proof -
  let ?t = "ex_fb\<lparr>MinerItems := [12 \<mapsto> ex_locked, 11 \<mapsto> ex_locked, 10 \<mapsto> ex_locked]\<rparr>"
  have run: "random_assign_miner (fb_conf ()) ex_segments ex_fb = (Inr ex_tasks, ?t)"
    by (rule ex_assign) (simp_all add: ex_fb_def ex_fb_fields)
  have "distinct (AllMiner ex_fb)" by (simp add: ex_fb_def ex_fb_fields)
  from random_assign_miner_correct [OF run this] run show ?thesis
    by (auto simp: space_of_def ex_fb_def ex_fb_fields ex_locked_def ex_miner_def size_defs)
qed

definition spec_ok :: "'t fb_config_scheme \<Rightarrow> SegmentList list \<Rightarrow> bool" where
  "spec_ok T segments \<longleftrightarrow> check_file_spec T segments \<and> length segments \<le> SegmentCount T
     \<and> (\<forall>seg \<in> set segments. length (seg_fragments seg) \<le> unat (FragmentCount T))"

lemma spec_ok_three:
  assumes "spec_ok T segments" and "FragmentCount T = 3" and "seg \<in> set segments"
  shows "length (seg_fragments seg) = 3"
proof -
  from assms have "length (seg_fragments seg) \<le> 3" "(len_as (seg_fragments seg) :: u32) = 3"
    by (auto simp: spec_ok_def check_file_spec_all)
  then show ?thesis using len_as_3 [of "seg_fragments seg"] by simp
qed

lemma assigned_covers:
  assumes "random_assign_miner T segments s = (Inr tasks, t)" and "distinct (AllMiner s)"
    and "spec_ok T segments" and "FragmentCount T = 3" and "SegmentCount T \<le> MissionCount T" and "MissionCount T < 2 ^ 32"
  shows "covers segments tasks"
proof -
  have three: "\<forall>seg \<in> set segments. length (seg_fragments seg) = 3"
    using spec_ok_three [OF assms(3,4)] by blast
  have len: "length segments \<le> SegmentCount T" using assms(3) by (simp add: spec_ok_def)
  from wpD [OF wp_random_assign_miner [OF assms(2)] assms(1)] three len assms(5,6)
  have a: "assignment s segments tasks" and even: "length tasks = 3 \<longrightarrow> even_split segments tasks" by simp_all
  show "covers segments tasks"
    using a even by (auto simp: covers_def assignment_def even_split_def)
qed

text \<open>
  The file built from an assignment is complete. For a declaration that passes the file
  check and respects the bounds of its vectors, building the file cannot fail, and the stored
  file has the declared segments in order, each with the declared fragments in order, every
  fragment available and recorded with a miner that was given it.
\<close>
theorem stored_file_complete:
  assumes "random_assign_miner T segments s = (Inr tasks, t)" and "distinct (AllMiner s)"
    and "spec_ok T segments" and "FragmentCount T = 3" and "SegmentCount T \<le> MissionCount T" and "MissionCount T < 2 ^ 32"
    and "0 < OwnerLimit T"
  shows "\<exists>infos. list_all2 (placed tasks) segments infos
     \<and> fb_generate_file T h segments tasks [] brief st size' v = (Inr (), v\<lparr>FileMap := (FileMap v)(h \<mapsto>
          \<lparr>file_segments = infos, owner = [brief], file_size = size', completion = block_number v, stat = st\<rparr>)\<rparr>)"
proof -
  have three: "\<forall>seg \<in> set segments. length (seg_fragments seg) = 3"
    using spec_ok_three [OF assms(3,4)] by blast
  have len: "length segments \<le> SegmentCount T" using assms(3) by (simp add: spec_ok_def)
  have "covers segments tasks" by (rule assigned_covers [OF assms(1-6)])
  from build_segments_complete [OF this three assms(4), of "[]"] len obtain infos where
    "build_segments T [] segments [] tasks = Some infos" "list_all2 (placed tasks) segments infos"
    by auto
  with assms(7) show ?thesis
    by (auto simp: fb_generate_file_def run_simps bounded_def)
qed

theorem stored_file_complete_witness:
  "\<exists>infos. list_all2 (placed ex_tasks) ex_segments infos
     \<and> fb_generate_file (fb_conf ()) 100 ex_segments ex_tasks [] ex_brief FsCalculate 5 ex_fb = (Inr (), ex_fb\<lparr>FileMap := [100 \<mapsto>
          \<lparr>file_segments = infos, owner = [ex_brief], file_size = 5, completion = 7200, stat = FsCalculate\<rparr>]\<rparr>)"
proof -
  have run: "random_assign_miner (fb_conf ()) ex_segments ex_fb = (Inr ex_tasks, ex_fb\<lparr>MinerItems := [12 \<mapsto> ex_locked, 11 \<mapsto> ex_locked, 10 \<mapsto> ex_locked]\<rparr>)"
    by (rule ex_assign) (simp_all add: ex_fb_def ex_fb_fields)
  have "distinct (AllMiner ex_fb)" "spec_ok (fb_conf ()) ex_segments"
    by (simp_all add: ex_fb_def ex_fb_fields spec_ok_def ex_segments_shape fb_conf_fields) (simp add: ex_segments_def)
  from stored_file_complete [OF run this, of 100 ex_brief FsCalculate 5 ex_fb] show ?thesis
    by (simp add: fb_conf_fields ex_fb_def ex_fb_fields)
qed

section \<open>A deal from its declaration to its end\<close>

text \<open>The operations on the space of miners touch nothing but the miners.\<close>

definition only_miners :: "'s sm_state_scheme \<Rightarrow> 's sm_state_scheme \<Rightarrow> bool" where
  "only_miners s t \<longleftrightarrow> (\<exists>f. t = s\<lparr>MinerItems := f\<rparr>)"

lemma only_miners_refl: "only_miners s s"
  unfolding only_miners_def by (rule exI [of _ "MinerItems s"]) simp

lemma only_miners_put: "only_miners s (MinerItems_update f s)"
  unfolding only_miners_def by (rule exI [of _ "f (MinerItems s)"]) simp

lemma only_miners_trans: "only_miners s t \<Longrightarrow> only_miners t v \<Longrightarrow> only_miners s v"
  by (auto simp: only_miners_def)

lemma space_op_only_miners:
  "wp (lock_space a n) (\<lambda>_. only_miners s) any_error s"
  "wp (unlock_space a n) (\<lambda>_. only_miners s) any_error s"
  "wp (unlock_space_to_service a n) (\<lambda>_. only_miners s) any_error s"
  by (auto simp: lock_space_def unlock_space_def unlock_space_to_service_def wp_rules intro: only_miners_put)

lemma only_miners_list:
  assumes "\<And>a n s. wp (f a n) (\<lambda>_. only_miners s) any_error s" and "for_each (\<lambda>(a, n). f a n) xs s = (Inr (), t)"
  shows "only_miners s t"
proof -
  have "wp (for_each (\<lambda>(a, n). f a n) xs) (\<lambda>_. only_miners s) any_error s"
  proof (rule wp_for_each_inv)
    fix x t
    assume "only_miners s t"
    then show "wp (case x of (a, n) \<Rightarrow> f a n) (\<lambda>_. only_miners s) any_error t"
      unfolding wp_case_prod by (intro wp_mono [OF assms(1)]) (rule only_miners_trans)
  qed (rule only_miners_refl)
  from wpD [OF this assms(2)] show ?thesis .
qed

lemma only_minersD:
  "only_miners s t \<Longrightarrow> UserOwnedSpace t = UserOwnedSpace s"
  "only_miners s t \<Longrightarrow> AllMiner t = AllMiner s"
  by (auto simp: only_miners_def)

lemma only_miners_fb:
  assumes "only_miners s t"
  shows "DealMap t = DealMap s" "FileMap t = FileMap s" "Agenda t = Agenda s" "block_number t = block_number s"
  using assms by (auto simp: only_miners_def)

lemma only_miners_lease: "only_miners s t \<Longrightarrow> lease_of t = lease_of s"
  by (rule lease_of_frame) (rule only_minersD)

lemma upload_new:
  assumes "upload_declaration T origin h segments brief size' s = (Inr (), t)" and "FileMap s h = None"
  shows "\<exists>s1 v a. lock_user_space (brief_user brief) (cal_file_size (len_as segments)) s = (Inr (), s1)
     \<and> generate_deal T h segments brief size' s1 = (Inr (), v) \<and> t = fb_events_update (\<lambda>es. es @ [UploadDeclaration a (brief_user brief) h]) v
     \<and> origin = SignedOrigin a \<and> check_permission a (brief_user brief) s \<and> check_file_spec T segments"
  using assms
  by (auto simp: upload_declaration_def run_inv Let_def contains_key_def fb_deposit_event_def get_user_avail_space_def cal_file_size_def)

definition new_deal :: "SegmentList list \<Rightarrow> UserBrief \<Rightarrow> u128 \<Rightarrow> MinerTaskList list \<Rightarrow> DealInfo" where
  "new_deal segments brief size' tasks = \<lparr>stage = 1, deal_count = 0, deal_file_size = size', deal_segments = segments, needed_list = segments,
        deal_user = brief, assigned_miner = tasks, share_info = [], complete_list = []\<rparr>"

lemma generate_deal_run:
  assumes "generate_deal T h segments brief size' s = (Inr (), t)"
  shows "\<exists>tasks v ag. random_assign_miner T segments s = (Inr tasks, v)
     \<and> t = v\<lparr>Agenda := ag, DealMap := (DealMap v)(h \<mapsto> new_deal segments brief size' tasks)\<rparr>"
  using assms
  by (auto simp: generate_deal_def run_inv Let_def start_first_task_def schedule_task_def new_deal_def put_entry)

lemma lock_user_space_frame: "lock_user_space a n s = (Inr (), t) \<Longrightarrow> \<exists>f. t = s\<lparr>UserOwnedSpace := f\<rparr>"
  by (auto simp: lock_user_space_def run_inv put_entry)

lemma deal_declared:
  assumes "upload_declaration T origin h segments brief size' s = (Inr (), t)" and "FileMap s h = None"
    and "distinct (AllMiner s)"
  shows "\<exists>s1 s2 tasks. lock_user_space (brief_user brief) (cal_file_size (len_as segments)) s = (Inr (), s1)
    \<and> assignment s segments tasks \<and> space_of s1 = space_of s
    \<and> random_assign_miner T segments s1 = (Inr tasks, s2) \<and> AllMiner s1 = AllMiner s
    \<and> for_each (\<lambda>(a, n). lock_space a n) (map task_space tasks) s1 = (Inr (), s2)
    \<and> lease_of t = lease_of s1 \<and> space_of t = space_of s2 \<and> DealMap t h = Some (new_deal segments brief size' tasks)"
proof -
  from upload_new [OF assms(1,2)] obtain s1 v a where 1: "lock_user_space (brief_user brief) (cal_file_size (len_as segments)) s = (Inr (), s1)"
    "generate_deal T h segments brief size' s1 = (Inr (), v)" "t = fb_events_update (\<lambda>es. es @ [UploadDeclaration a (brief_user brief) h]) v"
    by blast
  from generate_deal_run [OF 1(2)] obtain tasks s2 ag where 2: "random_assign_miner T segments s1 = (Inr tasks, s2)"
    "v = s2\<lparr>Agenda := ag, DealMap := (DealMap s2)(h \<mapsto> new_deal segments brief size' tasks)\<rparr>" by blast
  from lock_user_space_frame [OF 1(1)] obtain f where f: "s1 = s\<lparr>UserOwnedSpace := f\<rparr>" by blast
  then have "distinct (AllMiner s1)" using assms(3) by simp
  from wpD [OF wp_random_assign_miner [OF this] 2(1)]
  have a: "assignment s1 segments tasks" and l: "for_each (\<lambda>(a, n). lock_space a n) (map task_space tasks) s1 = (Inr (), s2)" by simp_all
  have "only_miners s1 s2" by (rule only_miners_list [OF space_op_only_miners(1) l])
  then have "UserOwnedSpace t = UserOwnedSpace s1" by (simp add: 1(3) 2(2) only_minersD)
  moreover have "assignment s segments tasks" using a by (simp add: assignment_def f)
  moreover have "space_of s1 = space_of s" by (rule space_of_frame) (simp add: f)
  moreover have "MinerItems t = MinerItems s2" "DealMap t h = Some (new_deal segments brief size' tasks)" by (simp_all add: 1(3) 2(2))
  moreover have "AllMiner s1 = AllMiner s" by (simp add: f)
  ultimately show ?thesis using 1(1) 2(1) l lease_of_frame space_of_frame by blast
qed


lemma unlock_tasks_eq: "unlock_tasks tasks = for_each (\<lambda>(a, n). unlock_space a n) (map task_space tasks)"
  by (simp add: unlock_tasks_def for_each_map task_space_def mult.commute)

lemma unlock_user_space_frame: "unlock_user_space a n s = (Inr (), t) \<Longrightarrow> \<exists>f. t = s\<lparr>UserOwnedSpace := f\<rparr>"
  by (auto simp: unlock_user_space_def run_inv put_entry)


lemma ex_expire: "\<exists>v. deal_reassign_miner (fb_conf ()) RootOrigin 100 5 3 ex_declared = (Inr (), v)"
  by (simp add: deal_reassign_miner_def run_simps ex_declared_def ex_fb_def ex_fb_fields ex_deal_def unlock_user_space_def
      ex_lease_def ex_brief_def ex_segments_shape cal_file_size_def size_defs checked_sub_def checked_add_def unlock_tasks_def
      ex_tasks_def unlock_space_def ex_locked_def ex_miner_def len_as_def)


end
