(* ===== verification/File_Bank_Storage.thy ===== *)
theory File_Bank_Storage
  imports File_Bank_Props
begin

text \<open>
  What happens to a file once its deal is made: the reports of its miners, the end of the
  deal, restoral orders, the way out of a miner, deletion, and the cleaning of expired leases.
\<close>

section \<open>The last report and the end of the deal\<close>

text \<open>Everything the last report does besides storing the file and charging its user leaves
  leases, miners, files and deals alone.\<close>

definition quiet :: "'s fb_state_scheme \<Rightarrow> 's fb_state_scheme \<Rightarrow> bool" where
  "quiet s t \<longleftrightarrow> UserOwnedSpace t = UserOwnedSpace s \<and> MinerItems t = MinerItems s \<and> FileMap t = FileMap s \<and> DealMap t = DealMap s"

lemma quiet_trans: "quiet s t \<Longrightarrow> quiet t v \<Longrightarrow> quiet s v"
  by (simp add: quiet_def)

lemma schedule_task_run [run_inv]:
  "schedule_task T i at c s = (Inr y, t) \<longleftrightarrow>
     (\<exists>ag. schedule_named T i at c (block_number s) (Agenda s) = Inr ag \<and> t = s\<lparr>Agenda := ag\<rparr>)"
  by (auto simp: schedule_task_def run_inv)

lemma quiet_add_pending: "for_each add_pending tasks s = (Inr (), t) \<Longrightarrow> quiet s t"
proof (induction tasks arbitrary: s)
  case (Cons x xs)
  then obtain v where v: "add_pending x s = (Inr (), v)" "for_each add_pending xs v = (Inr (), t)" by (auto simp: run_inv)
  from v(1) have "quiet s v" by (auto simp: add_pending_def run_inv quiet_def)
  with Cons.IH [OF v(2)] show ?case by (rule quiet_trans [rotated])
qed (simp add: run_inv quiet_def)

lemma quiet_ops:
  "sub_total_idle_space n s = (Inr (), t) \<Longrightarrow> quiet s t"
  "add_total_service_space n s = (Inr (), t) \<Longrightarrow> quiet s t"
  "cancel_task T i s = (Inr (), t) \<Longrightarrow> quiet s t"
  "start_second_task T i h life s = (Inr (), t) \<Longrightarrow> quiet s t"
  "add_file_to_bucket T u b h s = (Inr (), t) \<Longrightarrow> quiet s t"
  "create_bucket_helper T u b ho s = (Inr (), t) \<Longrightarrow> quiet s t"
  "add_user_hold_fileslice T u h n s = (Inr (), t) \<Longrightarrow> quiet s t"
  "fb_deposit_event ev s = (Inr (), t) \<Longrightarrow> quiet s t"
  by (auto simp: sub_total_idle_space_def add_total_service_space_def cancel_task_def start_second_task_def
      add_file_to_bucket_def create_bucket_helper_def add_user_hold_fileslice_def fb_deposit_event_def run_inv quiet_def)

lemma bounded_Some: "bounded n xs = Some ys \<longleftrightarrow> length xs \<le> n \<and> ys = xs"
  by (auto simp: bounded_def)

lemma complete_deal_run:
  assumes "complete_deal T h d s = (Inr (), t)"
  shows "\<exists>infos v w. build_segments T (share_info d) (deal_segments d) [] (assigned_miner d) = Some infos
     \<and> quiet (s\<lparr>FileMap := (FileMap s)(h \<mapsto> \<lparr>file_segments = infos, owner = [deal_user d], file_size = deal_file_size d,
         completion = block_number s, stat = FsCalculate\<rparr>)\<rparr>) v
     \<and> unlock_and_used_user_space (brief_user (deal_user d)) (cal_file_size (len_as (deal_segments d))) v = (Inr (), w)
     \<and> quiet w t"
proof -
  let ?n = "cal_file_size (len_as (deal_segments d))" and ?u = "brief_user (deal_user d)" and ?b = "bucket_name (deal_user d)"
  let ?f = "\<lambda>infos. \<lparr>file_segments = infos, owner = [deal_user d], file_size = deal_file_size d,
         completion = block_number s, stat = FsCalculate\<rparr>"
  from assms obtain infos v w w1 w2 w3 w4 w5 w6 where
    g: "build_segments T (share_info d) (deal_segments d) [] (assigned_miner d) = Some infos" and
    v: "for_each add_pending (assigned_miner d) (s\<lparr>FileMap := (FileMap s)(h \<mapsto> ?f infos)\<rparr>) = (Inr (), v)" and
    w: "unlock_and_used_user_space ?u ?n v = (Inr (), w)" and
    ws: "sub_total_idle_space ?n w = (Inr (), w1)" "add_total_service_space ?n w1 = (Inr (), w2)"
      "cancel_task T (DealTask h) w2 = (Inr (), w3)"
      "start_second_task T (DealTask h) h (deal_life (max_task_count (assigned_miner d))) w3 = (Inr (), w4)"
      "(if contains_key (Bucket w4) (?u, ?b) then add_file_to_bucket T ?u ?b h else create_bucket_helper T ?u ?b (Some h)) w4 = (Inr (), w5)"
      "add_user_hold_fileslice T ?u h ?n w5 = (Inr (), w6)" "fb_deposit_event (StorageCompleted h) w6 = (Inr (), t)"
    unfolding complete_deal_def Let_def fb_generate_file_def andthen_Inr bnd_Inr ok_or_Inr gets_Inr modify_Inr
    by (auto simp: put_entry bounded_Some)
  have "quiet w4 w5" using ws(5) quiet_ops(5,6) by (auto split: if_splits)
  with quiet_ops(1) [OF ws(1)] quiet_ops(2) [OF ws(2)] quiet_ops(3) [OF ws(3)] quiet_ops(4) [OF ws(4)]
    quiet_ops(7) [OF ws(6)] quiet_ops(8) [OF ws(7)] have "quiet w t" by (meson quiet_trans)
  with g quiet_add_pending [OF v] w show ?thesis by blast
qed

text \<open>A report of an assigned miner that leaves as many reports as there are tasks.\<close>

definition reported :: "AccountId \<Rightarrow> DealInfo \<Rightarrow> DealInfo" where
  "reported m d = (if m \<in> set (complete_list d) then d else d\<lparr>complete_list := complete_list d @ [m]\<rparr>)"

definition last_report :: "AccountId \<Rightarrow> DealInfo \<Rightarrow> bool" where
  "last_report m d \<longleftrightarrow> m \<in> task_miner ` set (assigned_miner d)
     \<and> length (complete_list (reported m d)) = length (assigned_miner d)"

lemma reported_simps [simp]:
  "assigned_miner (reported m d) = assigned_miner d" "deal_segments (reported m d) = deal_segments d"
  "deal_user (reported m d) = deal_user d" "share_info (reported m d) = share_info d"
  "deal_file_size (reported m d) = deal_file_size d"
  by (simp_all add: reported_def)

lemma report_deal_completes:
  assumes "report_deal T m h fl s = (Inr fl', t)" and "DealMap s h = Some d" and "last_report m d"
  shows "\<exists>w. complete_deal T h ((reported m d)\<lparr>stage := 2\<rparr>) s = (Inr (), w)
     \<and> t = w\<lparr>DealMap := (DealMap w)(h \<mapsto> (reported m d)\<lparr>stage := 2\<rparr>)\<rparr>"
proof (cases "m \<in> set (complete_list d)")
  case True
  with assms show ?thesis
    by (simp add: report_deal_def last_report_def reported_def run_inv contains_key_def Let_def put_entry) metis
next
  case False
  with assms show ?thesis
    by (simp add: report_deal_def last_report_def reported_def run_inv contains_key_def Let_def put_entry try_push_Some) metis
qed

lemma report_completes:
  assumes "transfer_report T (SignedOrigin m) [h] s = (Inr (), t)" and "DealMap s h = Some d" and "last_report m d"
  shows "\<exists>w fl. complete_deal T h ((reported m d)\<lparr>stage := 2\<rparr>) s = (Inr (), w)
     \<and> t = fb_events_update (\<lambda>es. es @ [TransferReport m fl]) (w\<lparr>DealMap := (DealMap w)(h \<mapsto> (reported m d)\<lparr>stage := 2\<rparr>)\<rparr>)"
proof -
  from assms(1) obtain fl v where v: "report_deal T m h [] s = (Inr fl, v)" and t: "fb_deposit_event (TransferReport m fl) v = (Inr (), t)"
    by (auto simp: transfer_report_def run_inv)
  from report_deal_completes [OF v assms(2,3)] t show ?thesis by (auto simp: fb_deposit_event_def run_inv)
qed

text \<open>What the last report leaves: the user is charged, the file is there, the miners are as before.\<close>

lemma last_report_run:
  fixes s t :: "'s fb_state_scheme"
  assumes "transfer_report T (SignedOrigin m) [h] s = (Inr (), t)" and "DealMap s h = Some d" and "last_report m d"
  shows "\<exists>infos v w. build_segments T (share_info d) (deal_segments d) [] (assigned_miner d) = Some infos
     \<and> FileMap t h = Some \<lparr>file_segments = infos, owner = [deal_user d], file_size = deal_file_size d,
         completion = block_number s, stat = FsCalculate\<rparr>
     \<and> lease_of v = lease_of s
     \<and> unlock_and_used_user_space (brief_user (deal_user d)) (cal_file_size (len_as (deal_segments d))) (v :: 's fb_state_scheme) = (Inr (), w)
     \<and> lease_of t = lease_of w \<and> space_of t = space_of s \<and> DealMap t h = Some ((reported m d)\<lparr>stage := 2\<rparr>)"
proof -
  let ?d = "(reported m d)\<lparr>stage := 2\<rparr>"
  from report_completes [OF assms] obtain w' fl where c: "complete_deal T h ?d s = (Inr (), w')"
    and t: "t = fb_events_update (\<lambda>es. es @ [TransferReport m fl]) (w'\<lparr>DealMap := (DealMap w')(h \<mapsto> ?d)\<rparr>)" by blast
  let ?f = "\<lambda>infos. \<lparr>file_segments = infos, owner = [deal_user d], file_size = deal_file_size d,
         completion = block_number s, stat = FsCalculate\<rparr>"
  from complete_deal_run [OF c] obtain infos v w where
    r: "build_segments T (share_info d) (deal_segments d) [] (assigned_miner d) = Some infos"
      "quiet (s\<lparr>FileMap := (FileMap s)(h \<mapsto> ?f infos)\<rparr>) v"
      "unlock_and_used_user_space (brief_user (deal_user d)) (cal_file_size (len_as (deal_segments d))) v = (Inr (), w)"
      "quiet w w'" by auto
  from r(3) have used: "MinerItems w = MinerItems v" "FileMap w = FileMap v"
    by (auto simp: unlock_and_used_user_space_def run_inv put_entry)
  have "FileMap t h = Some (?f infos)" using r(2,4) used by (simp add: t quiet_def)
  moreover have "lease_of v = lease_of s" by (rule lease_of_frame) (use r(2) in \<open>simp add: quiet_def\<close>)
  moreover have "lease_of t = lease_of w" by (rule lease_of_frame) (use r(4) in \<open>simp add: t quiet_def\<close>)
  moreover have "space_of t = space_of s" by (rule space_of_frame) (use r(2,4) used in \<open>simp add: t quiet_def\<close>)
  moreover have "DealMap t h = Some ?d" by (simp add: t)
  ultimately show ?thesis using r(1,3) by blast
qed

text \<open>The end of the deal moves the locked space of its miners to their service space.\<close>

lemma size_task: "t \<in> set tasks \<Longrightarrow> length (task_fragments t) \<le> size (all_tasks tasks)"
  by (induction tasks) (auto simp: all_tasks_def)

lemma short_task:
  assumes "assignment s segments tasks" and "spec_ok T segments" and "FragmentCount T = 3" and "SegmentCount T < 2 ^ 30"
    and "t \<in> set tasks"
  shows "FRAGMENT_SIZE * ucast (len_as (task_fragments t) :: u32) = snd (task_space t)"
proof -
  have "length (concat (map seg_fragments segments)) = 3 * length segments" if "\<forall>seg \<in> set segments. length (seg_fragments seg) = 3"
    using that by (induction segments) auto
  then have "size (all_tasks tasks) = 3 * length segments"
    using assms(1) spec_ok_three [OF assms(2,3)] by (simp add: assignment_def)
  then have "length (task_fragments t) < 2 ^ 32"
    using size_task [OF assms(5)] assms(2,4) by (simp add: spec_ok_def)
  then have "ucast (len_as (task_fragments t) :: u32) = (len_as (task_fragments t) :: u128)"
    by (intro word_unat_eq_iff [THEN iffD2]) (simp add: unat_len_as)
  then show ?thesis by (simp add: task_space_def mult.commute)
qed

lemma for_each_cong: "(\<And>x. x \<in> set xs \<Longrightarrow> f x = g x) \<Longrightarrow> for_each f xs = for_each g xs"
  by (induction xs) simp_all

lemma calculate_end_run:
  assumes "calculate_end RootOrigin h s = (Inr (), t)" and "DealMap s h = Some d" and "FileMap s h = Some f"
    and "\<And>t. t \<in> set (assigned_miner d) \<Longrightarrow> FRAGMENT_SIZE * ucast (len_as (task_fragments t) :: u32) = snd (task_space t)"
  shows "\<exists>v. for_each (\<lambda>(a, n). unlock_space_to_service a n) (map task_space (assigned_miner d)) s = (Inr (), v)
     \<and> UserOwnedSpace t = UserOwnedSpace s \<and> MinerItems t = MinerItems v \<and> DealMap t h = None
     \<and> FileMap t h = Some (f\<lparr>stat := FsActive\<rparr>)"
proof -
  let ?u = "\<lambda>t. unlock_space_to_service (task_miner t) (FRAGMENT_SIZE * ucast (len_as (task_fragments t) :: u32))"
  have "for_each ?u (assigned_miner d) = for_each (\<lambda>(a, n). unlock_space_to_service a n) (map task_space (assigned_miner d))"
    by (simp add: for_each_map) (rule for_each_cong, simp add: assms(4), simp add: task_space_def)
  note eq = this
  from assms(1,2) obtain v v1 where v: "for_each (\<lambda>(a, n). unlock_space_to_service a n) (map task_space (assigned_miner d)) s = (Inr (), v)"
    and v1: "try_mutate_file h FB_BugInvalid (\<lambda>file. ret (file\<lparr>stat := FsActive\<rparr>)) v = (Inr (), v1)"
    and t: "fb_deposit_event (CalculateEnd h) (v1\<lparr>DealMap := (DealMap v1)(h := None)\<rparr>) = (Inr (), t)"
    unfolding calculate_end_def andthen_Inr transactional_Inr gets_some_Inr bnd_Inr modify_Inr put_entry
    by (auto simp: eq ensure_root_Inr)
  have "only_miners s v" by (rule only_miners_list [OF space_op_only_miners(3) v])
  then have "UserOwnedSpace v = UserOwnedSpace s" "FileMap v = FileMap s" by (auto simp: only_miners_def)
  with v v1 t assms(3) show ?thesis by (auto simp: run_inv fb_deposit_event_def)
qed

text \<open>
  C1: a deal that succeeds is booked exactly once. From the declaration over the last report to
  the end of the deal the declared space has moved from the user's remaining to the user's used
  space, the share of every chosen miner has moved from idle to service space, nothing stays
  locked, the deal is gone, and the file is active, owned by the user, and complete: each
  declared fragment is recorded, in order, with a miner that was given it. Other operations may
  run in between, as long as they leave these accounts, the deal and the file alone.
\<close>
theorem deal_stored_correct:
  fixes s t t1 t2 t3 v :: "'s fb_state_scheme"
  assumes declared: "upload_declaration T origin h segments brief size' s = (Inr (), t)" "FileMap s h = None" "distinct (AllMiner s)"
    and bounds: "spec_ok T segments" "FragmentCount T = 3" "SegmentCount T \<le> MissionCount T" "MissionCount T < 2 ^ 30"
    and between: "lease_of t1 = lease_of t" "space_of t1 = space_of t" "DealMap t h = Some d" "DealMap t1 h = Some (d\<lparr>complete_list := some\<rparr>)"
    and report: "last_report m (d\<lparr>complete_list := some\<rparr>)" "transfer_report T (SignedOrigin m) [h] t1 = (Inr (), t2)"
    and later: "lease_of t3 = lease_of t2" "space_of t3 = space_of t2" "DealMap t3 h = DealMap t2 h" "FileMap t3 h = FileMap t2 h"
    and ended: "calculate_end RootOrigin h t3 = (Inr (), v)"
  shows "(\<exists>u l r. let n = unat (cal_file_size (len_as segments)) in lease_of s (brief_user brief) = Some (u, l, n + r)
       \<and> lease_of v = (lease_of s)(brief_user brief \<mapsto> (u + n, l, r)))
     \<and> (\<forall>a u l r. let n = amount (map task_space (assigned_miner d)) a in space_of s a = Some (u, l, r) \<longrightarrow>
           n \<le> r \<and> space_of v a = Some (u + n, l, r - n))
     \<and> DealMap v h = None
     \<and> (\<exists>f. FileMap v h = Some f \<and> stat f = FsActive \<and> owner f = [brief] \<and> list_all2 (placed (assigned_miner d)) segments (file_segments f))"
proof -
  let ?n = "cal_file_size (len_as segments)" and ?u = "brief_user brief"
  from deal_declared [OF declared] between(3) obtain s1 s2 tasks where
    d: "lock_user_space ?u ?n s = (Inr (), s1)" "assignment s segments tasks" "space_of s1 = space_of s"
      "random_assign_miner T segments s1 = (Inr tasks, s2)" "AllMiner s1 = AllMiner s"
      "for_each (\<lambda>(a, n). lock_space a n) (map task_space tasks) s1 = (Inr (), s2)"
      "lease_of t = lease_of s1" "space_of t = space_of s2" and dd: "d = new_deal segments brief size' tasks"
    by auto
  have ds [simp]: "assigned_miner d = tasks" "deal_segments d = segments" "share_info d = []" "deal_user d = brief"
    by (simp_all add: dd new_deal_def)
  from last_report_run [OF report(2) between(4) report(1)] obtain infos x w where
    r: "build_segments T [] segments [] tasks = Some infos" "lease_of x = lease_of t1"
      "unlock_and_used_user_space ?u ?n (x :: 's fb_state_scheme) = (Inr (), w)" "lease_of t2 = lease_of w" "space_of t2 = space_of t1"
      and stored: "\<exists>f. FileMap t2 h = Some f \<and> owner f = [brief] \<and> file_segments f = infos"
      and deal: "\<exists>d'. DealMap t2 h = Some d' \<and> assigned_miner d' = tasks" by auto
  from stored deal later(3,4) obtain f d' where f: "FileMap t3 h = Some f" "owner f = [brief]" "file_segments f = infos"
    and d': "DealMap t3 h = Some d'" "assigned_miner d' = tasks" by auto
  have "SegmentCount T < 2 ^ 30" using bounds(3,4) by simp
  from calculate_end_run [OF ended d'(1) f(1)] short_task [OF d(2) bounds(1,2) this] d'(2) obtain y where
    e: "for_each (\<lambda>(a, n). unlock_space_to_service a n) (map task_space tasks) t3 = (Inr (), y)"
      "UserOwnedSpace v = UserOwnedSpace t3" "MinerItems v = MinerItems y" "DealMap v h = None" "FileMap v h = Some (f\<lparr>stat := FsActive\<rparr>)"
    by auto
  have "lease_of x = lease_of s1" using r(2) between(1) d(7) by simp
  from sh.deal_stored [OF d(1) this r(3)] obtain u l z where lease: "lease_of s ?u = Some (u, l, unat ?n + z)"
    "lease_of w = (lease_of s)(?u \<mapsto> (u + unat ?n, l, z))" by blast
  have "lease_of v = lease_of t3" by (rule lease_of_frame) (rule e(2))
  then have lease': "lease_of v = lease_of w" using later(1) r(4) by simp
  have "space_of t3 = space_of s2" using later(2) r(5) between(2) d(8) by simp
  note space = mc.locks_consumed [OF d(6) this e(1), unfolded d(3)]
  have space': "space_of v = space_of y" by (rule space_of_frame) (rule e(3))
  have "covers segments tasks"
    by (rule assigned_covers [OF d(4)]) (use declared(3) bounds in \<open>simp_all add: d(5)\<close>)
  from build_segments_complete [OF this _ bounds(2), of "[]"] spec_ok_three [OF bounds(1,2)] bounds(1) r(1)
  have "list_all2 (placed tasks) segments infos" by (auto simp: spec_ok_def)
  with lease lease' space space' e(4,5) f(2,3) show ?thesis by (auto simp: Let_def)
qed

text \<open>The deal of the example after the reports of the miners 12 and 11.\<close>

definition ex_two_reports :: fb_state where
  "ex_two_reports = ex_declared\<lparr>DealMap := [100 \<mapsto> ex_deal\<lparr>complete_list := [12, 11]\<rparr>]\<rparr>"

lemma ex_spec_ok: "spec_ok (fb_conf ()) ex_segments"
  by (simp add: spec_ok_def ex_segments_shape fb_conf_fields) (simp add: ex_segments_def)

lemma ex_built: "\<exists>infos. build_segments (fb_conf ()) [] ex_segments [] ex_tasks = Some infos"
proof -
  have "random_assign_miner (fb_conf ()) ex_segments ex_fb = (Inr ex_tasks, ex_fb\<lparr>MinerItems := [12 \<mapsto> ex_locked, 11 \<mapsto> ex_locked, 10 \<mapsto> ex_locked]\<rparr>)"
    by (rule ex_assign) (simp_all add: ex_fb_def ex_fb_fields)
  then have "covers ex_segments ex_tasks"
    by (rule assigned_covers) (simp_all add: ex_spec_ok fb_conf_fields ex_fb_def ex_fb_fields)
  from build_segments_complete [OF this, of "fb_conf ()" "[]"] show ?thesis
    by (auto simp: ex_segments_def fb_conf_fields)
qed

lemma ex_bucket_name: "check_bucket_name_spec [97, 98, 99]"
  by code_simp

lemma ex_last_report: "last_report 10 (ex_deal\<lparr>complete_list := [12, 11]\<rparr>)"
  by (simp add: last_report_def reported_def ex_deal_def ex_tasks_def)

lemmas report_eval = run_simps transfer_report_def report_deal_def ex_declared_def ex_fb_def ex_fb_fields contains_key_def Let_def
  try_push_def complete_deal_def fb_generate_file_def bounded_def fb_conf_fields add_pending_def unlock_and_used_user_space_def
  ex_lease_def cal_file_size_def ex_segments_shape size_defs checked_add_def checked_sub_def sub_total_idle_space_def
  add_total_service_space_def cancel_task_def ref_cancel_def ref_schedule_def start_second_task_def schedule_task_def
  create_bucket_helper_def add_file_to_bucket_def add_user_hold_fileslice_def fb_deposit_event_def len_as_def get_or_def
  calculate_end_def unlock_space_to_service_def deal_life_def max_task_count_def CALCULATE_RATE_def TRANSFER_RATE_def ex_bucket_name

lemma ex_report_end: "\<exists>t v. transfer_report (fb_conf ()) (SignedOrigin 10) [100] ex_two_reports = (Inr (), t)
    \<and> calculate_end RootOrigin 100 t = (Inr (), v)"
proof -
  obtain infos where "build_segments (fb_conf ()) [] ex_segments [] ex_tasks = Some infos" using ex_built by blast
  then show ?thesis
    by (simp add: report_eval ex_two_reports_def ex_deal_def ex_brief_def ex_tasks_def ex_locked_def ex_miner_def put_entry)
qed

theorem deal_stored_correct_witness:
  "\<exists>t v. transfer_report (fb_conf ()) (SignedOrigin 10) [100] ex_two_reports = (Inr (), t)
     \<and> calculate_end RootOrigin 100 t = (Inr (), v)
     \<and> lease_of v 20 = Some (24 * 1048576, 0, 2 * 1073741824 - 24 * 1048576) \<and> space_of v 11 = Some (8 * 1048576, 0, 3 * 1073741824 - 8 * 1048576)
     \<and> (\<exists>f. FileMap v 100 = Some f \<and> stat f = FsActive)"
proof -
  obtain t v where t: "transfer_report (fb_conf ()) (SignedOrigin 10) [100] ex_two_reports = (Inr (), t)"
    and v: "calculate_end RootOrigin 100 t = (Inr (), v)" using ex_report_end by blast
  have new: "FileMap ex_fb 100 = None" "distinct (AllMiner ex_fb)" by (simp_all add: ex_fb_def ex_fb_fields)
  have bounds: "FragmentCount (fb_conf ()) = 3" "SegmentCount (fb_conf ()) \<le> MissionCount (fb_conf ())" "MissionCount (fb_conf ()) < 2 ^ 30"
    by (simp_all add: fb_conf_fields)
  have between: "lease_of ex_two_reports = lease_of ex_declared" "space_of ex_two_reports = space_of ex_declared"
    by (rule lease_of_frame space_of_frame, simp add: ex_two_reports_def)+
  have deal: "DealMap ex_declared 100 = Some ex_deal" "DealMap ex_two_reports 100 = Some (ex_deal\<lparr>complete_list := [12, 11]\<rparr>)"
    by (simp_all add: ex_two_reports_def ex_declared_def)
  have vals: "lease_of ex_fb 20 = Some (0, 0, 2 * 1073741824)" "space_of ex_fb 11 = Some (0, 0, 3 * 1073741824)"
    "amount (map task_space (assigned_miner ex_deal)) 11 = 8 * 1048576" "unat (cal_file_size (len_as ex_segments)) = 24 * 1048576"
    "brief_user ex_brief = 20"
    by (simp_all add: lease_of_def space_of_def ex_fb_def ex_fb_fields ex_lease_def ex_miner_def size_defs ex_deal_def ex_tasks_def
        task_space_def len_as_def cal_file_size_def ex_segments_def ex_brief_def)
  from deal_stored_correct [OF ex_upload new ex_spec_ok bounds between deal ex_last_report t refl refl refl refl v]
  show ?thesis
    using t v by (auto simp: Let_def vals)
qed

text \<open>
  C34: a report can be repeated. Once the last report has been booked and as long as the deal is
  still there, any miner of the deal can report again; if that report is accepted, the user is
  charged for the same file a second time, out of space that was locked for other deals.
\<close>
theorem report_replayed:
  fixes s t t' v :: "'s fb_state_scheme"
  assumes "transfer_report T (SignedOrigin m) [h] s = (Inr (), t)" and "DealMap s h = Some d" and "last_report m d"
    and "lease_of t' = lease_of t" and "DealMap t' h = DealMap t h"
    and "m' \<in> set (complete_list (reported m d))" and "m' \<in> task_miner ` set (assigned_miner d)"
    and "transfer_report T (SignedOrigin m') [h] t' = (Inr (), v)"
  shows "\<exists>u l r. let n = unat (cal_file_size (len_as (deal_segments d))) in
     lease_of s (brief_user (deal_user d)) = Some (u, l + 2 * n, r) \<and> lease_of v (brief_user (deal_user d)) = Some (u + 2 * n, l, r)"
proof -
  let ?n = "cal_file_size (len_as (deal_segments d))" and ?u = "brief_user (deal_user d)"
  from last_report_run [OF assms(1-3)] obtain x w where
    1: "lease_of x = lease_of s" "unlock_and_used_user_space ?u ?n (x :: 's fb_state_scheme) = (Inr (), w)" "lease_of t = lease_of w"
      "DealMap t h = Some ((reported m d)\<lparr>stage := 2\<rparr>)" by blast
  have "last_report m' ((reported m d)\<lparr>stage := 2\<rparr>)" using assms(3,6,7) by (simp add: last_report_def reported_def)
  from last_report_run [OF assms(8) _ this] 1(4) assms(5) obtain x' w' where
    2: "lease_of x' = lease_of t'" "unlock_and_used_user_space ?u ?n (x' :: 's fb_state_scheme) = (Inr (), w')" "lease_of v = lease_of w'"
    by auto
  from sh.consume_moves [OF 1(2)] sh.consume_moves [OF 2(2)] 1(1,3) 2(1,3) assms(4) show ?thesis
    by (auto simp: Let_def ac_simps) 
qed

definition ex_busy :: fb_state where
  "ex_busy = ex_two_reports\<lparr>UserOwnedSpace := [20 \<mapsto> ex_lease\<lparr>locked_space := 48 * M_BYTE, remaining_space := 2 * G_BYTE - 48 * M_BYTE\<rparr>]\<rparr>"

lemma ex_two_last_reports: "\<exists>t v. transfer_report (fb_conf ()) (SignedOrigin 10) [100] ex_busy = (Inr (), t)
    \<and> transfer_report (fb_conf ()) (SignedOrigin 12) [100] t = (Inr (), v)"
proof -
  obtain infos where "build_segments (fb_conf ()) [] ex_segments [] ex_tasks = Some infos" using ex_built by blast
  then show ?thesis
    by (simp add: report_eval ex_busy_def ex_two_reports_def ex_deal_def ex_brief_def ex_tasks_def ex_locked_def ex_miner_def put_entry)
qed

theorem report_replayed_witness:
  "\<exists>t v. transfer_report (fb_conf ()) (SignedOrigin 10) [100] ex_busy = (Inr (), t)
     \<and> transfer_report (fb_conf ()) (SignedOrigin 12) [100] t = (Inr (), v)
     \<and> lease_of ex_busy 20 = Some (0, 48 * 1048576, 2 * 1073741824 - 48 * 1048576)
     \<and> lease_of v 20 = Some (48 * 1048576, 0, 2 * 1073741824 - 48 * 1048576)"
proof -
  let ?d = "ex_deal\<lparr>complete_list := [12, 11]\<rparr>"
  obtain t v where t: "transfer_report (fb_conf ()) (SignedOrigin 10) [100] ex_busy = (Inr (), t)"
    and v: "transfer_report (fb_conf ()) (SignedOrigin 12) [100] t = (Inr (), v)" using ex_two_last_reports by blast
  have d: "DealMap ex_busy 100 = Some ?d" by (simp add: ex_busy_def ex_two_reports_def)
  have m: "12 \<in> set (complete_list (reported 10 ?d))" "12 \<in> task_miner ` set (assigned_miner ?d)"
    by (simp_all add: reported_def ex_deal_def ex_tasks_def)
  have vals: "lease_of ex_busy 20 = Some (0, 48 * 1048576, 2 * 1073741824 - 48 * 1048576)"
    "unat (cal_file_size (len_as (deal_segments ?d))) = 24 * 1048576" "brief_user (deal_user ?d) = 20"
    by (simp_all add: lease_of_def ex_busy_def ex_lease_def size_defs ex_deal_def len_as_def cal_file_size_def ex_segments_def ex_brief_def)
  from report_replayed [OF t d ex_last_report refl refl m v, unfolded Let_def vals] t v vals(1) show ?thesis by simp
qed

end
