(* ===== verification/File_Bank_Repair.thy ===== *)
theory File_Bank_Repair
  imports File_Bank_Storage
begin

text \<open>
  What happens to stored files later on: restoral orders that move a fragment to another miner,
  the deletion of files, and the cleaning up after leases that are dead.
\<close>

section \<open>Restoral orders\<close>

lemma update_fragment_Some:
  "update_fragment h m f fs = Some fs' \<Longrightarrow>
     \<exists>i < length fs. frag_hash (fs ! i) = h \<and> frag_miner (fs ! i) = m \<and> fs' = fs[i := f (fs ! i)]"
proof (induction fs arbitrary: fs')
  case (Cons x fs)
  show ?case
  proof (cases "frag_hash x = h \<and> frag_miner x = m")
    case True
    with Cons.prems show ?thesis by (intro exI [of _ 0]) auto
  next
    case False
    with Cons.prems obtain rest where "update_fragment h m f fs = Some rest" "fs' = x # rest" by auto
    with Cons.IH [OF this(1)] show ?thesis by auto
  qed
qed simp

lemma update_segments_Some:
  assumes "update_segments h m f segs = Some segs'"
  shows "\<exists>i < length (concat (map si_fragments segs)). let fs = concat (map si_fragments segs) in
     frag_hash (fs ! i) = h \<and> frag_miner (fs ! i) = m \<and> concat (map si_fragments segs') = fs[i := f (fs ! i)]"
  using assms
proof (induction segs arbitrary: segs')
  case (Cons seg segs)
  show ?case
  proof (cases "update_fragment h m f (si_fragments seg)")
    case (Some fs)
    from update_fragment_Some [OF this] obtain i where "i < length (si_fragments seg)" "frag_hash (si_fragments seg ! i) = h"
      "frag_miner (si_fragments seg ! i) = m" "fs = (si_fragments seg)[i := f (si_fragments seg ! i)]" by blast
    with Some Cons.prems show ?thesis
      by (intro exI [of _ i]) (auto simp: Let_def nth_append list_update_append)
  next
    case None
    with Cons.prems obtain rest where "update_segments h m f segs = Some rest" "segs' = seg # rest" by auto
    with Cons.IH [OF this(1)] obtain i where "i < length (concat (map si_fragments segs))"
      "frag_hash (concat (map si_fragments segs) ! i) = h" "frag_miner (concat (map si_fragments segs) ! i) = m"
      "concat (map si_fragments segs') = si_fragments seg @ (concat (map si_fragments segs))[i := f (concat (map si_fragments segs) ! i)]"
      by (auto simp: Let_def)
    then show ?thesis
      by (intro exI [of _ "length (si_fragments seg) + i"]) (auto simp: Let_def nth_append list_update_append)
  qed
qed simp

text \<open>The service space of a miner that has not left.\<close>

definition serving :: "'s sm_state_scheme \<Rightarrow> AccountId \<Rightarrow> nat option" where
  "serving s a = (case MinerItems s a of
      Some m \<Rightarrow> if miner_state m = STATE_EXIT then None else Some (unat (service_space m))
    | None \<Rightarrow> None)"

lemma serving_frame: "MinerItems t = MinerItems s \<Longrightarrow> serving t = serving s"
  by (simp add: serving_def fun_eq_iff)

lemma sub_service_run:
  assumes "sub_miner_service_space a n s = (Inr (), t)"
  shows "only_miners s t \<and> (\<forall>v. serving s a = Some v \<longrightarrow> unat n \<le> v)
    \<and> serving t = (case serving s a of None \<Rightarrow> serving s | Some v \<Rightarrow> (serving s)(a \<mapsto> v - unat n))"
  using assms
  by (auto simp: sub_miner_service_space_def check_state_def contains_key_def run_inv serving_def arith_wp fun_eq_iff
      intro!: only_miners_put only_miners_refl split: if_splits option.splits)

lemma add_service_run:
  assumes "add_miner_service_space a n s = (Inr (), t)"
  shows "only_miners s t \<and> serving t = (case serving s a of None \<Rightarrow> serving s | Some v \<Rightarrow> (serving s)(a \<mapsto> v + unat n))"
  using assms
  by (auto simp: add_miner_service_space_def check_state_def contains_key_def run_inv serving_def arith_wp fun_eq_iff
      intro!: only_miners_put only_miners_refl split: if_splits option.splits)

lemma update_fragment_None: "update_fragment h m f fs = None \<longleftrightarrow> (\<forall>x \<in> set fs. \<not> (frag_hash x = h \<and> frag_miner x = m))"
  by (induction fs) auto

lemma update_segments_None:
  "update_segments h m f segs = None \<longleftrightarrow> (\<forall>x \<in> set (concat (map si_fragments segs)). \<not> (frag_hash x = h \<and> frag_miner x = m))"
proof (induction segs)
  case (Cons seg segs)
  note here = update_fragment_None [of h m f "si_fragments seg"]
  show ?case
  proof (cases "update_fragment h m f (si_fragments seg)")
    case None
    then show ?thesis using Cons here by simp blast
  next
    case (Some x)
    then show ?thesis using here by auto
  qed
qed simp

text \<open>The change of the file when an order is completed.\<close>

definition restored_at :: "Hash \<Rightarrow> AccountId \<Rightarrow> AccountId \<Rightarrow> FileInfo \<Rightarrow> FileInfo \<Rightarrow> bool" where
  "restored_at h src dst file file' \<longleftrightarrow> (\<exists>i < length (all_fragments file). let fs = all_fragments file in
     frag_hash (fs ! i) = h \<and> frag_miner (fs ! i) = src
   \<and> all_fragments file' = fs[i := \<lparr>frag_hash = h, frag_avail = True, frag_miner = dst\<rparr>]
   \<and> file' = file\<lparr>file_segments := file_segments file'\<rparr>)"

lemma restored_at_update:
  assumes "update_segments h m (\<lambda>f. f\<lparr>frag_avail := True, frag_miner := a\<rparr>) (file_segments file) = Some segs"
  shows "restored_at h m a file (file\<lparr>file_segments := segs\<rparr>)"
proof -
  from update_segments_Some [OF assms] obtain i where i: "i < length (all_fragments file)" "frag_hash (all_fragments file ! i) = h"
    "frag_miner (all_fragments file ! i) = m"
    "concat (map si_fragments segs) = (all_fragments file)[i := (all_fragments file ! i)\<lparr>frag_avail := True, frag_miner := a\<rparr>]"
    by (auto simp: Let_def all_fragments_def)
  moreover have "(all_fragments file ! i)\<lparr>frag_avail := True, frag_miner := a\<rparr> = \<lparr>frag_hash = h, frag_avail = True, frag_miner = a\<rparr>"
    by (cases "all_fragments file ! i") (use i(2) in simp)
  ultimately show ?thesis
    unfolding restored_at_def by (intro exI [of _ i]) (simp add: Let_def all_fragments_def [of "file_segments_update _ _"])
qed

lemma update_restoral_target_frame:
  "update_restoral_target m n s = (Inr (), t) \<Longrightarrow> \<exists>r. t = s\<lparr>RestoralTarget := r\<rparr>"
  by (auto simp: update_restoral_target_def run_inv put_entry)

text \<open>The whole effect of a completed order, in terms of the operations it calls.\<close>

lemma restoral_run:
  assumes "restoral_order_complete (SignedOrigin a) h s = (Inr (), t)" and "MinerItems s a = Some m" and "miner_state m = STATE_POSITIVE"
    and "RestoralOrder s h = Some order" and "order_miner order = a" and "block_number s < order_deadline order"
  shows "RestoralOrder t = (RestoralOrder s)(h := None) \<and> (\<forall>fi segs. FileMap s (order_file order) = Some fi
      \<and> update_segments h (origin_miner order) (\<lambda>f. f\<lparr>frag_avail := True, frag_miner := a\<rparr>) (file_segments fi) = Some segs \<longrightarrow>
      FileMap t = (FileMap s)((order_file order) \<mapsto> fi\<lparr>file_segments := segs\<rparr>)
      \<and> (\<exists>w1 w2. sub_miner_service_space (origin_miner order) FRAGMENT_SIZE s = (Inr (), w1) \<and> add_miner_service_space a FRAGMENT_SIZE w1 = (Inr (), w2)
           \<and> MinerItems t = MinerItems w2))"
proof (cases "FileMap s (order_file order)")
  case None
  with assms show ?thesis
    by (auto simp: restoral_order_complete_def is_positive_def get_miner_state_def run_inv contains_key_def)
next
  case (Some fi)
  show ?thesis
  proof (cases "update_segments h (origin_miner order) (\<lambda>f. f\<lparr>frag_avail := True, frag_miner := a\<rparr>) (file_segments fi)")
    case None
    with Some assms show ?thesis
      by (auto simp: restoral_order_complete_def is_positive_def get_miner_state_def run_inv contains_key_def fb_deposit_event_def)
  next
    case segs: (Some segs)
    from Some segs assms obtain w1 w2 w3 where
      w: "sub_miner_service_space (origin_miner order) FRAGMENT_SIZE s = (Inr (), w1)" "add_miner_service_space a FRAGMENT_SIZE w1 = (Inr (), w2)"
        "w3 = w2 \<or> update_restoral_target (origin_miner order) FRAGMENT_SIZE w2 = (Inr (), w3)" and
      t: "fb_deposit_event (RecoveryCompleted a h) (RestoralOrder_update (\<lambda>m. m(h := None))
            (FileMap_update (\<lambda>m. m((order_file order) \<mapsto> fi\<lparr>file_segments := segs\<rparr>)) w3)) = (Inr (), t)"
      by (auto simp: restoral_order_complete_def is_positive_def get_miner_state_def run_inv contains_key_def split: if_splits)
    have "only_miners s w2" using sub_service_run [OF w(1)] add_service_run [OF w(2)] only_miners_trans by blast
    then have "FileMap w2 = FileMap s" "RestoralOrder w2 = RestoralOrder s" by (auto simp: only_miners_def)
    moreover have "FileMap w3 = FileMap w2" "RestoralOrder w3 = RestoralOrder w2" "MinerItems w3 = MinerItems w2"
      using w(3) by (auto dest!: update_restoral_target_frame)
    ultimately show ?thesis using w t Some segs by (auto simp: fb_deposit_event_def run_inv)
  qed
qed


text \<open>Miner 11 has claimed the fragment 101 of the file 100, which miner 10 has lost.\<close>

definition ex_lost :: FileInfo where
  "ex_lost = \<lparr>file_segments = [\<lparr>si_hash = 100, si_fragments = [\<lparr>frag_hash = 101, frag_avail = False, frag_miner = 10\<rparr>]\<rparr>],
     owner = [ex_brief], file_size = 5, completion = 7000, stat = FsActive\<rparr>"

definition ex_claimed :: fb_state where
  "ex_claimed = ex_fb\<lparr>FileMap := [100 \<mapsto> ex_lost],
     MinerItems := [10 \<mapsto> ex_miner\<lparr>service_space := FRAGMENT_SIZE\<rparr>, 11 \<mapsto> ex_miner],
     RestoralOrder := [101 \<mapsto> \<lparr>order_count = 1, order_miner = 11, origin_miner = 10, fragment_hash = 101, order_file = 100,
       gen_block = 7100, order_deadline = 7300\<rparr>]\<rparr>"

lemma ex_restored: "\<exists>t. restoral_order_complete (SignedOrigin 11) 101 ex_claimed = (Inr (), t)"
  by (simp add: restoral_order_complete_def run_simps ex_claimed_def ex_fb_def ex_fb_fields is_positive_def get_miner_state_def ex_miner_def
      contains_key_def ex_lost_def sub_miner_service_space_def add_miner_service_space_def check_state_def checked_sub_def checked_add_def
      size_defs fb_deposit_event_def)


section \<open>Deleting a file\<close>

lemma remove_first_owner_app:
  "brief_user b = a \<Longrightarrow> remove_first_owner a (filter (\<lambda>b. brief_user b \<noteq> a) xs @ b # ys) = Some (filter (\<lambda>b. brief_user b \<noteq> a) xs @ ys)"
  by (induction xs) auto

text \<open>The used space of a user's lease; releasing space changes nothing else of the state.\<close>

definition used_by :: "'s sh_state_scheme \<Rightarrow> AccountId \<Rightarrow> nat option" where
  "used_by s a = map_option (\<lambda>d. unat (used_space d)) (UserOwnedSpace s a)"

lemma used_by_frame: "UserOwnedSpace t = UserOwnedSpace s \<Longrightarrow> used_by t = used_by s"
  by (simp add: used_by_def fun_eq_iff)

lemma release_run:
  "update_user_space a 2 n s = (Inr (), t) \<Longrightarrow>
     \<exists>f u. t = s\<lparr>UserOwnedSpace := f\<rparr> \<and> used_by s a = Some (unat n + u) \<and> used_by t = (used_by s)(a \<mapsto> u)"
  by (auto simp: update_user_space_def run_inv put_entry arith_wp used_by_def fun_eq_iff)

lemma remove_file_owner_run:
  assumes "remove_file_owner h a True s = (Inr (), t)" and "FileMap s h = Some fi" and "remove_first_owner a (owner fi) = Some owners"
  shows "\<exists>f u. let n = unat (cal_file_size (len_as (file_segments fi))) in used_by s a = Some (n + u) \<and> used_by t = (used_by s)(a \<mapsto> u)
     \<and> t = s\<lparr>UserOwnedSpace := f, FileMap := (FileMap s)(h \<mapsto> fi\<lparr>owner := owners\<rparr>)\<rparr>"
proof -
  from assms obtain v where v: "update_user_space a 2 (cal_file_size (len_as (file_segments fi))) s = (Inr (), v)"
    and t: "t = v\<lparr>FileMap := (FileMap v)(h \<mapsto> fi\<lparr>owner := owners\<rparr>)\<rparr>"
    by (auto simp: remove_file_owner_def run_inv put_entry)
  from release_run [OF v] obtain f u where r: "v = s\<lparr>UserOwnedSpace := f\<rparr>" "used_by s a = Some (unat (cal_file_size (len_as (file_segments fi))) + u)"
    "used_by v = (used_by s)(a \<mapsto> u)" by blast
  have "used_by t = used_by v" by (rule used_by_frame) (simp add: t)
  with r t show ?thesis by (auto simp: Let_def)
qed

lemma remove_owners_run:
  assumes "for_each (\<lambda>b. if brief_user b = a then remove_file_owner h a True else ret ()) ys s = (Inr (), t)"
    and "FileMap s h = Some (fi\<lparr>owner := filter (\<lambda>b. brief_user b \<noteq> a) xs @ ys\<rparr>)"
  shows "\<exists>f. t = s\<lparr>UserOwnedSpace := f, FileMap := (FileMap s)(h \<mapsto> fi\<lparr>owner := filter (\<lambda>b. brief_user b \<noteq> a) (xs @ ys)\<rparr>)\<rparr>
     \<and> (let n = length (filter (\<lambda>b. brief_user b = a) ys) * unat (cal_file_size (len_as (file_segments fi))) in
        if n = 0 then used_by t = used_by s else \<exists>u. used_by s a = Some (n + u) \<and> used_by t = (used_by s)(a \<mapsto> u))"
  using assms
proof (induction ys arbitrary: s xs)
  case Nil
  then show ?case by (auto simp: run_inv fun_upd_idem intro!: exI [of _ "UserOwnedSpace s"])
next
  case (Cons b ys)
  let ?n = "unat (cal_file_size (len_as (file_segments fi)))"
  show ?case
  proof (cases "brief_user b = a")
    case False
    with Cons.prems have "for_each (\<lambda>b. if brief_user b = a then remove_file_owner h a True else ret ()) ys s = (Inr (), t)"
      "FileMap s h = Some (fi\<lparr>owner := filter (\<lambda>b. brief_user b \<noteq> a) (xs @ [b]) @ ys\<rparr>)" by (auto simp: run_inv)
    from Cons.IH [OF this] False show ?thesis by simp
  next
    case True
    with Cons.prems(1) obtain v where v: "remove_file_owner h a True s = (Inr (), v)"
      "for_each (\<lambda>b. if brief_user b = a then remove_file_owner h a True else ret ()) ys v = (Inr (), t)" by (auto simp: run_inv)
    have rem: "remove_first_owner a (owner (fi\<lparr>owner := filter (\<lambda>b. brief_user b \<noteq> a) xs @ b # ys\<rparr>)) = Some (filter (\<lambda>b. brief_user b \<noteq> a) xs @ ys)"
      using True by (simp add: remove_first_owner_app)
    from remove_file_owner_run [OF v(1) Cons.prems(2) rem] obtain f u where r: "used_by s a = Some (?n + u)" "used_by v = (used_by s)(a \<mapsto> u)"
      "v = s\<lparr>UserOwnedSpace := f, FileMap := (FileMap s)(h \<mapsto> fi\<lparr>owner := filter (\<lambda>b. brief_user b \<noteq> a) xs @ ys\<rparr>)\<rparr>"
      by (auto simp: Let_def)
    then have "FileMap v h = Some (fi\<lparr>owner := filter (\<lambda>b. brief_user b \<noteq> a) xs @ ys\<rparr>)" by simp
    from Cons.IH [OF v(2) this] obtain g where g: "t = v\<lparr>UserOwnedSpace := g, FileMap := (FileMap v)(h \<mapsto> fi\<lparr>owner := filter (\<lambda>b. brief_user b \<noteq> a) (xs @ ys)\<rparr>)\<rparr>"
     "let n = length (filter (\<lambda>b. brief_user b = a) ys) * ?n in
        if n = 0 then used_by t = used_by v else \<exists>u. used_by v a = Some (n + u) \<and> used_by t = (used_by v)(a \<mapsto> u)" by blast
    from g(1) r(3) True have "t = s\<lparr>UserOwnedSpace := g, FileMap := (FileMap s)(h \<mapsto> fi\<lparr>owner := filter (\<lambda>b. brief_user b \<noteq> a) (xs @ b # ys)\<rparr>)\<rparr>"
      by simp
    moreover have "let n = length (filter (\<lambda>b. brief_user b = a) (b # ys)) * ?n in
        if n = 0 then used_by t = used_by s else \<exists>u. used_by s a = Some (n + u) \<and> used_by t = (used_by s)(a \<mapsto> u)"
      using g(2) r(1,2) True by (auto simp: Let_def split: if_splits)
    ultimately show ?thesis by blast
  qed
qed

lemma release_miners_run:
  "for_each (\<lambda>(m, c). bnd (gets (\<lambda>s. contains_key (RestoralTarget s) m)) (\<lambda>leaving.
       if leaving then update_restoral_target m (FRAGMENT_SIZE * ucast c) else sub_miner_service_space m (FRAGMENT_SIZE * ucast c))) xs s
     = (Inr (), t) \<Longrightarrow> UserOwnedSpace t = UserOwnedSpace s \<and> FileMap t = FileMap s"
proof (induction xs arbitrary: s)
  case (Cons x xs)
  obtain m c where x: "x = (m, c)" by (cases x)
  from Cons.prems obtain v where v: "update_restoral_target m (FRAGMENT_SIZE * ucast c) s = (Inr (), v) \<or> only_miners s v"
    and rest: "UserOwnedSpace t = UserOwnedSpace v \<and> FileMap t = FileMap v"
    using Cons.IH sub_service_run by (fastforce simp: x run_inv split: if_splits)
  from v have "UserOwnedSpace v = UserOwnedSpace s \<and> FileMap v = FileMap s"
    by (auto simp: only_miners_def dest!: update_restoral_target_frame)
  with rest show ?case by simp
qed (simp add: run_inv)

lemma remove_last_run:
  assumes "remove_file_last_owner h a True s = (Inr (), t)" and "FileMap s h = Some fi"
  shows "FileMap t = (FileMap s)(h := None) \<and> (\<exists>u. used_by s a = Some (unat (total_fragment_dec fi * FRAGMENT_SIZE) + u)
     \<and> used_by t = (used_by s)(a \<mapsto> u))"
proof -
  from assms obtain v w x where v: "UserOwnedSpace v = UserOwnedSpace s \<and> FileMap v = FileMap s"
    and w: "update_user_space a 2 (total_fragment_dec fi * FRAGMENT_SIZE) v = (Inr (), w)"
    and x: "sub_total_service_space (total_fragment_dec fi * FRAGMENT_SIZE) w = (Inr (), x)" and t: "t = FileMap_update (\<lambda>m. m(h := None)) x"
    unfolding remove_file_last_owner_def bnd_Inr gets_some_Inr andthen_Inr modify_Inr
    by (auto simp: act_when_Inr dest!: release_miners_run)
  from x have x': "UserOwnedSpace x = UserOwnedSpace w" "FileMap x = FileMap w" by (auto simp: sub_total_service_space_def run_inv)
  from release_run [OF w] obtain f u where r: "w = v\<lparr>UserOwnedSpace := f\<rparr>" "used_by v a = Some (unat (total_fragment_dec fi * FRAGMENT_SIZE) + u)"
    "used_by w = (used_by v)(a \<mapsto> u)" by blast
  have "used_by v = used_by s" by (rule used_by_frame) (use v in simp)
  moreover have "used_by t = used_by w" by (rule used_by_frame) (simp add: t x')
  ultimately show ?thesis using r v x' by (auto simp: t)
qed

text \<open>
  C10: deleting a file takes the user out of its owners. A file that is still being computed is
  never deleted. Every entry of the user in the list of owners goes, the others stay in order,
  and for each entry the size of the file is released from the user's used space. The file
  itself is removed only when the user is the one entry of the list; a file with several entries
  that all belong to the user stays, without any owner.
\<close>
theorem delete_user_file_correct:
  assumes "delete_user_file h a fi s = (Inr (), t)" and "FileMap s h = Some fi"
  shows "stat fi \<noteq> FsCalculate
   \<and> (length (owner fi) > 1 \<longrightarrow>
        FileMap t = (FileMap s)(h \<mapsto> fi\<lparr>owner := filter (\<lambda>b. brief_user b \<noteq> a) (owner fi)\<rparr>)
      \<and> (let n = length (filter (\<lambda>b. brief_user b = a) (owner fi)) * unat (cal_file_size (len_as (file_segments fi))) in
         if n = 0 then used_by t = used_by s else \<exists>u. used_by s a = Some (n + u) \<and> used_by t = (used_by s)(a \<mapsto> u)))
   \<and> (\<forall>b. owner fi = [b] \<and> brief_user b = a \<longrightarrow> FileMap t = (FileMap s)(h := None)
      \<and> (\<exists>u. used_by s a = Some (unat (total_fragment_dec fi * FRAGMENT_SIZE) + u) \<and> used_by t = (used_by s)(a \<mapsto> u)))
   \<and> ((\<forall>b \<in> set (owner fi). brief_user b \<noteq> a) \<longrightarrow> t = s)"
proof -
  have no: "t = s" if "for_each (\<lambda>b. if brief_user b = a then f else ret ()) ys s = (Inr (), t)" "\<forall>b \<in> set ys. brief_user b \<noteq> a" for f ys
    using that by (induction ys) (auto simp: run_inv)
  let ?rm = "if length (owner fi) > 1 then remove_file_owner h a True else remove_file_last_owner h a True"
  from assms(1) have d: "stat fi \<noteq> FsCalculate" "for_each (\<lambda>b. if brief_user b = a then ?rm else ret ()) (owner fi) s = (Inr (), t)"
    by (auto simp: delete_user_file_def run_inv)
  have many: "FileMap t = (FileMap s)(h \<mapsto> fi\<lparr>owner := filter (\<lambda>b. brief_user b \<noteq> a) (owner fi)\<rparr>)
      \<and> (let n = length (filter (\<lambda>b. brief_user b = a) (owner fi)) * unat (cal_file_size (len_as (file_segments fi))) in
         if n = 0 then used_by t = used_by s else \<exists>u. used_by s a = Some (n + u) \<and> used_by t = (used_by s)(a \<mapsto> u))"
    if "length (owner fi) > 1"
  proof -
    have run: "for_each (\<lambda>b. if brief_user b = a then remove_file_owner h a True else ret ()) (owner fi) s = (Inr (), t)"
      using d(2) unfolding if_P [OF that] .
    have "FileMap s h = Some (fi\<lparr>owner := filter (\<lambda>b. brief_user b \<noteq> a) [] @ owner fi\<rparr>)" by (simp add: assms(2))
    from remove_owners_run [OF run this] show ?thesis by auto
  qed
  have one: "FileMap t = (FileMap s)(h := None)
      \<and> (\<exists>u. used_by s a = Some (unat (total_fragment_dec fi * FRAGMENT_SIZE) + u) \<and> used_by t = (used_by s)(a \<mapsto> u))"
    if "owner fi = [b]" "brief_user b = a" for b
    by (rule remove_last_run [OF _ assms(2)]) (use d(2) that in \<open>auto simp: run_inv\<close>)
  show ?thesis using d(1) many one no [OF d(2)] by blast
qed

text \<open>A file that user 20 has declared twice.\<close>

definition ex_twice :: FileInfo where
  "ex_twice = ex_lost\<lparr>owner := [ex_brief, ex_brief\<lparr>file_name := [97]\<rparr>]\<rparr>"

definition ex_owned :: fb_state where
  "ex_owned = ex_fb\<lparr>FileMap := [100 \<mapsto> ex_twice],
     UserOwnedSpace := [20 \<mapsto> ex_lease\<lparr>used_space := 48 * M_BYTE, remaining_space := 2 * G_BYTE - 48 * M_BYTE\<rparr>]\<rparr>"

lemma ex_deleted: "\<exists>t. delete_user_file 100 20 ex_twice ex_owned = (Inr (), t)"
  by (simp add: delete_user_file_def run_simps ex_twice_def ex_owned_def ex_lost_def ex_brief_def remove_file_owner_def
      update_user_space_def ex_fb_def ex_fb_fields ex_lease_def cal_file_size_def len_as_def size_defs checked_sub_def)

theorem delete_user_file_correct_witness:
  "\<exists>t. delete_user_file 100 20 ex_twice ex_owned = (Inr (), t) \<and> FileMap t = [100 \<mapsto> ex_twice\<lparr>owner := []\<rparr>]
     \<and> used_by ex_owned 20 = Some (48 * 1048576) \<and> used_by t 20 = Some 0"
proof -
  obtain t where t: "delete_user_file 100 20 ex_twice ex_owned = (Inr (), t)" using ex_deleted by blast
  have state: "FileMap ex_owned = [100 \<mapsto> ex_twice]" "used_by ex_owned 20 = Some (48 * 1048576)" by (simp_all add: ex_owned_def used_by_def size_defs)
  have fi: "length (owner ex_twice) = 2" "filter (\<lambda>b. brief_user b \<noteq> 20) (owner ex_twice) = []"
    "length (filter (\<lambda>b. brief_user b = 20) (owner ex_twice)) = 2" "unat (cal_file_size (len_as (file_segments ex_twice))) = 24 * 1048576"
    by (simp_all add: ex_twice_def ex_lost_def ex_brief_def cal_file_size_def len_as_def size_defs)
  have "FileMap ex_owned 100 = Some ex_twice" by (simp add: state)
  from delete_user_file_correct [OF t this] t show ?thesis by (auto simp: state fi Let_def)
qed

section \<open>Cleaning up after dead leases\<close>

lemma andthen_assoc: "andthen (andthen a b) c = andthen a (andthen b c)"
  by (auto simp: andthen_def bnd_def fun_eq_iff split: prod.splits sum.splits)

lemma andthen_ret: "andthen (ret ()) m = m"
  by (simp add: andthen_def bnd_def ret_def fun_eq_iff)

text \<open>
  C32: the cleaning of a block treats at most 299 files. Started with a count below 300, the loop
  over a user's files (in the order in which they are popped) treats all of them if the count
  stays below 300. Otherwise it treats those up to the count 299 and writes back what follows
  the next one: the file popped at the count 300 is neither treated nor kept in the user's list.
\<close>
theorem clear_files_budget:
  assumes "unat n < 300"
  shows "clear_files acc files n =
    (if unat n + length files < 300
     then andthen (for_each (\<lambda>f. clear_one_file acc (slice_hash f)) files) (ret (Some (n + of_nat (length files))))
     else andthen (for_each (\<lambda>f. clear_one_file acc (slice_hash f)) (take (299 - unat n) files))
         (andthen (modify (UserHoldFileList_update (\<lambda>m. m(acc \<mapsto> rev (drop (300 - unat n) files))))) (ret None)))"
  using assms
proof (induction files arbitrary: n)
  case Nil
  then show ?case by (simp add: andthen_ret)
next
  case (Cons f files)
  have suc: "unat (n + 1) = unat n + 1"
    using Cons.prems by (subst unat_add_lem [THEN iffD1]) simp_all
  show ?case
  proof (cases "unat n = 299")
    case True
    then have "n + 1 = 300" by (intro word_unat_eq_iff [THEN iffD2]) (simp add: suc)
    then show ?thesis using True by (simp add: andthen_ret)
  next
    case False
    then have ne: "n + 1 \<noteq> 300" using suc by (auto simp: word_unat_eq_iff)
    have lt: "unat (n + 1) < 300" using False Cons.prems suc by simp
    have take: "take (299 - unat n) (f # files) = f # take (299 - unat (n + 1)) files"
      "drop (300 - unat n) (f # files) = drop (300 - unat (n + 1)) files"
      using lt suc by (simp_all add: take_Cons' drop_Cons')
    have len: "n + 1 + of_nat (length files) = n + of_nat (length (f # files))"
      "unat (n + 1) + length files < 300 \<longleftrightarrow> unat n + length (f # files) < 300" by (simp_all add: suc)
    show ?thesis
      unfolding clear_files.simps if_not_P [OF ne] Cons.IH [OF lt] take len
      by (simp only: for_each.simps andthen_assoc split: if_split) blast
  qed
qed

theorem clear_files_budget_witness:
  "clear_files 20 (map (\<lambda>h. \<lparr>slice_hash = h, slice_size = 24\<rparr>) [101, 102, 103]) 298 = andthen (clear_one_file 20 101)
     (andthen (modify (UserHoldFileList_update (\<lambda>m. m(20 \<mapsto> [\<lparr>slice_hash = 103, slice_size = 24\<rparr>])))) (ret None))"
proof -
  have "unat (298 :: u32) < 300" by simp
  from clear_files_budget [OF this, of 20 "map (\<lambda>h. \<lparr>slice_hash = h, slice_size = 24\<rparr>) [101, 102, 103]"] show ?thesis
    by (simp add: andthen_assoc andthen_ret)
qed

end
