(* ===== verification/Audit_Pallet.thy ===== *)
theory Audit_Pallet
  imports File_Bank
begin

text \<open>
  The audit pallet (\<open>c-pallets/audit\<close>) on the chain: challenge proposals of the validators,
  proofs of the miners, verification results of the TEE workers, and the two cleanings at the
  end of a challenge and of its verification. The offchain worker that makes the proposals is
  in \<open>Audit_Offchain\<close>.
\<close>

section \<open>Structures of \<open>types.rs\<close>, constants\<close>

definition IDLE_FAULT_TOLERANT :: u8 where "IDLE_FAULT_TOLERANT = 2"
definition SERVICE_FAULT_TOLERANT :: u8 where "SERVICE_FAULT_TOLERANT = 2"

type_synonym AuthorityId = nat

record NetSnapShot =
  snap_start :: BlockNumber
  snap_life :: BlockNumber
  snap_total_reward :: u128
  snap_total_idle_space :: u128
  snap_total_service_space :: u128
  random_index_list :: "u32 list"
  random_list :: "u8 list list"

record MinerSnapShot =
  snap_miner :: AccountId
  snap_idle_space :: u128
  snap_service_space :: u128

record ChallengeInfo =
  net_snap_shot :: NetSnapShot
  miner_snapshot_list :: "MinerSnapShot list"

record ProveInfo =
  snap_shot :: MinerSnapShot
  idle_prove :: "u8 list"
  service_prove :: "u8 list"

record SegDigest =
  validators_len :: u32
  digest_block_num :: BlockNumber
  network_state :: "u8 list"

datatype au_event =
    GenerateChallenge
  | SubmitProof AccountId
  | VerifyProof AccountId AccountId

section \<open>Configuration and storage\<close>

text \<open>
  The parameters stand for code outside the repository: \<open>au_random\<close> for the randomness of a block
  (32 bytes for every subject), \<open>challenge_hash\<close> for the SHA-256 hash of an encoded challenge,
  \<open>verify_digest\<close> and \<open>sign_digest\<close> for the signatures of the validators' keys, and the last
  three for what the session pallet tells about the current session.
\<close>

record au_config = fb_config +
  ChallengeMinerMax :: nat
  VerifyMissionMax :: nat
  KeysLimit :: nat
  au_OneDay :: BlockNumber
  OneHours :: BlockNumber
  LockTime :: BlockNumber
  UnsignedPriority :: u64
  au_random :: "BlockNumber \<Rightarrow> u32 \<Rightarrow> u8 list option"
  challenge_hash :: "ChallengeInfo \<Rightarrow> nat"
  verify_digest :: "AuthorityId \<Rightarrow> SegDigest \<Rightarrow> u8 list \<Rightarrow> bool"
  sign_digest :: "AuthorityId \<Rightarrow> SegDigest \<Rightarrow> u8 list option"
  session_index :: "BlockNumber \<Rightarrow> u32"
  average_session_length :: BlockNumber
  session_progress :: "BlockNumber \<Rightarrow> u32 option"

record au_state = fb_state +
  ChallengeDuration :: BlockNumber
  VerifyDuration :: BlockNumber
  CurAuthorityIndex :: u16
  Keys :: "AuthorityId list"
  ChallengeProposal :: "nat \<rightharpoonup> u32 \<times> ChallengeInfo"
  ChallengeSnapShot :: "ChallengeInfo option"
  UnverifyProof :: "AccountId \<rightharpoonup> ProveInfo list"
  CountedIdleFailed :: "AccountId \<rightharpoonup> u32"
  CountedServiceFailed :: "AccountId \<rightharpoonup> u32"
  CountedClear :: "AccountId \<rightharpoonup> u8"
  au_Lock :: bool
  TestOption :: "AccountId option option"
  au_events :: "au_event list"

abbreviation AUErr :: "audit_error \<Rightarrow> dispatch_error" where
  "AUErr \<equiv> dispatch_error.Audit"

definition au_deposit_event :: "au_event \<Rightarrow> ('s au_state_scheme, unit) act" where
  "au_deposit_event ev = modify (au_events_update (\<lambda>es. es @ [ev]))"

definition proposal_count :: "'s au_state_scheme \<Rightarrow> u32" where
  "proposal_count s = of_nat (card (dom (ChallengeProposal s)))"

section \<open>Random numbers\<close>

text \<open>
  SCALE decoding of a \<open>u64\<close>, the lowest byte first. The hash has 32 bytes, so the \<open>expect\<close> in
  \<open>random_number\<close> never fails; no randomness reads as a hash of zeros.
\<close>

definition decode_u64 :: "u8 list \<Rightarrow> u64" where
  "decode_u64 bs = foldr (\<lambda>b acc. ucast b + 256 * acc) (take 8 bs) 0"

definition random_number :: "'t au_config_scheme \<Rightarrow> BlockNumber \<Rightarrow> u32 \<Rightarrow> u64" where
  "random_number T now seed = (case au_random T now seed of Some v \<Rightarrow> decode_u64 v | None \<Rightarrow> 0)"

text \<open>A random index into the list of TEE workers: \<open>% 0\<close> panics.\<close>

definition pick_tee :: "'t au_config_scheme \<Rightarrow> AccountId list \<Rightarrow> BlockNumber \<Rightarrow> u32 \<Rightarrow> ('s, u32) act" where
  "pick_tee T tee_list now seed =
     andthen (ensure (len_as tee_list \<noteq> (0 :: u32)) Panicked)
     (ret (ucast (random_number T now seed) mod len_as tee_list))"

section \<open>Calls\<close>

text \<open>What a proposal with enough votes does, once the running challenge is over.\<close>

definition open_challenge :: "'t au_config_scheme \<Rightarrow> BlockNumber \<Rightarrow> ('s au_state_scheme, unit) act" where
  "open_challenge T life =
     bnd (gets ChallengeDuration) (\<lambda>cur_block.
     bnd (gets block_number) (\<lambda>now.
     act_when (now > cur_block)
       (bnd (ok_or (checked_add now life) (AUErr AU_Overflow)) (\<lambda>duration.
        andthen (modify (ChallengeDuration_update (\<lambda>_. duration)))
       (bnd (ok_or (checked_add duration life) (AUErr AU_Overflow)) (\<lambda>d.
        bnd (ok_or (checked_add d (OneHours T)) (AUErr AU_Overflow)) (\<lambda>v_duration.
        andthen (modify (VerifyDuration_update (\<lambda>_. v_duration)))
        (modify (ChallengeProposal_update (\<lambda>_. Map.empty))))))))))"

definition save_challenge_info ::
  "'t au_config_scheme \<Rightarrow> origin \<Rightarrow> ChallengeInfo \<Rightarrow> AuthorityId \<Rightarrow> SegDigest \<Rightarrow> u8 list \<Rightarrow> ('s au_state_scheme, unit) act" where
  "save_challenge_info T origin challenge_info key seg_digest signature = transactional (
     andthen (ensure_none origin)
    (let hash = challenge_hash T challenge_info in
     bnd (gets (\<lambda>s. len_as (Keys s))) (\<lambda>count.
     bnd (ok_or (checked_mul count 2) (AUErr AU_Overflow)) (\<lambda>twice.
     bnd (ok_or (checked_div twice 3) (AUErr AU_Overflow)) (\<lambda>limit.
     bnd (gets (\<lambda>s. ChallengeProposal s hash)) (\<lambda>proposal_opt.
     (case proposal_opt of
        Some (votes, info) \<Rightarrow>
          act_when (votes + 1 \<ge> limit)
            (andthen (open_challenge T (snap_life (net_snap_shot info)))
             (au_deposit_event GenerateChallenge))
      | None \<Rightarrow>
          bnd (gets proposal_count) (\<lambda>proposals.
          if proposals > count then modify (ChallengeProposal_update (\<lambda>_. Map.empty))
          else modify (ChallengeProposal_update (\<lambda>m. m(hash \<mapsto> (1, challenge_info))))))))))))"

text \<open>The loop over the snapshots: the miner's first one is taken out.\<close>

fun take_snapshot :: "AccountId \<Rightarrow> MinerSnapShot list \<Rightarrow> (MinerSnapShot \<times> MinerSnapShot list) option" where
  "take_snapshot acc [] = None"
| "take_snapshot acc (m # ms) =
     (if snap_miner m = acc then Some (m, ms)
      else map_option (\<lambda>(x, rest). (x, m # rest)) (take_snapshot acc ms))"

definition submit_proof ::
  "'t au_config_scheme \<Rightarrow> origin \<Rightarrow> u8 list \<Rightarrow> u8 list \<Rightarrow> ('s au_state_scheme, unit) act" where
  "submit_proof T origin idle service = transactional (
     bnd (ensure_signed origin) (\<lambda>sender.
     bnd (bnd (gets_some ChallengeSnapShot (AUErr AU_NoChallenge)) (\<lambda>challenge_info.
          bnd (ok_or (take_snapshot sender (miner_snapshot_list challenge_info)) (AUErr AU_NoChallenge)) (\<lambda>(snapshot, rest).
          andthen (ensures (\<lambda>s. block_number s < ChallengeDuration s) (AUErr AU_NoChallenge))
         (andthen (modify (ChallengeSnapShot_update (\<lambda>_. Some (challenge_info\<lparr>miner_snapshot_list := rest\<rparr>))))
          (ret snapshot))))) (\<lambda>miner_snapshot.
     bnd (gets (get_controller_list T)) (\<lambda>tee_list.
     andthen (ensure (length tee_list > 0) (AUErr AU_SystemError))
    (bnd (gets block_number) (\<lambda>seed.
     bnd (pick_tee T tee_list seed seed) (\<lambda>index.
     let tee_acc = tee_list ! unat index in
     andthen (modify (CountedClear_update (\<lambda>m. m(sender \<mapsto> 0))))
    (bnd (gets_some (\<lambda>s. try_push (VerifyMissionMax T) (get_or [] (UnverifyProof s) tee_acc)
         \<lparr>snap_shot = miner_snapshot, idle_prove = idle, service_prove = service\<rparr>) (AUErr AU_Overflow)) (\<lambda>proofs.
     andthen (modify (UnverifyProof_update (\<lambda>m. m(tee_acc \<mapsto> proofs))))
     (au_deposit_event (SubmitProof sender)))))))))))"

text \<open>
  The counters of failed proofs, for the idle and the service part: a good result resets the
  counter, a bad one increases it, and from the second bad one on the miner is punished.
\<close>

definition count_idle :: "'t au_config_scheme \<Rightarrow> MinerSnapShot \<Rightarrow> AccountId \<Rightarrow> bool \<Rightarrow> ('s au_state_scheme, unit) act" where
  "count_idle T snap miner idle_result =
     (if idle_result then modify (CountedIdleFailed_update (\<lambda>m. m(miner \<mapsto> 0)))
      else bnd (gets (\<lambda>s. get_or 0 (CountedIdleFailed s) miner + 1)) (\<lambda>count.
           andthen (act_when (count \<ge> ucast IDLE_FAULT_TOLERANT)
             (idle_punish T miner (snap_idle_space snap) (snap_service_space snap)))
           (modify (CountedIdleFailed_update (\<lambda>m. m(miner \<mapsto> count))))))"

definition count_service :: "'t au_config_scheme \<Rightarrow> MinerSnapShot \<Rightarrow> AccountId \<Rightarrow> bool \<Rightarrow> ('s au_state_scheme, unit) act" where
  "count_service T snap miner service_result =
     (if service_result then modify (CountedServiceFailed_update (\<lambda>m. m(miner \<mapsto> 0)))
      else bnd (gets (\<lambda>s. get_or 0 (CountedServiceFailed s) miner + 1)) (\<lambda>count.
           andthen (act_when (count \<ge> ucast SERVICE_FAULT_TOLERANT)
             (service_punish T miner (snap_idle_space snap) (snap_service_space snap)))
           (modify (CountedServiceFailed_update (\<lambda>m. m(miner \<mapsto> count))))))"

fun take_proof :: "AccountId \<Rightarrow> ProveInfo list \<Rightarrow> (ProveInfo \<times> ProveInfo list) option" where
  "take_proof acc [] = None"
| "take_proof acc (p # ps) =
     (if snap_miner (snap_shot p) = acc then Some (p, ps)
      else map_option (\<lambda>(x, rest). (x, p # rest)) (take_proof acc ps))"

definition submit_verify_result ::
  "'t au_config_scheme \<Rightarrow> origin \<Rightarrow> AccountId \<Rightarrow> bool \<Rightarrow> bool \<Rightarrow> u8 list \<Rightarrow> ('s au_state_scheme, unit) act" where
  "submit_verify_result T origin miner idle_result service_result tee_signature = transactional (
     bnd (ensure_signed origin) (\<lambda>sender.
     bnd (gets (\<lambda>s. get_or [] (UnverifyProof s) sender)) (\<lambda>unverify_list.
     bnd (ok_or (take_proof miner unverify_list) (AUErr AU_NonExistentMission)) (\<lambda>(miner_info, rest).
     bnd (gets_some ChallengeSnapShot (AUErr AU_UnexpectedError)) (\<lambda>challenge.
     andthen (act_when (idle_result \<and> service_result)
       (calculate_miner_reward T miner (snap_total_reward (net_snap_shot challenge))
          (snap_total_idle_space (net_snap_shot challenge)) (snap_total_service_space (net_snap_shot challenge))
          (snap_idle_space (snap_shot miner_info)) (snap_service_space (snap_shot miner_info))))
    (andthen (count_idle T (snap_shot miner_info) miner idle_result)
    (andthen (count_service T (snap_shot miner_info) miner service_result)
    (andthen (modify (UnverifyProof_update (\<lambda>m. m(sender \<mapsto> rest))))
     (au_deposit_event (VerifyProof sender miner))))))))))"

section \<open>Validation of the unsigned call\<close>

datatype tx_validity =
    Invalid_Stale
  | Invalid_BadProof
  | Valid_tx u64 "u32 \<times> AuthorityId \<times> u8 list" u64

definition check_unsign ::
  "'t au_config_scheme \<Rightarrow> AuthorityId \<Rightarrow> SegDigest \<Rightarrow> u8 list \<Rightarrow> 's au_state_scheme \<Rightarrow> tx_validity" where
  "check_unsign T key seg_digest signature s =
     (if key \<notin> set (Keys s) then Invalid_Stale
      else if \<not> verify_digest T key seg_digest signature then Invalid_BadProof
      else Valid_tx (UnsignedPriority T) (session_index T (block_number s), key, signature)
             (ucast (average_session_length T div 2)))"

section \<open>The end of a challenge\<close>

text \<open>
  A miner that has not submitted a proof is punished with a level that grows with every
  challenge it misses in a row; the third time it is forced out. The results of the two calls
  are ignored, and the counter is an unchecked \<open>u8\<close>.
\<close>

definition clear_miner :: "'t au_config_scheme \<Rightarrow> MinerSnapShot \<Rightarrow> ('s au_state_scheme, unit) act" where
  "clear_miner T snap =
     bnd (gets (\<lambda>s. get_or 0 (CountedClear s) (snap_miner snap) + 1)) (\<lambda>count.
     andthen (attempt (clear_punish T (snap_miner snap) count (snap_idle_space snap) (snap_service_space snap)))
     (if count \<ge> 3
      then andthen (attempt (fb_force_miner_exit T (snap_miner snap)))
           (modify (CountedClear_update (\<lambda>m. m(snap_miner snap := None))))
      else modify (CountedClear_update (\<lambda>m. m(snap_miner snap \<mapsto> count)))))"

definition clear_challenge :: "'t au_config_scheme \<Rightarrow> BlockNumber \<Rightarrow> ('s au_state_scheme, unit) act" where
  "clear_challenge T now =
     bnd (gets ChallengeDuration) (\<lambda>duration.
     if now = duration
     then bnd (gets ChallengeSnapShot) (\<lambda>snap_opt.
          (case snap_opt of
             None \<Rightarrow> ret ()
           | Some challenge \<Rightarrow> for_each (clear_miner T) (miner_snapshot_list challenge)))
     else ret ())"

section \<open>The end of the verification\<close>

text \<open>
  The missions a worker has left are handed to another one. The first loop collects them in
  \<open>reassign_list\<close>, a \<open>BTreeMap\<close>; it yields \<open>None\<close> when it returns early.
\<close>

definition reassign_one ::
  "'t au_config_scheme \<Rightarrow> BlockNumber \<Rightarrow> AccountId list \<Rightarrow> AccountId \<Rightarrow> u32 \<Rightarrow> u32 \<Rightarrow> (AccountId \<rightharpoonup> ProveInfo list)
     \<Rightarrow> ('s au_state_scheme, (u32 \<times> (AccountId \<rightharpoonup> ProveInfo list)) option) act" where
  "reassign_one T now tee_list acc seed mission_count reassign_list =
     bnd (gets (\<lambda>s. get_or [] (UnverifyProof s) acc)) (\<lambda>unverify_list.
     if length unverify_list > 0 then
       andthen (attempt (punish_scheduler T acc))
      (let mission_count = saturating_add mission_count (len_as unverify_list) in
       bnd (pick_tee T tee_list now seed) (\<lambda>index.
       let index = (if acc = tee_list ! unat index then (index + 1) mod len_as tee_list else index);
           tee_acc = tee_list ! unat index in
       bnd (case reassign_list tee_acc of
              Some value \<Rightarrow>
                (case try_append (VerifyMissionMax T) value unverify_list of
                   None \<Rightarrow> andthen (modify (VerifyDuration_update (\<lambda>_. saturating_add now 800))) (ret None)
                 | Some value' \<Rightarrow> ret (Some (reassign_list(tee_acc \<mapsto> value'))))
            | None \<Rightarrow> ret (Some (reassign_list(tee_acc \<mapsto> unverify_list)))) (\<lambda>list_opt.
       (case list_opt of
          None \<Rightarrow> ret None
        | Some reassign_list \<Rightarrow>
            andthen (modify (UnverifyProof_update (\<lambda>m. m(acc := None))))
            (ret (Some (mission_count, reassign_list)))))))
     else ret (Some (mission_count, reassign_list)))"

fun reassign_all ::
  "'t au_config_scheme \<Rightarrow> BlockNumber \<Rightarrow> AccountId list \<Rightarrow> AccountId list \<Rightarrow> u32 \<Rightarrow> u32 \<Rightarrow> (AccountId \<rightharpoonup> ProveInfo list)
     \<Rightarrow> ('s au_state_scheme, (u32 \<times> (AccountId \<rightharpoonup> ProveInfo list)) option) act" where
  "reassign_all T now tee_list [] seed mission_count reassign_list = ret (Some (mission_count, reassign_list))"
| "reassign_all T now tee_list (acc # accs) seed mission_count reassign_list =
     bnd (reassign_one T now tee_list acc (seed + 1) mission_count reassign_list) (\<lambda>r.
     (case r of
        None \<Rightarrow> ret None
      | Some (mission_count, reassign_list) \<Rightarrow> reassign_all T now tee_list accs (seed + 1) mission_count reassign_list))"

text \<open>
  The second loop, in the order of the accounts; \<open>False\<close> when it returns early. \<open>mutate\<close> writes the
  list back also when appending to it failed.
\<close>

fun hand_over :: "'t au_config_scheme \<Rightarrow> BlockNumber \<Rightarrow> (AccountId \<rightharpoonup> ProveInfo list) \<Rightarrow> AccountId list \<Rightarrow> ('s au_state_scheme, bool) act" where
  "hand_over T now reassign_list [] = ret True"
| "hand_over T now reassign_list (acc # accs) =
     bnd (gets (\<lambda>s. try_append (VerifyMissionMax T) (get_or [] (UnverifyProof s) acc) (get_or [] reassign_list acc))) (\<lambda>r.
     (case r of
        None \<Rightarrow>
          andthen (modify (UnverifyProof_update (\<lambda>m. m(acc \<mapsto> get_or [] m acc))))
         (andthen (modify (VerifyDuration_update (\<lambda>_. saturating_add now 5)))
          (ret False))
      | Some proofs \<Rightarrow>
          andthen (modify (UnverifyProof_update (\<lambda>m. m(acc \<mapsto> proofs))))
          (hand_over T now reassign_list accs)))"

definition clear_verify_mission :: "'t au_config_scheme \<Rightarrow> BlockNumber \<Rightarrow> ('s au_state_scheme, unit) act" where
  "clear_verify_mission T now =
     bnd (gets VerifyDuration) (\<lambda>duration.
     if now = duration then
       bnd (gets (get_controller_list T)) (\<lambda>tee_list.
       bnd (gets (\<lambda>s. iter_keys T (dom (UnverifyProof s)))) (\<lambda>accs.
       bnd (reassign_all T now tee_list accs 0 0 Map.empty) (\<lambda>r.
       (case r of
          None \<Rightarrow> ret ()
        | Some (mission_count, reassign_list) \<Rightarrow>
            if mission_count = 0 then modify (ChallengeSnapShot_update (\<lambda>_. None))
            else bnd (hand_over T now reassign_list (sorted_list_of_set (dom reassign_list))) (\<lambda>done'.
                 act_when done'
                   (modify (VerifyDuration_update (\<lambda>_. saturating_add now (saturating_mul mission_count 10)))))))))
     else ret ())"

definition au_on_initialize :: "'t au_config_scheme \<Rightarrow> BlockNumber \<Rightarrow> ('s au_state_scheme, unit) act" where
  "au_on_initialize T now = andthen (clear_challenge T now) (clear_verify_mission T now)"

text \<open>A helper no call uses: it opens a challenge of the given length.\<close>

definition record_challenge_time :: "BlockNumber \<Rightarrow> ('s au_state_scheme, unit) act" where
  "record_challenge_time duration =
     bnd (gets block_number) (\<lambda>now.
     bnd (ok_or (checked_add now duration) (AUErr AU_Overflow)) (\<lambda>d.
     bnd (ok_or (checked_add d 2000) (AUErr AU_Overflow)) (\<lambda>verify_deadline.
     andthen (modify (VerifyDuration_update (\<lambda>_. verify_deadline)))
    (bnd (ok_or (checked_add now duration) (AUErr AU_Overflow)) (\<lambda>deadline.
     modify (ChallengeDuration_update (\<lambda>_. deadline)))))))"

section \<open>The keys of the validators\<close>

definition initialize_keys :: "'t au_config_scheme \<Rightarrow> AuthorityId list \<Rightarrow> ('s au_state_scheme, unit) act" where
  "initialize_keys T keys =
     (if keys = [] then ret ()
      else andthen (ensures (\<lambda>s. Keys s = []) Panicked)
          (andthen (ensure (length keys \<le> KeysLimit T) Panicked)
           (modify (Keys_update (\<lambda>_. keys)))))"

definition on_genesis_session ::
  "'t au_config_scheme \<Rightarrow> (AccountId \<times> AuthorityId) list \<Rightarrow> ('s au_state_scheme, unit) act" where
  "on_genesis_session T validators = initialize_keys T (map snd validators)"

text \<open>A \<open>WeakBoundedVec\<close> may be longer than its bound; \<open>force_from\<close> only warns.\<close>

definition on_new_session :: "(AccountId \<times> AuthorityId) list \<Rightarrow> ('s au_state_scheme, unit) act" where
  "on_new_session validators = modify (Keys_update (\<lambda>_. map snd validators))"

end
