(* ===== verification/Audit_Offchain.thy ===== *)
theory Audit_Offchain
  imports Audit_Pallet
begin

text \<open>
  The offchain worker of the audit pallet: when it triggers a challenge, how it chooses the
  miners and the random numbers of a challenge, its lock in the node's local storage, and the
  transaction it submits. Its loops draw random numbers until they have enough different ones;
  they are functions whose value \<open>None\<close> means that the loop does not end.
\<close>

section \<open>Environment and errors\<close>

datatype offchain_err =
    Ineligible | GenerateInfoError | NetworkState | FailedSigning | OffOverflow | Working
  | SubmitTransactionFailed | OffPanicked

text \<open>
  The node: its own keys, whether it is a validator, its network state, and whether the
  transaction pool takes a transaction. Its persistent storage has the lock of each key; \<open>pool\<close>
  has the transactions submitted.
\<close>

type_synonym challenge_tx = "ChallengeInfo \<times> AuthorityId \<times> SegDigest \<times> u8 list"

record node =
  local_keys :: "AuthorityId list"
  is_validator :: bool
  node_network_state :: "u8 list option"
  pool_accepts :: "challenge_tx \<Rightarrow> bool"
  off_status :: "AuthorityId \<rightharpoonup> BlockNumber"
  pool :: "challenge_tx list"

section \<open>Choosing miners\<close>

text \<open>The loop of \<open>random_select_miner\<close>; the seed wraps.\<close>

partial_function (option) select_loop ::
  "(u32 \<Rightarrow> u64) \<Rightarrow> u32 \<Rightarrow> u32 \<Rightarrow> u32 list \<Rightarrow> u32 \<Rightarrow> u32 list \<Rightarrow> u32 list option" where
  "select_loop rnd need len valid seed acc =
     (if len_as acc < need \<and> of_nat (length valid + length acc) \<noteq> len
      then let index = ucast (rnd (seed + 1) mod ucast len) in
           if index \<in> set valid then select_loop rnd need len valid (seed + 1) acc
           else if index \<notin> set acc then select_loop rnd need len valid (seed + 1) (acc @ [index])
           else select_loop rnd need len valid (seed + 1) acc
      else Some acc)"

definition random_select_miner :: "(u32 \<Rightarrow> u64) \<Rightarrow> u32 \<Rightarrow> u32 \<Rightarrow> u32 list \<Rightarrow> u32 \<Rightarrow> u32 list option" where
  "random_select_miner rnd need len valid seed = select_loop rnd need len valid (saturating_mul seed 1000) []"

record gathering =
  g_miners :: "MinerSnapShot list"
  g_valid :: "u32 list"
  g_idle :: u128
  g_service :: u128
  g_max :: u128

text \<open>One index of the inner \<open>for\<close> loop: miners that are locked or have no space are passed over.\<close>

definition gather_miner ::
  "'t au_config_scheme \<Rightarrow> 's au_state_scheme \<Rightarrow> u32 \<Rightarrow> gathering \<Rightarrow> offchain_err + gathering" where
  "gather_miner T s index g =
     (let g = g\<lparr>g_valid := g_valid g @ [index]\<rparr> in
      if \<not> unat index < length (AllMiner s) then Inl OffPanicked
      else let miner = AllMiner s ! unat index in
      (case fst (get_miner_state miner s) of
         Inl _ \<Rightarrow> Inl GenerateInfoError
       | Inr state \<Rightarrow>
           if state = ''lock'' then Inr g
           else (case fst (get_power miner s) of
              Inl _ \<Rightarrow> Inl GenerateInfoError
            | Inr (idle, service) \<Rightarrow>
                if idle = 0 \<and> service = 0 then Inr g
                else (case checked_add (g_idle g) idle of
                   None \<Rightarrow> Inl OffOverflow
                 | Some total_idle \<Rightarrow>
                     (case checked_add (g_service g) service of
                        None \<Rightarrow> Inl OffOverflow
                      | Some total_service \<Rightarrow>
                          (case try_push (ChallengeMinerMax T) (g_miners g)
                               \<lparr>snap_miner = miner, snap_idle_space = idle, snap_service_space = service\<rparr> of
                             None \<Rightarrow> Inl GenerateInfoError
                           | Some miners \<Rightarrow>
                               Inr (g\<lparr>g_miners := miners, g_idle := total_idle, g_service := total_service,
                                      g_max := (if idle + service > g_max g then idle + service else g_max g)\<rparr>)))))))"

fun gather_miners ::
  "'t au_config_scheme \<Rightarrow> 's au_state_scheme \<Rightarrow> u32 list \<Rightarrow> gathering \<Rightarrow> offchain_err + gathering" where
  "gather_miners T s [] g = Inr g"
| "gather_miners T s (i # is) g =
     (case gather_miner T s i g of Inl e \<Rightarrow> Inl e | Inr g' \<Rightarrow> gather_miners T s is g')"

partial_function (option) gather_loop ::
  "'t au_config_scheme \<Rightarrow> 's au_state_scheme \<Rightarrow> (u32 \<Rightarrow> u64) \<Rightarrow> u32 \<Rightarrow> u32 \<Rightarrow> u32 \<Rightarrow> gathering
     \<Rightarrow> (offchain_err + gathering) option" where
  "gather_loop T s rnd need count seed g =
     (if len_as (g_miners g) \<noteq> need \<and> len_as (g_valid g) \<noteq> count
      then Option.bind (random_select_miner rnd need count (g_valid g) (saturating_add seed 1)) (\<lambda>index_list.
           (case gather_miners T s index_list g of
              Inl e \<Rightarrow> Some (Inl e)
            | Inr g' \<Rightarrow> gather_loop T s rnd need count (saturating_add seed 1) g'))
      else Some (Inr g))"

section \<open>The random numbers of a challenge\<close>

text \<open>\<open>CHUNK_COUNT * 46 / 1000\<close> of the chunks of a file are asked for.\<close>

definition need_count :: u32 where
  "need_count = CHUNK_COUNT * 46 div 1000"

text \<open>Draw until there are enough different values; the seed wraps.\<close>

partial_function (option) draw_distinct :: "(u32 \<Rightarrow> 'a) \<Rightarrow> nat \<Rightarrow> u32 \<Rightarrow> 'a list \<Rightarrow> 'a list option" where
  "draw_distinct draw need seed acc =
     (if length acc < need
      then draw_distinct draw need (seed + 1)
             (if draw (seed + 1) \<in> set acc then acc else acc @ [draw (seed + 1)])
      else Some acc)"

text \<open>
  The loop of \<open>generate_challenge_random\<close> ends in its first round, because the hash has 32 bytes.
\<close>

definition generate_challenge_random :: "'t au_config_scheme \<Rightarrow> BlockNumber \<Rightarrow> u32 \<Rightarrow> u8 list" where
  "generate_challenge_random T now seed =
     take 20 (case au_random T now (seed + 1) of Some v \<Rightarrow> v | None \<Rightarrow> replicate 32 0)"

definition challenge_life :: "u128 \<Rightarrow> u32" where
  "challenge_life max_space = ucast (max_space div 8947849 + 12)"

definition generation_challenge ::
  "'t au_config_scheme \<Rightarrow> BlockNumber \<Rightarrow> 's au_state_scheme \<Rightarrow> (offchain_err + ChallengeInfo) option" where
  "generation_challenge T now s =
     (let miner_count = get_miner_count s; rnd = random_number T (block_number s) in
      if miner_count = 0 then Some (Inl GenerateInfoError)
      else Option.bind (gather_loop T s rnd (miner_count div 10 + 1) miner_count 20230601
             \<lparr>g_miners = [], g_valid = [], g_idle = 0, g_service = 0, g_max = 0\<rparr>) (\<lambda>r.
      (case r of
         Inl e \<Rightarrow> Some (Inl e)
       | Inr g \<Rightarrow>
           Option.bind (draw_distinct (\<lambda>seed. ucast (rnd seed mod ucast CHUNK_COUNT)) (unat need_count) 0 []) (\<lambda>indices.
           Option.bind (draw_distinct (generate_challenge_random T (block_number s)) (unat need_count) now []) (\<lambda>randoms.
           if length indices \<le> 1024 \<and> length randoms \<le> 1024
           then Some (Inr \<lparr>net_snap_shot =
                  \<lparr>snap_start = now, snap_life = challenge_life (g_max g), snap_total_reward = get_reward s,
                   snap_total_idle_space = g_idle g, snap_total_service_space = g_service g,
                   random_index_list = indices, random_list = randoms\<rparr>,
                  miner_snapshot_list = g_miners g\<rparr>)
           else Some (Inl GenerateInfoError))))))"

section \<open>The worker\<close>

definition trigger_challenge :: "'t au_config_scheme \<Rightarrow> BlockNumber \<Rightarrow> 's au_state_scheme \<Rightarrow> bool" where
  "trigger_challenge T now s =
     (let time_point = random_number T (block_number s) 20220509;
          range = (-1 :: u64) div ucast (au_OneDay T) * 10 in
      if time_point > 2190502 \<and> time_point < range + 2190502
      then (case session_progress T now of
              Some progress \<Rightarrow> \<not> progress \<ge> 800000
            | None \<Rightarrow> True)
      else False)"

definition get_authority :: "'s au_state_scheme \<Rightarrow> node \<Rightarrow> offchain_err + AuthorityId" where
  "get_authority s n =
     (if length (local_keys n) = 0 then Inl Ineligible
      else (case find (\<lambda>key. key \<in> set (local_keys n)) (Keys s) of
              Some authority_id \<Rightarrow> Inr authority_id
            | None \<Rightarrow> Inl Ineligible))"

definition check_working :: "'t au_config_scheme \<Rightarrow> BlockNumber \<Rightarrow> AuthorityId \<Rightarrow> node \<Rightarrow> bool \<times> node" where
  "check_working T now authority_id n =
     (case off_status n authority_id of
        Some last_block \<Rightarrow>
          if last_block + LockTime T > now then (False, n)
          else (True, n\<lparr>off_status := (off_status n)(authority_id \<mapsto> now)\<rparr>)
      | None \<Rightarrow> (True, n\<lparr>off_status := (off_status n)(authority_id \<mapsto> now)\<rparr>))"

definition unlock_offchain :: "AuthorityId \<Rightarrow> node \<Rightarrow> node" where
  "unlock_offchain authority_id n = n\<lparr>off_status := (off_status n)(authority_id := None)\<rparr>"

definition offchain_sign_digest ::
  "'t au_config_scheme \<Rightarrow> BlockNumber \<Rightarrow> AuthorityId \<Rightarrow> 's au_state_scheme \<Rightarrow> node \<Rightarrow> offchain_err + u8 list \<times> SegDigest" where
  "offchain_sign_digest T now authority_id s n =
     (case node_network_state n of
        None \<Rightarrow> Inl NetworkState
      | Some st \<Rightarrow>
          let digest = \<lparr>validators_len = len_as (Keys s), digest_block_num = now, network_state = st\<rparr> in
          (case sign_digest T authority_id digest of
             None \<Rightarrow> Inl FailedSigning
           | Some signature \<Rightarrow> Inr (signature, digest)))"

definition offchain_call_extrinsic ::
  "'t au_config_scheme \<Rightarrow> BlockNumber \<Rightarrow> AuthorityId \<Rightarrow> ChallengeInfo \<Rightarrow> 's au_state_scheme \<Rightarrow> node
     \<Rightarrow> (offchain_err + unit) \<times> node" where
  "offchain_call_extrinsic T now authority_id challenge_info s n =
     (case offchain_sign_digest T now authority_id s n of
        Inl e \<Rightarrow> (Inl e, n)
      | Inr (signature, digest) \<Rightarrow>
          let tx = (challenge_info, authority_id, digest, signature) in
          if pool_accepts n tx then (Inr (), n\<lparr>pool := pool n @ [tx]\<rparr>)
          else (Inl SubmitTransactionFailed, n))"

definition offchain_work_start ::
  "'t au_config_scheme \<Rightarrow> BlockNumber \<Rightarrow> 's au_state_scheme \<Rightarrow> node \<Rightarrow> ((offchain_err + unit) \<times> node) option" where
  "offchain_work_start T now s n =
     (case get_authority s n of
        Inl e \<Rightarrow> Some (Inl e, n)
      | Inr authority_id \<Rightarrow>
          (case check_working T now authority_id n of (free', n) \<Rightarrow>
           if \<not> free' then Some (Inl Working, unlock_offchain authority_id n)
           else Option.bind (generation_challenge T now s) (\<lambda>r.
             (case r of
                Inl e \<Rightarrow>
                  if e = OffPanicked then Some (Inl OffPanicked, n)
                  else Some (Inl GenerateInfoError, unlock_offchain authority_id n)
              | Inr challenge_info \<Rightarrow>
                  (case offchain_call_extrinsic T now authority_id challenge_info s n of
                     (Inl e, n) \<Rightarrow> Some (Inl e, n)
                   | (Inr _, n) \<Rightarrow> Some (Inr (), unlock_offchain authority_id n))))))"

definition offchain_worker ::
  "'t au_config_scheme \<Rightarrow> BlockNumber \<Rightarrow> 's au_state_scheme \<Rightarrow> node \<Rightarrow> node option" where
  "offchain_worker T now s n =
     (if is_validator n \<and> now > VerifyDuration s \<and> trigger_challenge T now s
      then map_option snd (offchain_work_start T now s n)
      else Some n)"

end
