(* ===== verification/Audit_Props.thy ===== *)
theory Audit_Props
  imports Audit_Offchain File_Bank_Storage
begin

text \<open>
  Properties of the audit pallet: which challenges can come about at all, how the offchain
  worker's draw of miners ends, and what happens to missions that are not done in time.
\<close>

section \<open>Sequences of audit operations\<close>

text \<open>
  A step is an extrinsic of the audit pallet, successful or not, one of its hooks, a new
  session, or anything the other pallets do, which have no access to the storage of this one.
\<close>

definition audit_storage where
  "audit_storage s = (ChallengeDuration s, VerifyDuration s, Keys s, ChallengeProposal s, ChallengeSnapShot s, UnverifyProof s,
     CountedIdleFailed s, CountedServiceFailed s, CountedClear s)"

inductive au_step :: "'t au_config_scheme \<Rightarrow> 's au_state_scheme \<Rightarrow> 's au_state_scheme \<Rightarrow> bool" for T where
  "save_challenge_info T origin info key digest signature s = (r, t) \<Longrightarrow> au_step T s t"
| "submit_proof T origin idle service s = (r, t) \<Longrightarrow> au_step T s t"
| "submit_verify_result T origin miner idle_result service_result signature s = (r, t) \<Longrightarrow> au_step T s t"
| "au_on_initialize T now s = (r', t) \<Longrightarrow> au_step T s t"
| "on_new_session validators s = (r', t) \<Longrightarrow> au_step T s t"
| "audit_storage t = audit_storage s \<Longrightarrow> au_step T s t"

inductive au_reach :: "'t au_config_scheme \<Rightarrow> 's au_state_scheme \<Rightarrow> 's au_state_scheme \<Rightarrow> bool" for T s where
  au_refl: "au_reach T s s"
| au_next: "au_reach T s t \<Longrightarrow> au_step T t v \<Longrightarrow> au_reach T s v"

text \<open>No snapshot is stored, and every proposal has the one vote it was stored with.\<close>

definition silent :: "'s au_state_scheme \<Rightarrow> bool" where
  "silent s \<longleftrightarrow> ChallengeSnapShot s = None \<and> (\<forall>p \<in> ran (ChallengeProposal s). fst p = 1)"

lemma silent_frame: "silent s \<Longrightarrow> audit_storage t = audit_storage s \<Longrightarrow> silent t"
  by (simp add: audit_storage_def silent_def)

abbreviation keeps :: "('s \<Rightarrow> bool) \<Rightarrow> ('s, 'a) act \<Rightarrow> 's \<Rightarrow> bool" where
  "keeps P m \<equiv> wp m (\<lambda>_. P) (\<lambda>_. P)"

lemma keepsD: "keeps P m s \<Longrightarrow> m s = (r, t) \<Longrightarrow> P t"
  by (cases r) (auto simp: wp_def)

lemma silent_save:
  assumes "silent s"
  shows "keeps silent (save_challenge_info T origin info key digest signature) s"
  using assms
  by (cases origin) (auto simp: save_challenge_info_def open_challenge_def au_deposit_event_def ensure_none_def Let_def wp_rules silent_def ran_def)

lemma silent_proof: "silent s \<Longrightarrow> keeps silent (submit_proof T origin idle service) s"
  by (auto simp: submit_proof_def ensure_signed_def wp_rules silent_def split: origin.splits)

lemma silent_result: "silent s \<Longrightarrow> keeps silent (submit_verify_result T origin miner i r signature) s"
  by (auto simp: submit_verify_result_def ensure_signed_def wp_rules silent_def split: origin.splits)

lemma punish_frame: "keeps (\<lambda>t. audit_storage t = audit_storage s) (punish_scheduler T acc) s"
  by (auto simp: punish_scheduler_def slash_scheduler_def apply_scheduler_slash_def do_slash_def update_ledger_def st_deposit_event_def
      record_punishment_def mutate_counter_def wp_rules audit_storage_def split: prod.splits)

lemma punish_attempt: "attempt (punish_scheduler T acc) s = (r, t) \<Longrightarrow> audit_storage t = audit_storage s"
  using punish_frame [where s = s and T = T and acc = acc] by (auto simp: attempt_def wp_def split: prod.splits sum.splits if_splits)

lemma silent_punish: "silent s \<Longrightarrow> keeps silent (punish_scheduler T acc) s"
  by (rule wp_mono [OF punish_frame]) (erule (1) silent_frame)+

lemma silent_upd [simp]:
  "silent (s\<lparr>VerifyDuration := d\<rparr>) = silent s" "silent (UnverifyProof_update f s) = silent s"
  "silent s \<Longrightarrow> silent (s\<lparr>ChallengeSnapShot := None\<rparr>)"
  by (auto simp: silent_def)

lemma silent_reassign_one: "silent s \<Longrightarrow> keeps silent (reassign_one T now tees acc seed n list) s"
  unfolding reassign_one_def wp_bnd wp_gets wp_if wp_andthen
  by (auto simp: Let_def pick_tee_def wp_rules intro!: wp_mono [OF silent_punish])

lemma silent_reassign_all: "silent s \<Longrightarrow> keeps silent (reassign_all T now tees accs seed n list) s"
  by (induction accs arbitrary: seed n list s)
    (auto simp: wp_rules intro!: wp_mono [OF silent_reassign_one] split: option.splits)

lemma silent_hand_over: "silent s \<Longrightarrow> keeps silent (hand_over T now list accs) s"
  by (induction accs arbitrary: s) (auto simp: wp_rules split: option.splits)

lemma silent_hook: "silent s \<Longrightarrow> keeps silent (au_on_initialize T now) s"
  by (auto simp: au_on_initialize_def clear_challenge_def clear_verify_mission_def wp_rules silent_def [of s]
      intro!: wp_mono [OF silent_reassign_all] wp_mono [OF silent_hand_over])

lemma silent_session: "silent s \<Longrightarrow> keeps silent (on_new_session validators) s"
  by (auto simp: on_new_session_def wp_rules silent_def)

lemma silent_step: "au_step T s t \<Longrightarrow> silent s \<Longrightarrow> silent t"
  by (induction rule: au_step.induct)
    (auto intro: keepsD [OF silent_save] keepsD [OF silent_proof] keepsD [OF silent_result] keepsD [OF silent_hook] keepsD [OF silent_session]
       silent_frame)

lemma silent_reach: "au_reach T s t \<Longrightarrow> silent s \<Longrightarrow> silent t"
  by (induction rule: au_reach.induct) (auto dest: silent_step)

section \<open>A reference environment\<close>

text \<open>
  Random numbers are the seed itself, the hash of a challenge is its starting block, a digest is
  signed by the key and the block of the digest.
\<close>

definition au_conf :: au_config where
  "au_conf = fb_conf (au_config_ext 8000 500 100 28800 1200 5 100
     (\<lambda>now seed. Some (map (\<lambda>i. of_nat (unat seed div 256 ^ i)) [0..<32]))
     (\<lambda>info. unat (snap_start (net_snap_shot info)))
     (\<lambda>key digest sig. sig = [of_nat key, ucast (digest_block_num digest)])
     (\<lambda>key digest. Some [of_nat key, ucast (digest_block_num digest)])
     (\<lambda>now. 1) 600 (\<lambda>now. None) ())"

lemma au_conf_fields:
  "challenge_hash au_conf info = unat (snap_start (net_snap_shot info))" "VerifyMissionMax au_conf = 500" "OneHours au_conf = 1200"
  "KeysLimit au_conf = 100" "ChallengeMinerMax au_conf = 8000" "au_OneDay au_conf = 28800" "LockTime au_conf = 5"
  "verify_digest au_conf key digest sig \<longleftrightarrow> sig = [of_nat key, ucast (digest_block_num digest)]"
  by (simp_all add: au_conf_def fb_conf_def conf_defs)

definition ex_au :: au_state where
  "ex_au = ex_fb_with (au_state_ext 100 200 0 [1, 2, 3, 4, 5] Map.empty None Map.empty Map.empty Map.empty Map.empty False None [] ())"

lemma ex_au_fields:
  "ChallengeDuration ex_au = 100" "VerifyDuration ex_au = 200" "Keys ex_au = [1, 2, 3, 4, 5]" "ChallengeProposal ex_au = Map.empty"
  "ChallengeSnapShot ex_au = None" "UnverifyProof ex_au = Map.empty" "CountedClear ex_au = Map.empty"
  by (simp_all add: ex_au_def ex_fb_with_def ex_tw_with_def ex_sc_with_def ex_sm_with_def ex_ca_with_def ex_oss_with_def ex_sh_with_def)

section \<open>No challenge is ever held\<close>

text \<open>
  C25: no challenge is ever held. Proposals are stored, but the snapshot of a challenge is written
  nowhere: in every state that any sequence of operations reaches from genesis there is none, so
  every proof is refused with \<open>NoChallenge\<close>, no verification result is accepted, and the end of
  a challenge punishes nobody.
\<close>
theorem no_challenge_held:
  assumes "au_reach T s t" and "ChallengeSnapShot s = None" and "ChallengeProposal s = Map.empty"
  shows "ChallengeSnapShot t = None
    \<and> submit_proof T (SignedOrigin a) idle service t = (Inl (AUErr AU_NoChallenge), t)
    \<and> (\<exists>e. submit_verify_result T (SignedOrigin tee) m ri rs sig t = (Inl e, t))
    \<and> clear_challenge T now t = (Inr (), t)"
proof -
  have "silent t" by (rule silent_reach [OF assms(1)]) (simp add: silent_def assms(2,3))
  then have none: "ChallengeSnapShot t = None" by (simp add: silent_def)
  then show ?thesis
    by (cases "take_proof m (get_or [] (UnverifyProof t) tee)")
      (auto simp: submit_proof_def submit_verify_result_def clear_challenge_def run_simps)
qed

definition ex_info :: ChallengeInfo where
  "ex_info = \<lparr>net_snap_shot = \<lparr>snap_start = 7200, snap_life = 50, snap_total_reward = 0, snap_total_idle_space = G_BYTE,
      snap_total_service_space = 0, random_index_list = [], random_list = []\<rparr>,
     miner_snapshot_list = [\<lparr>snap_miner = 10, snap_idle_space = G_BYTE, snap_service_space = 0\<rparr>]\<rparr>"

definition ex_digest :: SegDigest where
  "ex_digest = \<lparr>validators_len = 5, digest_block_num = 7200, network_state = []\<rparr>"

definition ex_proposed :: au_state where
  "ex_proposed = ex_au\<lparr>ChallengeProposal := [7200 \<mapsto> (1, ex_info)]\<rparr>"

lemma ex_save:
  "save_challenge_info au_conf NoneOrigin ex_info 1 ex_digest [] ex_au = (Inr (), ex_proposed)"
  by (simp add: save_challenge_info_def run_simps Let_def au_conf_fields ex_au_fields ex_info_def checked_mul_def checked_div_def
      proposal_count_def ex_proposed_def len_as_def)

lemma ex_proposed_reached: "au_reach au_conf ex_au ex_proposed"
  by (rule au_next [OF au_refl]) (rule au_step.intros(1) [OF ex_save])

theorem no_challenge_held_witness:
  "au_reach au_conf ex_au ex_proposed \<and> ChallengeProposal ex_proposed = [7200 \<mapsto> (1, ex_info)]
     \<and> submit_proof au_conf (SignedOrigin 10) [1] [2] ex_proposed = (Inl (AUErr AU_NoChallenge), ex_proposed)"
  using no_challenge_held [OF ex_proposed_reached, of 10 "[1]" "[2]"] ex_proposed_reached by (simp add: ex_au_fields ex_proposed_def)

text \<open>
  C26: with five validators or more no proposal is ever passed. A second vote for a stored proposal
  is not counted: in every state that is reached from genesis each proposal has one vote, and a
  further vote never opens a challenge, because two thirds of five are more than two.
\<close>
theorem proposals_never_pass:
  assumes "au_reach T s t" and "ChallengeSnapShot s = None" and "ChallengeProposal s = Map.empty"
    and "5 \<le> length (Keys t)" and "length (Keys t) < 2 ^ 31"
    and "save_challenge_info T origin info key digest sig t = (r, v)"
  shows "(\<forall>p \<in> ran (ChallengeProposal t). fst p = 1)
    \<and> ChallengeDuration v = ChallengeDuration t \<and> VerifyDuration v = VerifyDuration t"
proof -
  have silent: "silent t" by (rule silent_reach [OF assms(1)]) (simp add: silent_def assms(2,3))
  have keys: "unat (len_as (Keys t) :: u32) = length (Keys t)" using assms(5) by (simp add: unat_len_as)
  have high: "\<not> limit \<le> (2 :: u32)" if m: "checked_mul (len_as (Keys t)) 2 = Some twice" and d: "checked_div twice 3 = Some limit" for twice limit
  proof -
    from m have "unat twice = 2 * length (Keys t)" using keys by (simp add: checked_mul_Some)
    moreover from d have "unat limit = unat twice div 3" by (auto simp: checked_div_def unat_div split: if_splits)
    ultimately show ?thesis using assms(4) by (simp add: word_le_nat_alt)
  qed
  have one: "votes = 1" if "ChallengeProposal t h = Some (votes, i)" for h votes i
    using silent that by (auto simp: silent_def ran_def)
  have "wp (save_challenge_info T origin info key digest sig) (\<lambda>_ v. ChallengeDuration v = ChallengeDuration t \<and> VerifyDuration v = VerifyDuration t)
      (\<lambda>_ v. ChallengeDuration v = ChallengeDuration t \<and> VerifyDuration v = VerifyDuration t) t"
    by (cases origin) (auto simp: save_challenge_info_def ensure_none_def Let_def wp_rules dest: high dest!: one)
  from keepsD [OF this assms(6)] silent show ?thesis by (simp add: silent_def)
qed

theorem proposals_never_pass_witness:
  "\<exists>v. save_challenge_info au_conf NoneOrigin ex_info 2 ex_digest [] ex_proposed = (Inr (), v) \<and> ChallengeDuration v = 100"
proof -
  have "length (Keys ex_proposed) = 5" "ChallengeDuration ex_proposed = 100" by (simp_all add: ex_proposed_def ex_au_fields)
  moreover have "\<exists>v. save_challenge_info au_conf NoneOrigin ex_info 2 ex_digest [] ex_proposed = (Inr (), v)"
    by (simp add: save_challenge_info_def run_simps Let_def au_conf_fields ex_au_fields ex_info_def checked_mul_def checked_div_def
        proposal_count_def ex_proposed_def len_as_def)
  ultimately show ?thesis
    using proposals_never_pass [OF ex_proposed_reached ex_au_fields(5,4), of NoneOrigin ex_info 2 ex_digest "[]" "Inr ()"] by auto
qed

section \<open>The draw of miners ends\<close>

definition drawn :: "(u32 \<Rightarrow> u64) \<Rightarrow> u32 \<Rightarrow> u32 \<Rightarrow> u32" where
  "drawn rnd len seed = ucast (rnd seed mod ucast len)"

definition more_wanted :: "u32 \<Rightarrow> u32 \<Rightarrow> u32 list \<Rightarrow> u32 list \<Rightarrow> bool" where
  "more_wanted need len valid acc \<longleftrightarrow> length acc < unat need \<and> length valid + length acc < unat len"

definition fresh_indices :: "u32 \<Rightarrow> u32 list \<Rightarrow> u32 list \<Rightarrow> bool" where
  "fresh_indices len valid acc \<longleftrightarrow> distinct acc \<and> (\<forall>i \<in> set acc. i < len \<and> i \<notin> set valid)"

lemma drawn_less: "len \<noteq> 0 \<Longrightarrow> drawn rnd len seed < len"
proof -
  assume "len \<noteq> 0"
  then have "unat (rnd seed mod ucast len) < unat len"
    by (simp add: unat_mod unat_gt_0)
  then show ?thesis
    using unat_lt [of len] by (simp add: drawn_def word_less_nat_alt unsigned_ucast_eq take_bit_nat_eq_self less_trans)
qed

text \<open>Valid indices and indices in hand are different, so there are at most \<open>len\<close> of them.\<close>

lemma card_below: "card {i. i < (len :: u32)} = unat len"
proof -
  have "{i. i < len} = of_nat ` {..<unat len}"
  proof (intro set_eqI iffI)
    fix i :: u32 assume "i \<in> {i. i < len}"
    then have "unat i < unat len" "i = of_nat (unat i)" by (simp_all add: word_less_nat_alt)
    then show "i \<in> of_nat ` {..<unat len}" by blast
  next
    fix i :: u32 assume "i \<in> of_nat ` {..<unat len}"
    then show "i \<in> {i. i < len}" using unat_lt [of len] by (auto simp: word_less_nat_alt unat_of_nat)
  qed
  moreover have "inj_on (of_nat :: nat \<Rightarrow> u32) {..<unat len}"
  proof (rule inj_onI)
    fix x y assume "x \<in> {..<unat len}" "y \<in> {..<unat len}" "(of_nat x :: u32) = of_nat y"
    then show "x = y" using unat_lt [of len] by (simp add: word_unat_eq_iff unat_of_nat)
  qed
  ultimately show ?thesis by (simp add: card_image)
qed

lemma indices_le:
  assumes "distinct valid" and "\<forall>i \<in> set valid. i < len" and "fresh_indices len valid acc"
  shows "length valid + length acc \<le> unat len"
proof -
  have "length valid + length acc = card (set valid \<union> set acc)"
    using assms by (subst card_Un_disjoint) (auto simp: fresh_indices_def distinct_card)
  also have "\<dots> \<le> card {i. i < len}" using assms by (intro card_mono) (auto simp: fresh_indices_def)
  finally show ?thesis by (simp add: card_below)
qed

lemma unused_index:
  assumes "distinct valid" and "\<forall>i \<in> set valid. i < len" and "fresh_indices len valid acc"
    and "length valid + length acc < unat len"
  shows "\<exists>i < len. i \<notin> set valid \<and> i \<notin> set acc"
proof (rule ccontr)
  assume "\<not> ?thesis"
  then have "card {i. i < len} \<le> card (set (valid @ acc))" by (intro card_mono) auto
  also have "\<dots> \<le> length (valid @ acc)" by (rule card_length)
  finally show False using assms(4) by (simp add: card_below)
qed

lemma select_loop_run:
  assumes "length valid + length acc \<le> unat len"
  shows "select_loop rnd need len valid seed acc =
    (if more_wanted need len valid acc
     then select_loop rnd need len valid (seed + 1)
       (if drawn rnd len (seed + 1) \<in> set valid \<union> set acc then acc else acc @ [drawn rnd len (seed + 1)])
     else Some acc)"
proof -
  have "unat (len_as acc :: u32) = length acc" "unat (of_nat (length valid + length acc) :: u32) = length valid + length acc"
    using assms unat_lt [of len] by (simp_all add: unat_len_as unat_of_nat del: of_nat_add)
  then have "len_as acc < need \<and> of_nat (length valid + length acc) \<noteq> len \<longleftrightarrow> more_wanted need len valid acc"
    using assms by (auto simp: more_wanted_def word_less_nat_alt word_unat_eq_iff simp del: of_nat_add)
  then show ?thesis
    by (subst select_loop.simps) (simp add: drawn_def Let_def)
qed

text \<open>As long as more is wanted, the loop comes to a seed that draws a new index.\<close>

lemma select_loop_progress:
  assumes "more_wanted need len valid acc" and "drawn rnd len (seed + 1 + of_nat n) \<notin> set valid \<union> set acc"
  shows "\<exists>seed' i. i \<notin> set valid \<union> set acc \<and> i = drawn rnd len seed' \<and>
    select_loop rnd need len valid seed acc = select_loop rnd need len valid seed' (acc @ [i])"
  using assms(2)
proof (induction n arbitrary: seed)
  case 0
  with assms(1) show ?case by (auto simp: select_loop_run [of valid acc] more_wanted_def)
next
  case (Suc n)
  note run = select_loop_run [of valid acc len rnd need seed]
  have "seed + 1 + of_nat (Suc n) = (seed + 1) + 1 + of_nat n" by simp
  with Suc.prems have "drawn rnd len ((seed + 1) + 1 + of_nat n) \<notin> set valid \<union> set acc" by metis
  from Suc.IH [OF this] show ?case
    using assms(1) run by (cases "drawn rnd len (seed + 1) \<in> set valid \<union> set acc") (auto simp: more_wanted_def)
qed

lemma select_loop_ends:
  assumes valid: "distinct valid" "\<forall>i \<in> set valid. i < len"
    and drawable: "\<forall>i < len. \<exists>seed. drawn rnd len seed = i" and "fresh_indices len valid acc" "length acc \<le> unat need"
  shows "\<exists>xs. select_loop rnd need len valid seed acc = Some xs \<and> fresh_indices len valid xs \<and>
    length xs = min (unat need) (unat len - length valid)"
  using assms(4,5)
proof (induction "min (unat need) (unat len - length valid) - length acc" arbitrary: seed acc rule: less_induct)
  case less
  note le = indices_le [OF valid less.prems(1)]
  show ?case
  proof (cases "more_wanted need len valid acc")
    case True
    then obtain i seed0 where i: "i < len" "i \<notin> set valid \<union> set acc" "drawn rnd len seed0 = i"
      using unused_index [OF valid less.prems(1)] drawable by (auto simp: more_wanted_def)
    have "drawn rnd len (seed + 1 + of_nat (unat (seed0 - (seed + 1)))) \<notin> set valid \<union> set acc" using i by simp
    from select_loop_progress [OF True this] obtain seed' j where
      j: "j \<notin> set valid \<union> set acc" "j = drawn rnd len seed'"
        "select_loop rnd need len valid seed acc = select_loop rnd need len valid seed' (acc @ [j])" by blast
    have "j < len" using i(1) j(2) by (auto intro: drawn_less)
    then have fresh: "fresh_indices len valid (acc @ [j])" using j less.prems(1) by (auto simp: fresh_indices_def)
    have "min (unat need) (unat len - length valid) - length (acc @ [j]) < min (unat need) (unat len - length valid) - length acc"
      "length (acc @ [j]) \<le> unat need"
      using True by (auto simp: more_wanted_def)
    from less.hyps [OF this(1) fresh this(2), of seed'] j(3) show ?thesis by simp
  next
    case False
    then have "select_loop rnd need len valid seed acc = Some acc"
      using select_loop_run [OF le, of rnd need seed] by (simp only: if_False)
    moreover have "length acc = min (unat need) (unat len - length valid)"
      using False le less.prems(2) by (auto simp: more_wanted_def)
    ultimately show ?thesis using less.prems(1) by blast
  qed
qed

text \<open>
  C27: the draw of miners ends. If every index below \<open>length\<close> is drawn by some seed, the loop
  returns from whatever seed it starts: the seeds run through all values, since the counter wraps
  around. It returns as many indices as are needed, or all there are; they are different, below
  \<open>length\<close>, and none of them is in the list of indices that were visited before.
\<close>
theorem random_select_miner_ends:
  assumes "distinct valid" and "\<forall>i \<in> set valid. i < len"
    and "\<forall>i < len. \<exists>seed. ucast (rnd seed mod ucast len) = i"
  shows "\<exists>xs. random_select_miner rnd need len valid seed = Some xs \<and> distinct xs \<and>
     (\<forall>i \<in> set xs. i < len \<and> i \<notin> set valid) \<and> length xs = min (unat need) (unat len - length valid)"
proof -
  have "fresh_indices len valid []" by (simp add: fresh_indices_def)
  from select_loop_ends [OF assms(1,2) _ this, of rnd need "saturating_mul seed 1000"] assms(3) show ?thesis
    by (auto simp: random_select_miner_def drawn_def fresh_indices_def)
qed

theorem random_select_miner_ends_witness:
  "\<exists>xs. random_select_miner ucast 2 5 [3] 1 = Some xs \<and> length xs = 2 \<and> 3 \<notin> set xs"
proof -
  have "\<forall>i < 5 :: u32. \<exists>seed :: u32. ucast (ucast seed mod (ucast (5 :: u32) :: u64)) = i"
  proof (intro allI impI)
    fix i :: u32 assume "i < 5"
    then have "unat i < 5" by (simp add: word_less_nat_alt)
    then have "ucast (ucast i mod (ucast (5 :: u32) :: u64)) = i"
      by (simp add: word_unat_eq_iff unsigned_ucast_eq take_bit_nat_eq_self unat_mod)
    then show "\<exists>seed :: u32. ucast (ucast seed mod (ucast (5 :: u32) :: u64)) = i" by blast
  qed
  from random_select_miner_ends [OF _ _ this, of "[3]" 2 1] show ?thesis by fastforce
qed

end
