(* ===== verification/Staking_Pallet.thy ===== *)
theory Staking_Pallet
  imports Staking
begin

text \<open>
  The staking pallet (\<open>c-pallets/staking\<close>): its data (\<open>lib.rs\<close>), its storage and configuration
  (\<open>pallet/mod.rs\<close>), and the helpers of \<open>pallet/impls.rs\<close> that keep the maps of validators and
  nominators together with the sorted list of voters.

  The voter list, the session pallet and the account references of the framework belong to other
  pallets. Their states are components of the chain state here: the voter list is the list of its
  nodes with their scores, in the order in which it is iterated. How these states change is a
  parameter, and what the pallet relies on is stated by \<open>lock_laws\<close>,
  \<open>voter_laws\<close> and \<open>perbill_mul_laws\<close>.
\<close>

section \<open>Types\<close>

datatype RewardDestination = Staked | StashDest | ControllerDest | AccountDest AccountId | NoDest

datatype StakerStatus = Idle | StatusValidator | StatusNominator "AccountId list"

datatype Forcing = NotForcing | ForceNew | ForceNone | ForceAlways

datatype 'v ConfigOp = Noop | SetOp 'v | RemoveOp

record ActiveEraInfo =
  era_index :: u32
  era_start :: "u64 option"

record EraRewardPoints =
  points_total :: u32
  points_individual :: "AccountId \<rightharpoonup> u32"

record Nominations =
  nom_targets :: "AccountId list"
  submitted_in :: u32
  suppressed :: bool

record IndividualExposure =
  ie_who :: AccountId
  ie_value :: Balance

record Exposure =
  exp_total :: Balance
  exp_own :: Balance
  exp_others :: "IndividualExposure list"

record UnappliedSlash =
  us_validator :: AccountId
  us_own :: Balance
  us_others :: "(AccountId \<times> Balance) list"
  us_reporters :: "AccountId list"
  us_payout :: Balance

record SlashingSpans =
  span_index :: u32
  last_start :: u32
  last_nonzero_slash :: u32
  prior :: "u32 list"

record SpanRecord =
  sr_slashed :: Balance
  sr_paid_out :: Balance

definition EraRewardPoints_default :: EraRewardPoints where
  "EraRewardPoints_default = \<lparr>points_total = 0, points_individual = Map.empty\<rparr>"

definition ValidatorPrefs_default :: ValidatorPrefs where
  "ValidatorPrefs_default = \<lparr>commission = 0, blocked = False\<rparr>"

definition Exposure_default :: Exposure where
  "Exposure_default = \<lparr>exp_total = 0, exp_own = 0, exp_others = []\<rparr>"

definition SpanRecord_default :: SpanRecord where
  "SpanRecord_default = \<lparr>sr_slashed = 0, sr_paid_out = 0\<rparr>"

section \<open>Configuration and storage\<close>

type_synonym voters = "(AccountId \<times> u64) list"
type_synonym consumers = "AccountId \<Rightarrow> u32"
type_synonym session = "AccountId list \<times> u32 list \<times> u32"

record sk_config = st_config +
  HistoryDepth :: u32
  MaxUnlockingChunks :: u32
  MaxNominations :: u32
  MaxWinners :: u32
  SessionsPerEra :: u32
  SlashDeferDuration :: u32
  MaxNominatorRewardedPerValidator :: u32
  OffendingValidatorsThreshold :: u32
  ERAS_PER_YEAR :: u64
  FIRST_YEAR_VALIDATOR_REWARDS :: Balance
  FIRST_YEAR_SMINER_REWARDS :: Balance
  REWARD_DECREASE_RATIO :: u32
  REWARD_DECREASE_YEARS :: u64
  lookup :: "nat \<Rightarrow> dispatch_error + AccountId"
  to_vote :: "Balance \<Rightarrow> Balance \<Rightarrow> u64"
  to_currency :: "u128 \<Rightarrow> Balance \<Rightarrow> Balance"
  cur_total_issuance :: "balances \<Rightarrow> Balance"
  cur_remove_lock :: "AccountId \<Rightarrow> locks \<Rightarrow> locks"
  cur_deposit_creating :: "AccountId \<Rightarrow> Balance \<Rightarrow> balances \<Rightarrow> Balance \<times> balances"
  cur_deposit_into_existing :: "AccountId \<Rightarrow> Balance \<Rightarrow> balances \<Rightarrow> (Balance \<times> balances) option"
  reward_on_unbalanced :: "Balance \<Rightarrow> balances \<Rightarrow> balances"
  sys_inc_consumers :: "AccountId \<Rightarrow> consumers \<Rightarrow> consumers option"
  sys_dec_consumers :: "AccountId \<Rightarrow> consumers \<Rightarrow> consumers"
  voter_on_insert :: "AccountId \<Rightarrow> u64 \<Rightarrow> voters \<Rightarrow> voters option"
  voter_on_update :: "AccountId \<Rightarrow> u64 \<Rightarrow> voters \<Rightarrow> voters option"
  voter_on_remove :: "AccountId \<Rightarrow> voters \<Rightarrow> voters option"
  session_validators :: "session \<Rightarrow> AccountId list"
  session_disable :: "u32 \<Rightarrow> session \<Rightarrow> session"
  session_prune :: "u32 \<Rightarrow> session \<Rightarrow> session"
  slash_cancel_origin :: "origin \<Rightarrow> bool"
  percent_mul_floor :: "u8 \<Rightarrow> u32 \<Rightarrow> u32"
  percent_mul :: "u8 \<Rightarrow> u32 \<Rightarrow> u32"
  perbill_mul_u32 :: "u32 \<Rightarrow> u32 \<Rightarrow> u32"

record sk_state = st_state +
  ValidatorCount :: u32
  MinimumValidatorCount :: u32
  Invulnerables :: "AccountId list"
  MinNominatorBond :: Balance
  MinimumActiveStake :: Balance
  MinCommission :: u32
  Payee :: "AccountId \<rightharpoonup> RewardDestination"
  Validators :: "AccountId \<rightharpoonup> ValidatorPrefs"
  MaxValidatorsCount :: "u32 option"
  Nominators :: "AccountId \<rightharpoonup> Nominations"
  MaxNominatorsCount :: "u32 option"
  ActiveEra :: "ActiveEraInfo option"
  ErasStartSessionIndex :: "u32 \<rightharpoonup> u32"
  ErasStakers :: "u32 \<times> AccountId \<rightharpoonup> Exposure"
  ErasStakersClipped :: "u32 \<times> AccountId \<rightharpoonup> Exposure"
  ErasValidatorPrefs :: "u32 \<times> AccountId \<rightharpoonup> ValidatorPrefs"
  ErasValidatorReward :: "u32 \<rightharpoonup> Balance"
  ErasRewardPoints :: "u32 \<rightharpoonup> EraRewardPoints"
  ErasTotalStake :: "u32 \<rightharpoonup> Balance"
  ForceEra :: Forcing
  SlashRewardFraction :: u32
  CanceledSlashPayout :: Balance
  UnappliedSlashes :: "u32 \<rightharpoonup> UnappliedSlash list"
  BondedEras :: "(u32 \<times> u32) list"
  ValidatorSlashInEra :: "u32 \<times> AccountId \<rightharpoonup> u32 \<times> Balance"
  NominatorSlashInEra :: "u32 \<times> AccountId \<rightharpoonup> Balance"
  StashSpans :: "AccountId \<rightharpoonup> SlashingSpans"
  SpanSlash :: "AccountId \<times> u32 \<rightharpoonup> SpanRecord"
  CurrentPlannedSession :: u32
  OffendingValidators :: "(u32 \<times> bool) list"
  ChillThreshold :: "u8 option"
  voter_list :: voters
  account_consumers :: consumers
  session_state :: session

abbreviation StErr :: "staking_error \<Rightarrow> dispatch_error" where
  "StErr \<equiv> dispatch_error.Staking"

text \<open>The number of entries of a \<open>CountedStorageMap\<close>.\<close>

definition map_count :: "('k \<rightharpoonup> 'v) \<Rightarrow> u32" where
  "map_count m = of_nat (card (dom m))"

section \<open>Stake and votes\<close>

definition slashable_balance_of :: "'s st_state_scheme \<Rightarrow> AccountId \<Rightarrow> Balance" where
  "slashable_balance_of s stash' =
     (case Bonded s stash' of
        None \<Rightarrow> 0
      | Some controller \<Rightarrow> (case Ledger s controller of None \<Rightarrow> 0 | Some l \<Rightarrow> stake_active l))"

definition weight_of :: "'t sk_config_scheme \<Rightarrow> 's st_state_scheme \<Rightarrow> AccountId \<Rightarrow> u64" where
  "weight_of T s who = to_vote T (slashable_balance_of s who) (cur_total_issuance T (balances s))"

text \<open>
  The calls of the voter list. An error of the list is logged and the list left as it is
  (\<open>defensive\<close>).
\<close>

definition voter_contains :: "'s sk_state_scheme \<Rightarrow> AccountId \<Rightarrow> bool" where
  "voter_contains s who \<longleftrightarrow> who \<in> set (map fst (voter_list s))"

definition voter_insert :: "'t sk_config_scheme \<Rightarrow> AccountId \<Rightarrow> ('s sk_state_scheme, unit) act" where
  "voter_insert T who = modify (\<lambda>s.
     case voter_on_insert T who (weight_of T s who) (voter_list s) of
       None \<Rightarrow> s | Some v \<Rightarrow> s\<lparr>voter_list := v\<rparr>)"

definition voter_update :: "'t sk_config_scheme \<Rightarrow> AccountId \<Rightarrow> AccountId \<Rightarrow> ('s sk_state_scheme, unit) act" where
  "voter_update T who weighed = modify (\<lambda>s.
     if voter_contains s who
     then case voter_on_update T who (weight_of T s weighed) (voter_list s) of
            None \<Rightarrow> s | Some v \<Rightarrow> s\<lparr>voter_list := v\<rparr>
     else s)"

definition voter_remove :: "'t sk_config_scheme \<Rightarrow> AccountId \<Rightarrow> ('s sk_state_scheme, unit) act" where
  "voter_remove T who = modify (\<lambda>s.
     case voter_on_remove T who (voter_list s) of None \<Rightarrow> s | Some v \<Rightarrow> s\<lparr>voter_list := v\<rparr>)"

definition do_add_nominator :: "'t sk_config_scheme \<Rightarrow> AccountId \<Rightarrow> Nominations \<Rightarrow> ('s sk_state_scheme, unit) act" where
  "do_add_nominator T who nominations =
     bnd (gets (\<lambda>s. contains_key (Nominators s) who)) (\<lambda>known.
     andthen (act_when (\<not> known) (voter_insert T who))
     (modify (Nominators_update (\<lambda>m. m(who \<mapsto> nominations)))))"

definition do_remove_nominator :: "'t sk_config_scheme \<Rightarrow> AccountId \<Rightarrow> ('s sk_state_scheme, bool) act" where
  "do_remove_nominator T who =
     bnd (gets (\<lambda>s. contains_key (Nominators s) who)) (\<lambda>known.
     if known
     then andthen (modify (Nominators_update (\<lambda>m. m(who := None))))
         (andthen (voter_remove T who)
          (ret True))
     else ret False)"

definition do_add_validator :: "'t sk_config_scheme \<Rightarrow> AccountId \<Rightarrow> ValidatorPrefs \<Rightarrow> ('s sk_state_scheme, unit) act" where
  "do_add_validator T who prefs =
     bnd (gets (\<lambda>s. contains_key (Validators s) who)) (\<lambda>known.
     andthen (act_when (\<not> known) (voter_insert T who))
     (modify (Validators_update (\<lambda>m. m(who \<mapsto> prefs)))))"

definition do_remove_validator :: "'t sk_config_scheme \<Rightarrow> AccountId \<Rightarrow> ('s sk_state_scheme, bool) act" where
  "do_remove_validator T who =
     bnd (gets (\<lambda>s. contains_key (Validators s) who)) (\<lambda>known.
     if known
     then andthen (modify (Validators_update (\<lambda>m. m(who := None))))
         (andthen (voter_remove T who)
          (ret True))
     else ret False)"

definition chill_stash :: "'t sk_config_scheme \<Rightarrow> AccountId \<Rightarrow> ('s sk_state_scheme, unit) act" where
  "chill_stash T stash' =
     bnd (do_remove_validator T stash') (\<lambda>chilled_as_validator.
     bnd (do_remove_nominator T stash') (\<lambda>chilled_as_nominator.
     act_when (chilled_as_validator \<or> chilled_as_nominator) (st_deposit_event (Chilled stash'))))"

definition ensure_new_era :: "('s sk_state_scheme, unit) act" where
  "ensure_new_era =
     bnd (gets ForceEra) (\<lambda>f.
     act_when (f \<noteq> ForceAlways \<and> f \<noteq> ForceNew) (modify (\<lambda>s. s\<lparr>ForceEra := ForceNew\<rparr>)))"

section \<open>What the pallet relies on\<close>

text \<open>
  A lock that is set replaces the one before, unless it is empty; a removed lock is gone.
\<close>

definition lock_laws :: "'t sk_config_scheme \<Rightarrow> bool" where
  "lock_laws T \<longleftrightarrow>
     (\<forall>a v ls. v \<noteq> 0 \<longrightarrow> cur_set_lock T a v ls = ls(a \<mapsto> v)) \<and>
     (\<forall>a ls. \<exists>w. cur_set_lock T a 0 ls = ls(a := w)) \<and>
     (\<forall>a ls. cur_remove_lock T a ls = ls(a := None))"

text \<open>
  The sorted list holds every voter once: an insertion adds a voter that is not in the list, an
  update keeps the voters, a removal takes out one that is in the list.
\<close>

definition voter_laws :: "'t sk_config_scheme \<Rightarrow> bool" where
  "voter_laws T \<longleftrightarrow>
     (\<forall>a w vs. distinct (map fst vs) \<longrightarrow>
        (a \<notin> fst ` set vs \<longrightarrow>
           (\<exists>vs'. voter_on_insert T a w vs = Some vs' \<and> fst ` set vs' = insert a (fst ` set vs) \<and> distinct (map fst vs'))) \<and>
        (a \<in> fst ` set vs \<longrightarrow>
           (\<exists>vs'. voter_on_update T a w vs = Some vs' \<and> fst ` set vs' = fst ` set vs \<and> distinct (map fst vs')) \<and>
           (\<exists>vs'. voter_on_remove T a vs = Some vs' \<and> fst ` set vs' = fst ` set vs - {a} \<and> distinct (map fst vs'))))"

text \<open>Multiplication by a \<open>Perbill\<close> rounds to the nearest number, and \<open>from_rational\<close> rounds down.\<close>

definition perbill_mul_laws :: "'t st_config_scheme \<Rightarrow> bool" where
  "perbill_mul_laws T \<longleftrightarrow>
     (\<forall>p x. unat p \<le> 10 ^ 9 \<longrightarrow>
        2 * 10 ^ 9 * unat (perbill_mul T p x) \<le> 2 * unat p * unat x + 10 ^ 9 \<and>
        2 * unat p * unat x \<le> 2 * 10 ^ 9 * unat (perbill_mul T p x) + 10 ^ 9) \<and>
     (\<forall>a b. a \<le> b \<and> b \<noteq> 0 \<longrightarrow> unat (perbill_from_rational T a b) * unat b \<le> 10 ^ 9 * unat a)"

section \<open>A concrete configuration\<close>

definition sk_conf :: "'t \<Rightarrow> 't sk_config_scheme" where
  "sk_conf more' = st_conf (sk_config_ext 84 32 16 100 6 7 256 170000000 365 238500000 477000000 841000000 30
     Inr (\<lambda>v _. saturated_into v) (\<lambda>v _. v) (\<lambda>_. 1000000)
     (\<lambda>a ls. ls(a := None))
     (\<lambda>a v bs. (v, bs(a := (bs a)\<lparr>free := free (bs a) + v\<rparr>)))
     (\<lambda>a v bs. if free (bs a) = 0 then None else Some (v, bs(a := (bs a)\<lparr>free := free (bs a) + v\<rparr>)))
     (\<lambda>v bs. bs)
     (\<lambda>a c. Some (c(a := c a + 1))) (\<lambda>a c. c(a := c a - 1))
     (\<lambda>a w vs. if a \<in> fst ` set vs then None else Some ((a, w) # vs))
     (\<lambda>a w vs. if a \<in> fst ` set vs then Some (map (\<lambda>(b, v). if b = a then (b, w) else (b, v)) vs) else None)
     (\<lambda>a vs. if a \<in> fst ` set vs then Some (filter (\<lambda>(b, v). b \<noteq> a) vs) else None)
     fst (\<lambda>i (vs, disabled, first). (vs, i # disabled, first)) (\<lambda>up_to (vs, disabled, first). (vs, disabled, up_to))
     (\<lambda>origin. origin = RootOrigin)
     (\<lambda>p x. of_nat (unat p * unat x div 100)) (\<lambda>p x. of_nat (unat p * unat x div 100))
     (\<lambda>p x. of_nat (unat p * unat x div 10 ^ 9)) more')"

lemmas sk_conf_defs = sk_conf_def st_conf_def sm_conf_def ca_conf_def sh_conf_def ref_ext_def

lemma sk_conf_laws: "currency_laws (sk_conf m)" "perbill_laws (sk_conf m)" "iter_laws (sk_conf m)"
  by (simp_all add: sk_conf_def st_conf_laws)

lemma sk_conf_lock_laws: "lock_laws (sk_conf m)"
  by (auto simp: lock_laws_def sk_conf_defs)

lemma sk_conf_voter_laws: "voter_laws (sk_conf m)"
proof -
  have fst: "map (fst \<circ> (\<lambda>(b, v). if b = a then (b, w) else (b, v))) vs = map fst vs" for a w and vs :: voters
    by (induction vs) auto
  moreover have "fst ` (\<lambda>(b, v). if b = a then (b, w) else (b, v)) ` set vs = fst ` set vs" for a w and vs :: voters
    using arg_cong [OF fst, of set] by (simp only: set_map image_comp)
  moreover have "distinct (map fst (filter P vs))" if "distinct (map fst vs)" for P and vs :: voters
    using that by (rule distinct_map_filter)
  ultimately show ?thesis by (auto simp: voter_laws_def sk_conf_defs simp del: map_eq_conv)
qed

lemma ref_from_rational_floor:
  assumes "a \<le> b" and "b \<noteq> 0"
  shows "unat (ref_from_rational a b) * unat b \<le> 10 ^ 9 * unat a"
proof (cases "a = b")
  case True
  then show ?thesis by (simp add: ref_from_rational_def)
next
  case False
  with assms have less: "unat a < unat b" using order_le_imp_less_or_eq by (fastforce simp: word_less_nat_alt)
  have "unat a * 10 ^ 9 div unat b \<le> 10 ^ 9"
    using ref_from_rational_le [of a b] less div_le_mono [of "unat a * 10 ^ 9" "unat b * 10 ^ 9" "unat b"] by simp
  then have "unat (ref_from_rational a b) = unat a * 10 ^ 9 div unat b"
    using less by (simp add: ref_from_rational_def unat_of_nat)
  then show ?thesis using div_times_less_eq_dividend [of "unat a * 10 ^ 9" "unat b"] by (simp add: mult.commute)
qed

lemma sk_conf_perbill_mul: "perbill_mul_laws (sk_conf m)"
  using ref_from_rational_floor ref_mul_near_bounds by (simp add: perbill_mul_laws_def sk_conf_defs)

text \<open>A stash with its controller, which validates; no slashes yet.\<close>

definition ex_sk :: sk_state where
  "ex_sk = ex_sm_with (st_state_ext [30 \<mapsto> 31] [31 \<mapsto> ex_ledger] 1000 (Some 3) [30 \<mapsto> 150] []
     (sk_state_ext 10 1 [] 10 0 0 [30 \<mapsto> Staked] [30 \<mapsto> ValidatorPrefs_default] None Map.empty None
        (Some \<lparr>era_index = 3, era_start = Some 0\<rparr>) [3 \<mapsto> 18] Map.empty Map.empty Map.empty Map.empty Map.empty Map.empty
        NotForcing 100000000 0 Map.empty [(3, 18)] Map.empty Map.empty Map.empty Map.empty 19 [] None
        [(30, 100)] (\<lambda>_. 1) ([30], [], 18) ()))"

lemma ex_sk_fields:
  "Bonded ex_sk = [30 \<mapsto> 31]" "Ledger ex_sk = [31 \<mapsto> ex_ledger]" "StashSpans ex_sk = Map.empty" "SpanSlash ex_sk = Map.empty"
  "Validators ex_sk = [30 \<mapsto> ValidatorPrefs_default]" "Nominators ex_sk = Map.empty" "voter_list ex_sk = [(30, 100)]"
  by (simp_all add: ex_sk_def ex_sm_with_def ex_ca_with_def ex_oss_with_def ex_sh_with_def)

end
