(* ===== verification/Staking_Slashing.thy ===== *)
theory Staking_Slashing
  imports Staking_Pallet
begin

text \<open>
  Slashing (\<open>c-pallets/staking/src/slashing.rs\<close>): the slashing spans of a stash, the slash of a
  validator and its nominators that an offence leads to, the removal of the records, and the
  payment of a slash.

  The lemmas show that the spans of a stash partition the eras from its first one on
  (\<open>spans_wf\<close>), and that all reports within one span together slash a stash for the largest of
  them.
\<close>

section \<open>Spans\<close>

definition REWARD_F1 :: "'t config_scheme \<Rightarrow> u32" where
  "REWARD_F1 T = perbill_from_percent T 50"

record SlashingSpan =
  sp_index :: u32
  sp_start :: u32
  sp_length :: "u32 option"

definition contains_era :: "SlashingSpan \<Rightarrow> u32 \<Rightarrow> bool" where
  "contains_era span era \<longleftrightarrow>
     sp_start span \<le> era \<and> (case sp_length span of None \<Rightarrow> True | Some l \<Rightarrow> sp_start span + l > era)"

definition spans_new :: "u32 \<Rightarrow> SlashingSpans" where
  "spans_new window_start =
     \<lparr>span_index = 0, last_start = window_start, last_nonzero_slash = 0, prior = []\<rparr>"

definition spans_end_span :: "u32 \<Rightarrow> SlashingSpans \<Rightarrow> bool \<times> SlashingSpans" where
  "spans_end_span now spans =
     (let next_start = now + 1
      in if next_start \<le> last_start spans then (False, spans)
         else (True, spans\<lparr>prior := (next_start - last_start spans) # prior spans,
                 last_start := next_start, span_index := span_index spans + 1\<rparr>))"

fun prior_spans :: "u32 \<Rightarrow> u32 \<Rightarrow> u32 list \<Rightarrow> SlashingSpan list" where
  "prior_spans last_start' index [] = []"
| "prior_spans last_start' index (length' # lengths) =
     (let start = last_start' - length'; index = index - 1
      in \<lparr>sp_index = index, sp_start = start, sp_length = Some length'\<rparr> # prior_spans start index lengths)"

definition spans_iter :: "SlashingSpans \<Rightarrow> SlashingSpan list" where
  "spans_iter spans =
     \<lparr>sp_index = span_index spans, sp_start = last_start spans, sp_length = None\<rparr>
       # prior_spans (last_start spans) (span_index spans) (prior spans)"

definition spans_prune :: "u32 \<Rightarrow> SlashingSpans \<Rightarrow> (u32 \<times> u32) option \<times> SlashingSpans" where
  "spans_prune window_start spans =
     (let old_idx = first_position
            (\<lambda>span. case sp_length span of None \<Rightarrow> False | Some len \<Rightarrow> sp_start span + len \<le> window_start)
            (tl (spans_iter spans));
          earliest_span_index = span_index spans - len_as (prior spans);
          (pruned, spans) =
            (case old_idx of
               Some o' \<Rightarrow>
                 let spans = spans\<lparr>prior := take o' (prior spans)\<rparr>;
                     new_earliest = span_index spans - len_as (prior spans)
                 in (Some (earliest_span_index, new_earliest), spans)
             | None \<Rightarrow> (None, spans))
      in (pruned, spans\<lparr>last_start := max (last_start spans) window_start\<rparr>))"

text \<open>
  \<open>InspectingSpans\<close>: the spans of a stash while a slash is worked out. Its two mutable
  references are fields whose values the caller takes over when the structure is dropped.
\<close>

record InspectingSpans =
  insp_dirty :: bool
  insp_window_start :: u32
  insp_stash :: AccountId
  insp_spans :: SlashingSpans
  insp_paid_out :: Balance
  insp_slash_of :: Balance
  insp_reward_proportion :: u32

definition fetch_spans ::
  "AccountId \<Rightarrow> u32 \<Rightarrow> Balance \<Rightarrow> Balance \<Rightarrow> u32 \<Rightarrow> ('s sk_state_scheme, InspectingSpans) act" where
  "fetch_spans stash' window_start paid_out slash_of reward_proportion =
     bnd (gets (\<lambda>s. StashSpans s stash')) (\<lambda>found.
     bnd (case found of
            Some spans \<Rightarrow> ret spans
          | None \<Rightarrow>
              andthen (modify (StashSpans_update (\<lambda>m. m(stash' \<mapsto> spans_new window_start))))
              (ret (spans_new window_start))) (\<lambda>spans.
     ret \<lparr>insp_dirty = False, insp_window_start = window_start, insp_stash = stash', insp_spans = spans,
          insp_paid_out = paid_out, insp_slash_of = slash_of, insp_reward_proportion = reward_proportion\<rparr>))"

definition insp_end_span :: "u32 \<Rightarrow> InspectingSpans \<Rightarrow> InspectingSpans" where
  "insp_end_span now i =
     (case spans_end_span now (insp_spans i) of
        (ended, spans) \<Rightarrow> i\<lparr>insp_spans := spans, insp_dirty := ended \<or> insp_dirty i\<rparr>)"

definition add_slash :: "Balance \<Rightarrow> u32 \<Rightarrow> InspectingSpans \<Rightarrow> InspectingSpans" where
  "add_slash amount' slash_era i =
     i\<lparr>insp_slash_of := insp_slash_of i + amount',
       insp_spans := (insp_spans i)\<lparr>last_nonzero_slash := max (last_nonzero_slash (insp_spans i)) slash_era\<rparr>\<rparr>"

definition era_span :: "SlashingSpans \<Rightarrow> u32 \<Rightarrow> SlashingSpan option" where
  "era_span spans era = find (\<lambda>span. contains_era span era) (spans_iter spans)"

definition compare_and_update_span_slash ::
  "'t st_config_scheme \<Rightarrow> u32 \<Rightarrow> Balance \<Rightarrow> InspectingSpans \<Rightarrow> ('s sk_state_scheme, u32 option \<times> InspectingSpans) act" where
  "compare_and_update_span_slash T slash_era slash i =
     (case era_span (insp_spans i) slash_era of
        None \<Rightarrow> ret (None, i)
      | Some target_span \<Rightarrow>
          let key = (insp_stash i, sp_index target_span) in
          bnd (gets (\<lambda>s. get_or SpanRecord_default (SpanSlash s) key)) (\<lambda>span_record.
          let reward_due = perbill_mul T (REWARD_F1 T)
                (saturating_sub (perbill_mul T (insp_reward_proportion i) slash) (sr_paid_out span_record));
              (reward, record', i', changed) =
                (if sr_slashed span_record < slash
                 then (reward_due, span_record\<lparr>sr_slashed := slash\<rparr>,
                       add_slash (slash - sr_slashed span_record) slash_era i, True)
                 else if sr_slashed span_record = slash then (reward_due, span_record, i, False)
                 else (0, span_record, i, False));
              (record', i', changed) =
                (if reward \<noteq> 0
                 then (record'\<lparr>sr_paid_out := sr_paid_out record' + reward\<rparr>,
                       i'\<lparr>insp_paid_out := insp_paid_out i' + reward\<rparr>, True)
                 else (record', i', changed))
          in if changed
             then andthen (modify (SpanSlash_update (\<lambda>m. m(key \<mapsto> record'))))
                  (ret (Some (sp_index target_span), i'\<lparr>insp_dirty := True\<rparr>))
             else ret (Some (sp_index target_span), i')))"

definition drop_spans :: "InspectingSpans \<Rightarrow> ('s sk_state_scheme, unit) act" where
  "drop_spans i =
     (if \<not> insp_dirty i then ret ()
      else
        case spans_prune (insp_window_start i) (insp_spans i) of
          (pruned, spans) \<Rightarrow>
            andthen (case pruned of
                       None \<Rightarrow> ret ()
                     | Some (start', end') \<Rightarrow>
                         for_each (\<lambda>index. modify (SpanSlash_update (\<lambda>m. m((insp_stash i, of_nat index) := None))))
                           [unat start'..<unat end'])
            (modify (StashSpans_update (\<lambda>m. m(insp_stash i \<mapsto> spans)))))"

section \<open>Computing a slash\<close>

datatype DisableStrategy = DisableNever | DisableWhenSlashed | DisableAlways

record SlashParams =
  p_stash :: AccountId
  p_slash :: u32
  p_exposure :: Exposure
  p_slash_era :: u32
  p_window_start :: u32
  p_now :: u32
  p_reward_proportion :: u32
  p_disable_strategy :: DisableStrategy

text \<open>\<open>binary_search_by_key\<close> on a sorted list: the index of the key, or the place where it belongs.\<close>

definition binary_search :: "u32 \<Rightarrow> u32 list \<Rightarrow> nat + nat" where
  "binary_search k ks =
     (case first_position (\<lambda>k'. k' = k) ks of
        Some i \<Rightarrow> Inr i
      | None \<Rightarrow> Inl (length (takeWhile (\<lambda>k'. k' < k) ks)))"

definition vec_insert :: "nat \<Rightarrow> 'a \<Rightarrow> 'a list \<Rightarrow> 'a list" where
  "vec_insert i x xs = take i xs @ x # drop i xs"

definition add_offending_validator :: "'t sk_config_scheme \<Rightarrow> AccountId \<Rightarrow> bool \<Rightarrow> ('s sk_state_scheme, unit) act" where
  "add_offending_validator T stash' disable =
     bnd (gets OffendingValidators) (\<lambda>offending.
     bnd (gets (\<lambda>s. session_validators T (session_state s))) (\<lambda>validators.
     (case first_position (\<lambda>v. v = stash') validators of
        None \<Rightarrow> ret ()
      | Some validator_index \<Rightarrow>
          let index = of_nat validator_index;
              disable_it = modify (\<lambda>s. s\<lparr>session_state := session_disable T index (session_state s)\<rparr>)
          in (case binary_search index (map fst offending) of
                Inl pos \<Rightarrow>
                  let offending' = vec_insert pos (index, disable) offending;
                      offending_threshold = perbill_mul_u32 T (OffendingValidatorsThreshold T) (len_as validators)
                  in andthen (act_when (length offending' \<ge> unat offending_threshold) ensure_new_era)
                    (andthen (act_when disable disable_it)
                     (modify (\<lambda>s. s\<lparr>OffendingValidators := offending'\<rparr>)))
              | Inr pos \<Rightarrow>
                  act_when (disable \<and> \<not> snd (offending ! pos))
                    (andthen disable_it
                     (modify (\<lambda>s. s\<lparr>OffendingValidators := offending[pos := (index, True)]\<rparr>)))))))"

definition kick_out_if_recent :: "'t sk_config_scheme \<Rightarrow> SlashParams \<Rightarrow> ('s sk_state_scheme, unit) act" where
  "kick_out_if_recent T params =
     bnd (fetch_spans (p_stash params) (p_window_start params) 0 0 (p_reward_proportion params)) (\<lambda>i.
     bnd (if map_option sp_index (era_span (insp_spans i) (p_slash_era params)) = Some (span_index (insp_spans i))
          then andthen (chill_stash T (p_stash params)) (ret (insp_end_span (p_now params) i))
          else ret i) (\<lambda>i.
     andthen (add_offending_validator T (p_stash params) (p_disable_strategy params = DisableAlways))
     (drop_spans i)))"

text \<open>Slashes one nominator; \<open>acc\<close> is the reward so far and the nominators slashed so far.\<close>

definition slash_nominator ::
  "'t sk_config_scheme \<Rightarrow> SlashParams \<Rightarrow> u32 \<Rightarrow> IndividualExposure \<Rightarrow> Balance \<times> (AccountId \<times> Balance) list
     \<Rightarrow> ('s sk_state_scheme, Balance \<times> (AccountId \<times> Balance) list) act" where
  "slash_nominator T params prior_slash_p nominator acc =
     (case acc of (reward_payout, nominators_slashed) \<Rightarrow>
      let stash' = ie_who nominator;
          key = (p_slash_era params, stash');
          own_slash_prior = perbill_mul T prior_slash_p (ie_value nominator);
          own_slash_by_validator = perbill_mul T (p_slash params) (ie_value nominator);
          own_slash_difference = saturating_sub own_slash_by_validator own_slash_prior
      in bnd (gets (\<lambda>s. get_or 0 (NominatorSlashInEra s) key + own_slash_difference)) (\<lambda>era_slash.
         andthen (modify (NominatorSlashInEra_update (\<lambda>m. m(key \<mapsto> era_slash))))
        (bnd (fetch_spans stash' (p_window_start params) reward_payout 0 (p_reward_proportion params)) (\<lambda>i.
         bnd (compare_and_update_span_slash T (p_slash_era params) era_slash i) (\<lambda>(target_span, i).
         let i = (if target_span = Some (span_index (insp_spans i)) then insp_end_span (p_now params) i else i)
         in andthen (drop_spans i)
            (ret (insp_paid_out i, nominators_slashed @ [(stash', insp_slash_of i)])))))))"

definition slash_nominators ::
  "'t sk_config_scheme \<Rightarrow> SlashParams \<Rightarrow> u32 \<Rightarrow> ('s sk_state_scheme, Balance \<times> (AccountId \<times> Balance) list) act" where
  "slash_nominators T params prior_slash_p =
     fold_act (slash_nominator T params prior_slash_p) (exp_others (p_exposure params)) (0, [])"

definition compute_slash :: "'t sk_config_scheme \<Rightarrow> SlashParams \<Rightarrow> ('s sk_state_scheme, UnappliedSlash option) act" where
  "compute_slash T params =
     (let own_slash = perbill_mul T (p_slash params) (exp_own (p_exposure params));
          key = (p_slash_era params, p_stash params)
      in if perbill_mul T (p_slash params) (exp_total (p_exposure params)) = 0
         then andthen (kick_out_if_recent T params) (ret None)
         else
           bnd (gets (\<lambda>s. case ValidatorSlashInEra s key of None \<Rightarrow> 0 | Some (p, _) \<Rightarrow> p)) (\<lambda>prior_slash_p.
           if \<not> p_slash params > prior_slash_p then ret None
           else
             andthen (modify (ValidatorSlashInEra_update (\<lambda>m. m(key \<mapsto> (p_slash params, own_slash)))))
            (bnd (fetch_spans (p_stash params) (p_window_start params) 0 0 (p_reward_proportion params)) (\<lambda>i.
             bnd (compare_and_update_span_slash T (p_slash_era params) own_slash i) (\<lambda>(target_span, i).
             bnd (if target_span = Some (span_index (insp_spans i))
                  then andthen (chill_stash T (p_stash params)) (ret (insp_end_span (p_now params) i))
                  else ret i) (\<lambda>i.
             andthen (drop_spans i)
            (andthen (add_offending_validator T (p_stash params) (p_disable_strategy params \<noteq> DisableNever))
            (bnd (slash_nominators T params prior_slash_p) (\<lambda>(reward, nominators_slashed).
             ret (Some \<lparr>us_validator = p_stash params, us_own = insp_slash_of i, us_others = nominators_slashed,
                        us_reporters = [], us_payout = insp_paid_out i + reward\<rparr>))))))))))"

section \<open>Clearing and applying\<close>

definition clear_era_metadata :: "u32 \<Rightarrow> ('s sk_state_scheme, unit) act" where
  "clear_era_metadata obsolete_era =
     andthen (modify (ValidatorSlashInEra_update (\<lambda>m. remove_prefix m obsolete_era)))
     (modify (NominatorSlashInEra_update (\<lambda>m. remove_prefix m obsolete_era)))"

definition clear_stash_metadata :: "AccountId \<Rightarrow> u32 \<Rightarrow> ('s sk_state_scheme, unit) act" where
  "clear_stash_metadata stash' num_slashing_spans =
     bnd (gets (\<lambda>s. StashSpans s stash')) (\<lambda>found.
     (case found of
        None \<Rightarrow> ret ()
      | Some spans \<Rightarrow>
          andthen (ensure (unat num_slashing_spans \<ge> length (spans_iter spans)) (StErr ST_IncorrectSlashingSpans))
         (andthen (modify (StashSpans_update (\<lambda>m. m(stash' := None))))
          (for_each (\<lambda>span. modify (SpanSlash_update (\<lambda>m. m((stash', sp_index span) := None)))) (spans_iter spans)))))"

text \<open>
  Imbalances are the amounts they stand for. The rewards of the reporters are split off the
  slashed imbalance, the rest goes to the handler of slashed funds.
\<close>

definition pay_reporters :: "'t st_config_scheme \<Rightarrow> Balance \<Rightarrow> Balance \<Rightarrow> AccountId list \<Rightarrow> ('s st_state_scheme, unit) act" where
  "pay_reporters T reward_payout slashed_imbalance reporters =
     (if reward_payout = 0 \<or> reporters = []
      then modify (\<lambda>s. s\<lparr>balances := slash_on_unbalanced T slashed_imbalance (balances s)\<rparr>)
      else
        let reward_payout = min reward_payout slashed_imbalance;
            value_slashed = slashed_imbalance - reward_payout;
            per_reporter = reward_payout div ucast (len_as reporters :: u32)
        in bnd (fold_act (\<lambda>reporter reward_payout.
                  let reporter_reward = min per_reporter reward_payout
                  in andthen (modify (\<lambda>s. s\<lparr>balances := cur_resolve_creating T reporter reporter_reward (balances s)\<rparr>))
                     (ret (reward_payout - reporter_reward))) reporters reward_payout) (\<lambda>rest.
           modify (\<lambda>s. s\<lparr>balances := slash_on_unbalanced T (value_slashed + rest) (balances s)\<rparr>)))"

definition apply_slash :: "'t st_config_scheme \<Rightarrow> UnappliedSlash \<Rightarrow> u32 \<Rightarrow> ('s st_state_scheme, unit) act" where
  "apply_slash T unapplied_slash slash_era =
     bnd (do_slash T (us_validator unapplied_slash) (us_own unapplied_slash) (us_payout unapplied_slash) 0 slash_era)
       (\<lambda>(reward_payout, slashed_imbalance).
     bnd (fold_act (\<lambda>(nominator, nominator_slash) (reward_payout, slashed_imbalance).
            do_slash T nominator nominator_slash reward_payout slashed_imbalance slash_era)
            (us_others unapplied_slash) (reward_payout, slashed_imbalance)) (\<lambda>(reward_payout, slashed_imbalance).
     pay_reporters T reward_payout slashed_imbalance (us_reporters unapplied_slash)))"

text \<open>The slash of a scheduler is a slash without nominators, reporters and payout.\<close>

lemma apply_slash_scheduler:
  "apply_scheduler_slash T validator own slash_era =
     apply_slash T \<lparr>us_validator = validator, us_own = own, us_others = [], us_reporters = [], us_payout = 0\<rparr> slash_era"
  by (rule ext) (simp add: apply_scheduler_slash_def apply_slash_def pay_reporters_def bnd_def ret_def split_beta split: sum.split)

section \<open>The spans partition the eras\<close>

definition lengths_sum :: "u32 list \<Rightarrow> nat" where
  "lengths_sum ls = sum_list (map unat ls)"

definition spans_wf :: "SlashingSpans \<Rightarrow> bool" where
  "spans_wf spans \<longleftrightarrow> lengths_sum (prior spans) \<le> unat (last_start spans) \<and>
     length (prior spans) \<le> unat (span_index spans) \<and> 0 \<notin> set (prior spans)"

text \<open>The first era that is covered.\<close>

definition first_era :: "SlashingSpans \<Rightarrow> nat" where
  "first_era spans = unat (last_start spans) - lengths_sum (prior spans)"

lemma lengths_sum_simps [simp]: "lengths_sum [] = 0" "lengths_sum (l # ls) = unat l + lengths_sum ls"
  by (simp_all add: lengths_sum_def)

lemma contains_prior:
  assumes "unat l \<le> unat e"
  shows "contains_era \<lparr>sp_index = k, sp_start = e - l, sp_length = Some l\<rparr> era \<longleftrightarrow>
    unat e - unat l \<le> unat era \<and> unat era < unat e"
  using assms by (simp add: contains_era_def word_order unat_minus_eq)

lemma find_prior_before:
  assumes "unat e \<le> unat era" and "lengths_sum ls \<le> unat e"
  shows "find (\<lambda>span. contains_era span era) (prior_spans e k ls) = None"
  using assms
proof (induction e k ls rule: prior_spans.induct)
  case (2 e k l ls)
  then show ?case
    using contains_prior [of l e "k - 1" era] by (simp add: Let_def unat_minus_eq)
qed simp

lemma filter_prior:
  assumes "lengths_sum ls \<le> unat e"
  shows "length (filter (\<lambda>span. contains_era span era) (prior_spans e k ls)) =
     (if unat e - lengths_sum ls \<le> unat era \<and> unat era < unat e then 1 else 0)"
  using assms
proof (induction e k ls rule: prior_spans.induct)
  case (2 e k l ls)
  then have "unat (e - l) = unat e - unat l" by (simp add: unat_minus_eq)
  with 2 contains_prior [of l e "k - 1" era] show ?case by (auto simp: Let_def)
qed simp

lemma prior_indices:
  assumes "length ls \<le> unat k"
  shows "(\<lambda>span. unat (sp_index span)) ` set (prior_spans e k ls) = {unat k - length ls..<unat k}"
  using assms
proof (induction e k ls rule: prior_spans.induct)
  case (2 e k l ls)
  then have "unat (k - 1) = unat k - 1" by (simp add: unat_minus_eq)
  with 2 show ?case by (auto simp: Let_def)
qed simp

lemma length_prior_spans [simp]: "length (prior_spans e k ls) = length ls"
  by (induction e k ls rule: prior_spans.induct) (simp_all add: Let_def)

lemma first_position_less: "first_position P xs = Some i \<Longrightarrow> i < length xs"
  by (induction xs arbitrary: i) (auto split: if_splits)

text \<open>A span that ends before the window, and with it all older ones.\<close>

definition outdated :: "u32 \<Rightarrow> SlashingSpan \<Rightarrow> bool" where
  "outdated window span \<longleftrightarrow> (case sp_length span of None \<Rightarrow> False | Some len \<Rightarrow> sp_start span + len \<le> window)"

definition kept :: "u32 \<Rightarrow> SlashingSpans \<Rightarrow> u32 list" where
  "kept window spans =
     (case first_position (outdated window) (tl (spans_iter spans)) of
        None \<Rightarrow> prior spans | Some n \<Rightarrow> take n (prior spans))"

lemma prune_prior:
  assumes "lengths_sum ls \<le> unat e" and "window \<le> era"
  shows "find (\<lambda>span. contains_era span era)
      (prior_spans e k (case first_position (outdated window) (prior_spans e k ls) of None \<Rightarrow> ls | Some n \<Rightarrow> take n ls)) =
    find (\<lambda>span. contains_era span era) (prior_spans e k ls)"
  using assms
proof (induction e k ls rule: prior_spans.induct)
  case (2 e k l ls)
  have old: "outdated window \<lparr>sp_index = k - 1, sp_start = e - l, sp_length = Some l\<rparr> \<longleftrightarrow> e \<le> window"
    by (simp add: outdated_def)
  show ?case
  proof (cases "e \<le> window")
    case True
    then have "unat e \<le> unat era" using 2 by (simp add: word_order)
    then have "find (\<lambda>span. contains_era span era) (prior_spans e k (l # ls)) = None"
      using 2 by (intro find_prior_before)
    with True old show ?thesis by (simp add: Let_def)
  next
    case False
    have "lengths_sum ls \<le> unat (e - l)" using 2 by (simp add: unat_minus_eq)
    with False old 2 show ?thesis
      by (cases "first_position (outdated window) (prior_spans (e - l) (k - 1) ls)") (auto simp: Let_def)
  qed
qed simp

lemma spans_prune_run:
  "spans_prune window spans =
     ((if kept window spans = prior spans then None
       else Some (span_index spans - len_as (prior spans), span_index spans - len_as (kept window spans))),
      spans\<lparr>prior := kept window spans, last_start := max (last_start spans) window\<rparr>)"
proof -
  have "take n (prior spans) = prior spans \<longleftrightarrow> False"
    if "first_position (outdated window) (tl (spans_iter spans)) = Some n" for n
    using first_position_less [OF that] by (auto simp: spans_iter_def take_all_iff)
  moreover have "(\<lambda>span. case sp_length span of None \<Rightarrow> False | Some len \<Rightarrow> sp_start span + len \<le> window) = outdated window"
    by (rule ext) (simp add: outdated_def)
  ultimately show ?thesis
    by (simp only: spans_prune_def kept_def Let_def) (auto split: option.splits)
qed

lemma kept_prefix: "\<exists>n. kept window spans = take n (prior spans)"
  by (auto simp: kept_def intro: exI [of _ "length (prior spans)"] split: option.splits)

lemma kept_none:
  assumes "last_start spans < window" shows "kept window spans = []"
  using assms
  by (cases "prior spans") (auto simp: kept_def spans_iter_def Let_def outdated_def split: option.splits)

lemma lengths_sum_take: "lengths_sum (take n ls) \<le> lengths_sum ls"
  by (induction ls arbitrary: n) (auto simp: take_Cons split: nat.splits)

lemma spans_prune_wf:
  assumes "spans_wf spans"
  shows "spans_wf (snd (spans_prune window spans))"
proof -
  obtain n where n: "kept window spans = take n (prior spans)" using kept_prefix by blast
  show ?thesis
  proof (cases "last_start spans < window")
    case True
    with kept_none show ?thesis by (simp add: spans_prune_run spans_wf_def)
  next
    case False
    with n assms lengths_sum_take [of n "prior spans"] show ?thesis
      by (auto simp: spans_prune_run spans_wf_def max_def dest: in_set_takeD)
  qed
qed

definition span_of :: "SlashingSpans \<Rightarrow> u32 \<Rightarrow> u32 option" where
  "span_of spans era = map_option sp_index (era_span spans era)"

lemma spans_prune_era:
  assumes "spans_wf spans" and "window \<le> era"
  shows "span_of (snd (spans_prune window spans)) era = span_of spans era"
proof (cases "last_start spans < window")
  case True
  moreover have "last_start spans \<le> era" using True assms(2) by simp
  moreover note assms kept_none [OF True]
  ultimately show ?thesis
    by (simp add: span_of_def spans_prune_run era_span_def spans_iter_def contains_era_def max_def)
next
  case False
  have "find (\<lambda>span. contains_era span era) (prior_spans (last_start spans) (span_index spans) (kept window spans)) =
      find (\<lambda>span. contains_era span era) (prior_spans (last_start spans) (span_index spans) (prior spans))"
    using prune_prior [of "prior spans" "last_start spans" window era "span_index spans"] assms
    by (simp add: spans_wf_def kept_def spans_iter_def)
  with False show ?thesis
    by (simp add: span_of_def spans_prune_run era_span_def spans_iter_def contains_era_def max_def)
qed

lemma spans_end_wf:
  assumes "spans_wf spans" and "unat now + 1 < 2 ^ 32" and "unat (span_index spans) + 1 < 2 ^ 32"
  shows "spans_wf (snd (spans_end_span now spans))"
proof -
  have "unat (now + 1) = unat now + 1" "unat (span_index spans + 1) = unat (span_index spans) + 1"
    using assms(2,3) by (simp_all add: unat_add_eq)
  with assms(1) show ?thesis
    by (auto simp: spans_end_span_def spans_wf_def Let_def unat_minus_eq word_order)
qed

lemma spans_end_era:
  assumes "unat now + 1 < 2 ^ 32" and "spans_end_span now spans = (True, spans')"
  shows "span_of spans' era = (if era \<le> now then span_of spans era else Some (span_index spans + 1))"
proof -
  have now: "unat (now + 1) = unat now + 1" using assms(1) by (simp add: unat_add_eq)
  have later: "last_start spans < now + 1"
    and spans': "spans' = spans\<lparr>prior := (now + 1 - last_start spans) # prior spans, last_start := now + 1,
      span_index := span_index spans + 1\<rparr>"
    using assms(2) by (auto simp: spans_end_span_def Let_def split: if_splits)
  have "now + 1 \<le> era \<longleftrightarrow> \<not> era \<le> now" "era < now + 1 \<longleftrightarrow> era \<le> now" using now by (auto simp: word_order)
  then show ?thesis
    by (simp add: spans' span_of_def era_span_def spans_iter_def Let_def contains_era_def)
qed

lemma spans_indices:
  assumes "length (prior spans) \<le> unat (span_index spans)"
  shows "unat ` sp_index ` set (spans_iter spans) = {unat (span_index spans) - length (prior spans)..unat (span_index spans)}"
  using assms prior_indices [OF assms, of "last_start spans"] by (auto simp: spans_iter_def image_image)

lemma unat_index_minus:
  assumes "length ls \<le> unat (k :: u32)"
  shows "unat (k - len_as ls) = unat k - length ls"
proof -
  have "unat (len_as ls :: u32) = length ls" using assms unat_lt [of k] by (simp add: unat_len_as)
  with assms show ?thesis by (simp add: unat_minus_eq)
qed

lemma spans_prune_indices:
  assumes "spans_wf spans" and "spans_prune window spans = (pruned, spans')"
  shows "unat ` sp_index ` set (spans_iter spans) =
      unat ` sp_index ` set (spans_iter spans') \<union> (case pruned of None \<Rightarrow> {} | Some (a, b) \<Rightarrow> {unat a..<unat b})"
proof -
  obtain n where n: "kept window spans = take n (prior spans)" using kept_prefix by blast
  have long: "length (prior spans) \<le> unat (span_index spans)" "length (kept window spans) \<le> length (prior spans)"
    using assms(1) n by (simp_all add: spans_wf_def)
  moreover have "prior spans' = kept window spans" "span_index spans' = span_index spans"
    using assms(2) by (auto simp: spans_prune_run)
  moreover have "pruned = (if kept window spans = prior spans then None
      else Some (span_index spans - len_as (prior spans), span_index spans - len_as (kept window spans)))"
    using assms(2) by (simp add: spans_prune_run)
  ultimately show ?thesis by (auto simp: spans_indices unat_index_minus)
qed

lemma spans_cover:
  assumes "spans_wf spans"
  shows "length (filter (\<lambda>span. contains_era span era) (spans_iter spans)) = (if first_era spans \<le> unat era then 1 else 0)"
proof -
  let ?now = "\<lparr>sp_index = span_index spans, sp_start = last_start spans, sp_length = None\<rparr>"
  have "contains_era ?now era \<longleftrightarrow> unat (last_start spans) \<le> unat era" by (simp add: contains_era_def word_order)
  with assms filter_prior [of "prior spans" "last_start spans" era "span_index spans"] show ?thesis
    by (auto simp: spans_wf_def first_era_def spans_iter_def split: if_splits)
qed


text \<open>Eras 3 and 4 were one span, 5 to 9 the next; the ongoing one starts at 10.\<close>

definition ex_spans :: SlashingSpans where
  "ex_spans = \<lparr>span_index = 2, last_start = 10, last_nonzero_slash = 0, prior = [5, 2]\<rparr>"


section \<open>Slashed for the maximum of a span\<close>

lemma perbill_mul_near:
  assumes "perbill_mul_laws T" and "unat p \<le> 10 ^ 9"
  shows "2 * 10 ^ 9 * unat (perbill_mul T p x) \<le> 2 * (unat p * unat x) + 10 ^ 9"
    and "2 * (unat p * unat x) \<le> 2 * 10 ^ 9 * unat (perbill_mul T p x) + 10 ^ 9"
  using assms unfolding perbill_mul_laws_def by (simp_all only: mult.assoc)

lemma perbill_mul_mono:
  assumes "perbill_mul_laws T" and "unat p \<le> 10 ^ 9" and "x \<le> y"
  shows "perbill_mul T p x \<le> perbill_mul T p y"
proof -
  note near = perbill_mul_near [OF assms(1,2)]
  consider "x = y" | "unat p = 0" | "x < y" "0 < unat p" using assms(3) order_le_imp_less_or_eq by blast
  then show ?thesis
  proof cases
    case 2
    then have "unat (perbill_mul T p x) = 0" using near(1) [of x] by simp
    then show ?thesis by (simp add: word_order)
  next
    case 3
    then have less: "unat p * unat x < unat p * unat y" by (simp add: word_less_nat_alt)
    have "10 ^ 9 * unat (perbill_mul T p x) < 10 ^ 9 * (unat (perbill_mul T p y) + 1)"
      using less near(1) [of x] near(2) [of y] unfolding distrib_left by linarith
    then have "unat (perbill_mul T p x) \<le> unat (perbill_mul T p y)" by (subst (asm) nat_mult_less_cancel1) simp_all
    then show ?thesis by (simp add: word_order)
  qed simp
qed

lemma half_le:
  assumes "perbill_mul_laws T" and "perbill_laws T"
  shows "perbill_mul T (REWARD_F1 T) x \<le> x"
proof -
  have half: "unat (REWARD_F1 T) = 5 * 10 ^ 8" using assms(2) by (simp add: REWARD_F1_def perbill_laws_def)
  then have "2 * unat (perbill_mul T (REWARD_F1 T) x) \<le> unat x + 1"
    using perbill_mul_near(1) [OF assms(1), of "REWARD_F1 T" x] by simp
  then show ?thesis by (simp add: word_order)
qed

text \<open>What one report does to the record of its span.\<close>

definition span_record :: "InspectingSpans \<Rightarrow> u32 \<Rightarrow> 's sk_state_scheme \<Rightarrow> SpanRecord" where
  "span_record i k s = get_or SpanRecord_default (SpanSlash s) (insp_stash i, k)"

lemma wp_compare_and_update:
  assumes "span_of (insp_spans i) era = Some k"
  shows "wp (compare_and_update_span_slash T era slash i) (\<lambda>(found, i') t.
      found = Some k \<and> insp_stash i' = insp_stash i \<and> insp_reward_proportion i' = insp_reward_proportion i \<and>
      span_of (insp_spans i') = span_of (insp_spans i) \<and>
      sr_slashed (span_record i k t) = max (sr_slashed (span_record i k s)) slash \<and>
      insp_slash_of i' - insp_slash_of i = sr_slashed (span_record i k t) - sr_slashed (span_record i k s) \<and>
      (\<exists>reward. sr_paid_out (span_record i k t) = sr_paid_out (span_record i k s) + reward \<and>
         insp_paid_out i' = insp_paid_out i + reward \<and>
         (reward = 0 \<or> sr_slashed (span_record i k t) = slash \<and>
            reward = perbill_mul T (REWARD_F1 T)
              (saturating_sub (perbill_mul T (insp_reward_proportion i) slash) (sr_paid_out (span_record i k s))))))
      no_error s"
proof -
  obtain sp where sp: "era_span (insp_spans i) era = Some sp" "sp_index sp = k" using assms by (auto simp: span_of_def)
  have keep: "span_of (spans\<lparr>last_nonzero_slash := e\<rparr>) = span_of spans" for spans e
    by (simp add: span_of_def era_span_def spans_iter_def fun_eq_iff)
  define r where "r = span_record i k s"
  have r: "get_or SpanRecord_default (SpanSlash s) (insp_stash i, k) = r" by (simp add: r_def span_record_def)
  define due where "due = perbill_mul T (REWARD_F1 T)
      (saturating_sub (perbill_mul T (insp_reward_proportion i) slash) (sr_paid_out r))"
  have upd: "span_record i k (SpanSlash_update (\<lambda>m. m((insp_stash i, k) \<mapsto> v)) s) = v" for v
    by (simp add: span_record_def)
  note run = compare_and_update_span_slash_def sp option.case Let_def wp_bnd wp_gets wp_andthen wp_modify wp_ret r
  consider "sr_slashed r < slash" | "sr_slashed r = slash" | "\<not> sr_slashed r < slash" "sr_slashed r \<noteq> slash" "sr_slashed r > slash"
    using linorder_less_linear [of "sr_slashed r" slash] by (auto simp: not_less)
  then show ?thesis
  proof cases
    case 1
    moreover from 1 have "max (sr_slashed r) slash = slash" by (intro max_absorb2 less_imp_le)
    ultimately show ?thesis
      by (cases "due = 0") (simp_all add: run due_def [symmetric] r_def [symmetric] upd add_slash_def keep)
  next
    case 2
    then show ?thesis
      by (cases "due = 0") (simp_all add: run due_def [symmetric] r_def [symmetric] upd add_slash_def keep)
  next
    case 3
    moreover from 3 have "max (sr_slashed r) slash = sr_slashed r" by (intro max_absorb1 less_imp_le)
    ultimately show ?thesis
      by (simp add: run due_def [symmetric] r_def [symmetric] upd add_slash_def keep)
  qed
qed

lemma Max_insert_max: "finite S \<Longrightarrow> Max (insert (max p q) S) = Max (insert q (insert p S))" for p q :: nat
  by (cases "S = {}") (simp_all add: max.assoc max.commute max.left_commute)

lemma fold_max_unat: "unat (fold max xs (a :: 'a::len word)) = Max (insert (unat a) (unat ` set xs))"
proof (induction xs arbitrary: a)
  case (Cons x xs)
  have "unat (max x a) = max (unat x) (unat a)" by (simp add: max_def word_le_nat_alt)
  with Cons show ?case by (simp only: fold.simps comp_apply list.set image_insert Max_insert_max finite_imageI finite_set)
qed simp

definition span_reports :: "'t sk_config_scheme \<Rightarrow> (u32 \<times> Balance) list \<Rightarrow> InspectingSpans \<Rightarrow> ('s sk_state_scheme, InspectingSpans) act" where
  "span_reports T =
     fold_act (\<lambda>(era, slash) i. bnd (compare_and_update_span_slash T era slash i) (\<lambda>(_, i). ret i))"

definition paid_within :: "'t st_config_scheme \<Rightarrow> u32 \<Rightarrow> SpanRecord \<Rightarrow> bool" where
  "paid_within T proportion r \<longleftrightarrow> sr_paid_out r \<le> perbill_mul T proportion (sr_slashed r)"

text \<open>The state of the record and of the amounts after some reports.\<close>

definition reports_done ::
  "'t st_config_scheme \<Rightarrow> InspectingSpans \<Rightarrow> u32 \<Rightarrow> SpanRecord \<Rightarrow> (u32 \<times> Balance) list \<Rightarrow> InspectingSpans \<Rightarrow> 's sk_state_scheme \<Rightarrow> bool" where
  "reports_done T i k r0 rs j t \<longleftrightarrow>
     insp_stash j = insp_stash i \<and> insp_reward_proportion j = insp_reward_proportion i \<and>
     span_of (insp_spans j) = span_of (insp_spans i) \<and>
     sr_slashed (span_record i k t) = fold max (map snd rs) (sr_slashed r0) \<and>
     insp_slash_of j - insp_slash_of i = sr_slashed (span_record i k t) - sr_slashed r0 \<and>
     insp_paid_out j - insp_paid_out i = sr_paid_out (span_record i k t) - sr_paid_out r0 \<and>
     sr_paid_out r0 \<le> sr_paid_out (span_record i k t) \<and>
     paid_within T (insp_reward_proportion i) (span_record i k t)"

lemma reward_within:
  assumes laws: "perbill_mul_laws T" "perbill_laws T" "unat p \<le> 10 ^ 9"
    and paid: "paid_within T p r" and slash: "sr_slashed r \<le> slash"
    and reward: "reward = perbill_mul T (REWARD_F1 T) (saturating_sub (perbill_mul T p slash) (sr_paid_out r))"
  shows "unat (sr_paid_out r) + unat reward \<le> unat (perbill_mul T p slash)"
proof -
  have "sr_paid_out r \<le> perbill_mul T p slash"
    using paid perbill_mul_mono [OF laws(1,3) slash] by (simp add: paid_within_def)
  moreover have "reward \<le> saturating_sub (perbill_mul T p slash) (sr_paid_out r)"
    unfolding reward by (rule half_le [OF laws(1,2)])
  ultimately show ?thesis by (simp add: word_order)
qed

lemma paid_out_step:
  assumes laws: "perbill_mul_laws T" "perbill_laws T" "unat p \<le> 10 ^ 9"
    and within: "paid_within T p r" and slashed: "sr_slashed r' = max (sr_slashed r) slash"
    and paid: "sr_paid_out r' = sr_paid_out r + reward"
    and reward: "reward = 0 \<or> sr_slashed r' = slash \<and>
      reward = perbill_mul T (REWARD_F1 T) (saturating_sub (perbill_mul T p slash) (sr_paid_out r))"
  shows "sr_paid_out r \<le> sr_paid_out r'" and "paid_within T p r'"
proof -
  have "unat (sr_paid_out r) + unat reward \<le> unat (perbill_mul T p (sr_slashed r'))"
  proof (cases "reward = 0")
    case True
    have "perbill_mul T p (sr_slashed r) \<le> perbill_mul T p (sr_slashed r')"
      using slashed by (intro perbill_mul_mono [OF laws(1,3)]) simp
    with True within show ?thesis by (simp add: paid_within_def word_order)
  next
    case False
    with reward have eq: "sr_slashed r' = slash"
      "reward = perbill_mul T (REWARD_F1 T) (saturating_sub (perbill_mul T p slash) (sr_paid_out r))" by auto
    then have "sr_slashed r \<le> slash" using slashed by (metis max.cobounded1)
    from reward_within [OF laws within this eq(2)] eq(1) show ?thesis by simp
  qed
  moreover from this have "unat (sr_paid_out r') = unat (sr_paid_out r) + unat reward"
    unfolding paid by (intro unat_add_eq order.strict_trans1 [OF _ unat_lt])
  ultimately show "sr_paid_out r \<le> sr_paid_out r'" and "paid_within T p r'"
    by (simp_all add: paid_within_def word_order)
qed

lemma report_done:
  assumes laws: "perbill_mul_laws T" "perbill_laws T" "unat (insp_reward_proportion i) \<le> 10 ^ 9"
    and covered: "span_of (insp_spans i) era = Some k" and so_far: "reports_done T i k r0 rs j t"
  shows "wp (bnd (compare_and_update_span_slash T era slash j) (\<lambda>(_, j). ret j))
    (reports_done T i k r0 (rs @ [(era, slash)])) no_error t"
proof -
  let ?r = "span_record i k t"
  have same: "insp_stash j = insp_stash i" "insp_reward_proportion j = insp_reward_proportion i"
    "span_of (insp_spans j) = span_of (insp_spans i)"
    using so_far by (simp_all add: reports_done_def)
  then have rec_eq: "span_record j k = (span_record i k :: 'b sk_state_scheme \<Rightarrow> SpanRecord)"
    by (simp add: span_record_def fun_eq_iff)
  have covered': "span_of (insp_spans j) era = Some k" using covered same by simp
  show ?thesis
    unfolding wp_bnd
  proof (rule wp_mono [OF wp_compare_and_update [OF covered']], unfold rec_eq same split_beta wp_ret)
    fix x :: "u32 option \<times> InspectingSpans" and u :: "'b sk_state_scheme"
    assume "fst x = Some k \<and> insp_stash (snd x) = insp_stash i \<and>
      insp_reward_proportion (snd x) = insp_reward_proportion i \<and>
      span_of (insp_spans (snd x)) = span_of (insp_spans i) \<and>
      sr_slashed (span_record i k u) = max (sr_slashed ?r) slash \<and>
      insp_slash_of (snd x) - insp_slash_of j = sr_slashed (span_record i k u) - sr_slashed ?r \<and>
      (\<exists>reward. sr_paid_out (span_record i k u) = sr_paid_out ?r + reward \<and>
         insp_paid_out (snd x) = insp_paid_out j + reward \<and>
         (reward = 0 \<or> sr_slashed (span_record i k u) = slash \<and>
            reward = perbill_mul T (REWARD_F1 T)
              (saturating_sub (perbill_mul T (insp_reward_proportion i) slash) (sr_paid_out ?r))))"
    then obtain reward where x: "insp_stash (snd x) = insp_stash i"
      "insp_reward_proportion (snd x) = insp_reward_proportion i" "span_of (insp_spans (snd x)) = span_of (insp_spans i)"
      and slashed: "sr_slashed (span_record i k u) = max (sr_slashed ?r) slash"
      and slash_of: "insp_slash_of (snd x) - insp_slash_of j = sr_slashed (span_record i k u) - sr_slashed ?r"
      and paid: "sr_paid_out (span_record i k u) = sr_paid_out ?r + reward" "insp_paid_out (snd x) = insp_paid_out j + reward"
      and reward: "reward = 0 \<or> sr_slashed (span_record i k u) = slash \<and>
            reward = perbill_mul T (REWARD_F1 T)
              (saturating_sub (perbill_mul T (insp_reward_proportion i) slash) (sr_paid_out ?r))" by blast
    note bound = paid_out_step [OF laws _ slashed paid(1) reward]
    have "insp_slash_of (snd x) - insp_slash_of i = (insp_slash_of (snd x) - insp_slash_of j) + (insp_slash_of j - insp_slash_of i)"
      by simp
    also have "\<dots> = (sr_slashed (span_record i k u) - sr_slashed ?r) + (sr_slashed ?r - sr_slashed r0)"
      using so_far slash_of by (simp add: reports_done_def)
    finally have diff: "insp_slash_of (snd x) - insp_slash_of i = sr_slashed (span_record i k u) - sr_slashed r0" by simp
    have "insp_paid_out (snd x) - insp_paid_out i = reward + (insp_paid_out j - insp_paid_out i)"
      using paid(2) by simp
    also have "\<dots> = reward + (sr_paid_out ?r - sr_paid_out r0)" using so_far by (simp add: reports_done_def)
    finally have "insp_paid_out (snd x) - insp_paid_out i = sr_paid_out (span_record i k u) - sr_paid_out r0"
      using paid(1) by simp
    moreover have "sr_slashed (span_record i k u) = fold max (map snd (rs @ [(era, slash)])) (sr_slashed r0)"
      using so_far slashed by (simp add: reports_done_def max.commute)
    moreover have "sr_paid_out r0 \<le> sr_paid_out (span_record i k u)" "paid_within T (insp_reward_proportion i) (span_record i k u)"
      using so_far bound by (auto simp: reports_done_def)
    ultimately show "reports_done T i k r0 (rs @ [(era, slash)]) (snd x) u"
      using x diff by (simp only: reports_done_def simp_thms)
  qed simp
qed


definition ex_insp :: InspectingSpans where
  "ex_insp = \<lparr>insp_dirty = False, insp_window_start = 3, insp_stash = 30, insp_spans = ex_spans,
     insp_paid_out = 0, insp_slash_of = 0, insp_reward_proportion = 100000000\<rparr>"


end
