(* ===== verification/Staking_Calls.thy ===== *)
theory Staking_Calls
  imports Staking_Slashing
begin

text \<open>
  The extrinsics of the staking pallet (\<open>c-pallets/staking/src/pallet/mod.rs\<close>), in the order of
  the source, after the helpers of \<open>pallet/impls.rs\<close> that they call. Addresses are looked up by a
  parameter. A value that a fallible conversion of the framework refuses is an error as in the source.
\<close>

section \<open>Removal and withdrawal\<close>

definition get_ledger :: "AccountId \<Rightarrow> ('s st_state_scheme, StakingLedger) act" where
  "get_ledger controller = gets_some (\<lambda>s. Ledger s controller) (StErr ST_NotController)"

definition remove_lock :: "'t sk_config_scheme \<Rightarrow> AccountId \<Rightarrow> ('s st_state_scheme, unit) act" where
  "remove_lock T stash' = modify (\<lambda>s. s\<lparr>Locks := cur_remove_lock T stash' (Locks s)\<rparr>)"

definition kill_stash :: "'t sk_config_scheme \<Rightarrow> AccountId \<Rightarrow> u32 \<Rightarrow> ('s sk_state_scheme, unit) act" where
  "kill_stash T stash' num_slashing_spans =
     bnd (gets_some (\<lambda>s. Bonded s stash') (StErr ST_NotStash)) (\<lambda>controller.
     andthen (clear_stash_metadata stash' num_slashing_spans)
    (andthen (modify (Bonded_update (\<lambda>m. m(stash' := None))))
    (andthen (modify (Ledger_update (\<lambda>m. m(controller := None))))
    (andthen (modify (Payee_update (\<lambda>m. m(stash' := None))))
    (andthen (do_remove_validator T stash')
    (andthen (do_remove_nominator T stash')
     (modify (\<lambda>s. s\<lparr>account_consumers := sys_dec_consumers T stash' (account_consumers s)\<rparr>))))))))"

definition do_withdraw_unbonded :: "'t sk_config_scheme \<Rightarrow> AccountId \<Rightarrow> u32 \<Rightarrow> ('s sk_state_scheme, unit) act" where
  "do_withdraw_unbonded T controller num_slashing_spans =
     bnd (get_ledger controller) (\<lambda>l.
     bnd (gets (\<lambda>s. case CurrentEra s of None \<Rightarrow> l | Some current_era \<Rightarrow> consolidate_unlocked current_era l)) (\<lambda>l'.
     andthen (if unlocking l' = [] \<and> stake_active l' < minimum_balance T
              then andthen (kill_stash T (stash l) num_slashing_spans) (remove_lock T (stash l))
              else update_ledger T controller l')
     (act_when (stake_total l' < stake_total l)
        (st_deposit_event (Withdrawn (stash l) (stake_total l - stake_total l'))))))"

section \<open>Bonding\<close>

text \<open>The eras \<open>a..b\<close>.\<close>

definition era_range :: "u32 \<Rightarrow> u32 \<Rightarrow> u32 list" where
  "era_range a b = map of_nat [unat a..<unat b]"

definition era_or_zero :: "'s st_state_scheme \<Rightarrow> u32" where
  "era_or_zero s = (case CurrentEra s of None \<Rightarrow> 0 | Some era \<Rightarrow> era)"

definition bond :: "'t sk_config_scheme \<Rightarrow> origin \<Rightarrow> nat \<Rightarrow> Balance \<Rightarrow> RewardDestination \<Rightarrow> ('s sk_state_scheme, unit) act" where
  "bond T origin controller' v dest =
     bnd (ensure_signed origin) (\<lambda>stash'.
     andthen (ensures (\<lambda>s. \<not> contains_key (Bonded s) stash') (StErr ST_AlreadyBonded))
    (bnd (lift (lookup T controller')) (\<lambda>controller.
     andthen (ensures (\<lambda>s. \<not> contains_key (Ledger s) controller) (StErr ST_AlreadyPaired))
    (andthen (ensure (\<not> v < minimum_balance T) (StErr ST_InsufficientBond))
    (bnd (gets_some (\<lambda>s. sys_inc_consumers T stash' (account_consumers s)) (StErr ST_BadState)) (\<lambda>consumers.
     andthen (modify (\<lambda>s. s\<lparr>account_consumers := consumers\<rparr>))
    (andthen (modify (Bonded_update (\<lambda>m. m(stash' \<mapsto> controller))))
    (andthen (modify (Payee_update (\<lambda>m. m(stash' \<mapsto> dest))))
    (bnd (gets era_or_zero) (\<lambda>current_era.
     let last_reward_era = saturating_sub current_era (HistoryDepth T) in
     bnd (gets (\<lambda>s. free (balances s stash'))) (\<lambda>stash_balance.
     let v = min v stash_balance in
     andthen (st_deposit_event (BondedEvent stash' v))
    (bnd (ok_or (bounded (unat (HistoryDepth T)) (era_range last_reward_era current_era)) (StErr ST_BoundNotMet)) (\<lambda>claimed.
     update_ledger T controller
       \<lparr>stash = stash', stake_total = v, stake_active = v, unlocking = [], claimed_rewards = claimed\<rparr>)))))))))))))"

definition bond_extra :: "'t sk_config_scheme \<Rightarrow> origin \<Rightarrow> Balance \<Rightarrow> ('s sk_state_scheme, unit) act" where
  "bond_extra T origin max_additional =
     bnd (ensure_signed origin) (\<lambda>stash'.
     bnd (gets_some (\<lambda>s. Bonded s stash') (StErr ST_NotStash)) (\<lambda>controller.
     bnd (get_ledger controller) (\<lambda>l.
     bnd (gets (\<lambda>s. free (balances s stash'))) (\<lambda>stash_balance.
     (case checked_sub stash_balance (stake_total l) of
        None \<Rightarrow> ret ()
      | Some extra \<Rightarrow>
          let extra = min extra max_additional;
              l' = l\<lparr>stake_total := stake_total l + extra, stake_active := stake_active l + extra\<rparr>
          in andthen (ensure (stake_active l' \<ge> minimum_balance T) (StErr ST_InsufficientBond))
            (andthen (update_ledger T controller l')
            (andthen (voter_update T stash' (stash l))
             (st_deposit_event (BondedEvent stash' extra)))))))))"

text \<open>The new chunk goes into the last one when that is of the same era.\<close>

definition push_chunk :: "'t sk_config_scheme \<Rightarrow> Balance \<Rightarrow> u32 \<Rightarrow> UnlockChunk list \<Rightarrow> UnlockChunk list option" where
  "push_chunk T v era chunks =
     (if chunks \<noteq> [] \<and> chunk_era (last chunks) = era
      then Some (butlast chunks @ [(last chunks)\<lparr>chunk_value := saturating_add (chunk_value (last chunks)) v\<rparr>])
      else try_push (unat (MaxUnlockingChunks T)) chunks \<lparr>chunk_value = v, chunk_era = era\<rparr>)"

definition min_active_bond :: "'s sk_state_scheme \<Rightarrow> AccountId \<Rightarrow> Balance" where
  "min_active_bond s stash' =
     (if contains_key (Nominators s) stash' then MinNominatorBond s
      else if contains_key (Validators s) stash' then MinValidatorBond s
      else 0)"

text \<open>
  When the chunks are used up, old ones are withdrawn first. The number of slashing spans that is
  passed on is that of entries under the controller, none or one.
\<close>

definition unbond :: "'t sk_config_scheme \<Rightarrow> origin \<Rightarrow> Balance \<Rightarrow> ('s sk_state_scheme, unit) act" where
  "unbond T origin v =
     bnd (ensure_signed origin) (\<lambda>controller.
     bnd (get_ledger controller) (\<lambda>l0.
     bnd (gets (\<lambda>s. if StashSpans s controller = None then 0 else 1)) (\<lambda>real_num_slashing_spans.
     andthen (act_when (length (unlocking l0) = unat (MaxUnlockingChunks T))
                (do_withdraw_unbonded T controller real_num_slashing_spans))
    (bnd (get_ledger controller) (\<lambda>l.
     let v = min v (stake_active l) in
     andthen (ensure (length (unlocking l) < unat (MaxUnlockingChunks T)) (StErr ST_NoMoreChunks))
     (act_when (v \<noteq> 0)
       (let dust = stake_active l - v < minimum_balance T;
            v = (if dust then v + (stake_active l - v) else v);
            active = (if dust then 0 else stake_active l - v)
        in bnd (gets (\<lambda>s. min_active_bond s (stash l))) (\<lambda>min_bond.
           andthen (ensure (active \<ge> min_bond) (StErr ST_InsufficientBond))
          (bnd (gets (\<lambda>s. era_or_zero s + BondingDuration T)) (\<lambda>era.
           bnd (ok_or (push_chunk T v era (unlocking l)) (StErr ST_NoMoreChunks)) (\<lambda>chunks.
           andthen (update_ledger T controller (l\<lparr>stake_active := active, unlocking := chunks\<rparr>))
          (andthen (voter_update T (stash l) (stash l))
           (st_deposit_event (Unbonded (stash l) v))))))))))))))"

definition withdraw_unbonded :: "'t sk_config_scheme \<Rightarrow> origin \<Rightarrow> u32 \<Rightarrow> ('s sk_state_scheme, unit) act" where
  "withdraw_unbonded T origin num_slashing_spans =
     bnd (ensure_signed origin) (\<lambda>controller. do_withdraw_unbonded T controller num_slashing_spans)"

section \<open>Roles\<close>

definition validate :: "'t sk_config_scheme \<Rightarrow> origin \<Rightarrow> ValidatorPrefs \<Rightarrow> ('s sk_state_scheme, unit) act" where
  "validate T origin prefs =
     bnd (ensure_signed origin) (\<lambda>controller.
     bnd (get_ledger controller) (\<lambda>l.
     andthen (ensures (\<lambda>s. stake_active l \<ge> MinValidatorBond s) (StErr ST_InsufficientBond))
    (andthen (ensures (\<lambda>s. commission prefs \<ge> MinCommission s) (StErr ST_CommissionTooLow))
    (andthen (ensures (\<lambda>s. contains_key (Validators s) (stash l) \<or>
         (case MaxValidatorsCount s of None \<Rightarrow> True | Some max_validators \<Rightarrow> map_count (Validators s) < max_validators))
         (StErr ST_TooManyValidators))
    (andthen (do_remove_nominator T (stash l))
    (andthen (do_add_validator T (stash l) prefs)
     (st_deposit_event (ValidatorPrefsSet (stash l) prefs))))))))"

definition nominate_target :: "'t sk_config_scheme \<Rightarrow> AccountId list \<Rightarrow> nat \<Rightarrow> ('s sk_state_scheme, AccountId) act" where
  "nominate_target T old t =
     bnd (lift (lookup T t)) (\<lambda>n.
     andthen (ensures (\<lambda>s. n \<in> set old \<or> \<not> blocked (get_or ValidatorPrefs_default (Validators s) n)) (StErr ST_BadTarget))
     (ret n))"

definition nominate :: "'t sk_config_scheme \<Rightarrow> origin \<Rightarrow> nat list \<Rightarrow> ('s sk_state_scheme, unit) act" where
  "nominate T origin targets =
     bnd (ensure_signed origin) (\<lambda>controller.
     bnd (get_ledger controller) (\<lambda>l.
     andthen (ensures (\<lambda>s. stake_active l \<ge> MinNominatorBond s) (StErr ST_InsufficientBond))
    (andthen (ensures (\<lambda>s. contains_key (Nominators s) (stash l) \<or>
         (case MaxNominatorsCount s of None \<Rightarrow> True | Some max_nominators \<Rightarrow> map_count (Nominators s) < max_nominators))
         (StErr ST_TooManyNominators))
    (andthen (ensure (targets \<noteq> []) (StErr ST_EmptyTargets))
    (andthen (ensure (length targets \<le> unat (MaxNominations T)) (StErr ST_TooManyTargets))
    (bnd (gets (\<lambda>s. case Nominators s (stash l) of None \<Rightarrow> [] | Some n \<Rightarrow> nom_targets n)) (\<lambda>old.
     bnd (fold_act (\<lambda>t found. bnd (nominate_target T old t) (\<lambda>n. ret (found @ [n]))) targets []) (\<lambda>found.
     bnd (ok_or (bounded (unat (MaxNominations T)) found) (StErr ST_TooManyNominators)) (\<lambda>targets.
     bnd (gets era_or_zero) (\<lambda>era.
     andthen (do_remove_validator T (stash l))
     (do_add_nominator T (stash l) \<lparr>nom_targets = targets, submitted_in = era, suppressed = False\<rparr>)))))))))))"

definition chill :: "'t sk_config_scheme \<Rightarrow> origin \<Rightarrow> ('s sk_state_scheme, unit) act" where
  "chill T origin =
     bnd (ensure_signed origin) (\<lambda>controller.
     bnd (get_ledger controller) (\<lambda>l.
     chill_stash T (stash l)))"

definition set_payee :: "'t sk_config_scheme \<Rightarrow> origin \<Rightarrow> RewardDestination \<Rightarrow> ('s sk_state_scheme, unit) act" where
  "set_payee T origin dest =
     bnd (ensure_signed origin) (\<lambda>controller.
     bnd (get_ledger controller) (\<lambda>l.
     modify (Payee_update (\<lambda>m. m(stash l \<mapsto> dest)))))"

definition set_controller :: "'t sk_config_scheme \<Rightarrow> origin \<Rightarrow> nat \<Rightarrow> ('s sk_state_scheme, unit) act" where
  "set_controller T origin controller' =
     bnd (ensure_signed origin) (\<lambda>stash'.
     bnd (gets_some (\<lambda>s. Bonded s stash') (StErr ST_NotStash)) (\<lambda>old_controller.
     bnd (lift (lookup T controller')) (\<lambda>controller.
     andthen (ensures (\<lambda>s. \<not> contains_key (Ledger s) controller) (StErr ST_AlreadyPaired))
     (act_when (controller \<noteq> old_controller)
        (andthen (modify (Bonded_update (\<lambda>m. m(stash' \<mapsto> controller))))
        (bnd (gets (\<lambda>s. Ledger s old_controller)) (\<lambda>found.
         (case found of
            None \<Rightarrow> ret ()
          | Some l \<Rightarrow> modify (Ledger_update (\<lambda>m. m(old_controller := None, controller \<mapsto> l)))))))))))"

section \<open>Administration\<close>

definition set_validator_count :: "'t sk_config_scheme \<Rightarrow> origin \<Rightarrow> u32 \<Rightarrow> ('s sk_state_scheme, unit) act" where
  "set_validator_count T origin new' =
     andthen (ensure_root origin)
    (andthen (ensure (new' \<le> MaxWinners T) (StErr ST_TooManyValidators))
     (modify (\<lambda>s. s\<lparr>ValidatorCount := new'\<rparr>)))"

definition increase_validator_count :: "'t sk_config_scheme \<Rightarrow> origin \<Rightarrow> u32 \<Rightarrow> ('s sk_state_scheme, unit) act" where
  "increase_validator_count T origin additional =
     andthen (ensure_root origin)
    (bnd (gets ValidatorCount) (\<lambda>old.
     bnd (ok_or (checked_add old additional) ArithmeticOverflow) (\<lambda>new'.
     andthen (ensure (new' \<le> MaxWinners T) (StErr ST_TooManyValidators))
     (modify (\<lambda>s. s\<lparr>ValidatorCount := new'\<rparr>)))))"

definition scale_validator_count :: "'t sk_config_scheme \<Rightarrow> origin \<Rightarrow> u8 \<Rightarrow> ('s sk_state_scheme, unit) act" where
  "scale_validator_count T origin factor =
     andthen (ensure_root origin)
    (bnd (gets ValidatorCount) (\<lambda>old.
     bnd (ok_or (checked_add old (percent_mul_floor T factor old)) ArithmeticOverflow) (\<lambda>new'.
     andthen (ensure (new' \<le> MaxWinners T) (StErr ST_TooManyValidators))
     (modify (\<lambda>s. s\<lparr>ValidatorCount := new'\<rparr>)))))"

definition force_no_eras :: "origin \<Rightarrow> ('s sk_state_scheme, unit) act" where
  "force_no_eras origin = andthen (ensure_root origin) (modify (\<lambda>s. s\<lparr>ForceEra := ForceNone\<rparr>))"

definition force_new_era :: "origin \<Rightarrow> ('s sk_state_scheme, unit) act" where
  "force_new_era origin = andthen (ensure_root origin) (modify (\<lambda>s. s\<lparr>ForceEra := ForceNew\<rparr>))"

definition set_invulnerables :: "origin \<Rightarrow> AccountId list \<Rightarrow> ('s sk_state_scheme, unit) act" where
  "set_invulnerables origin invulnerables =
     andthen (ensure_root origin) (modify (\<lambda>s. s\<lparr>Invulnerables := invulnerables\<rparr>))"

definition force_unstake :: "'t sk_config_scheme \<Rightarrow> origin \<Rightarrow> AccountId \<Rightarrow> u32 \<Rightarrow> ('s sk_state_scheme, unit) act" where
  "force_unstake T origin stash' num_slashing_spans =
     andthen (ensure_root origin)
    (andthen (kill_stash T stash' num_slashing_spans)
     (remove_lock T stash'))"

definition force_new_era_always :: "origin \<Rightarrow> ('s sk_state_scheme, unit) act" where
  "force_new_era_always origin = andthen (ensure_root origin) (modify (\<lambda>s. s\<lparr>ForceEra := ForceAlways\<rparr>))"

fun is_sorted_and_unique :: "u32 list \<Rightarrow> bool" where
  "is_sorted_and_unique (a # b # rest) \<longleftrightarrow> a < b \<and> is_sorted_and_unique (b # rest)"
| "is_sorted_and_unique _ \<longleftrightarrow> True"

text \<open>Each removal moves the later slashes up by one.\<close>

fun remove_slashes :: "nat \<Rightarrow> u32 list \<Rightarrow> 'a list \<Rightarrow> 'a list option" where
  "remove_slashes removed [] unapplied = Some unapplied"
| "remove_slashes removed (index # rest) unapplied =
     Option.bind (vec_remove (unat index - removed) unapplied) (remove_slashes (Suc removed) rest)"

definition cancel_deferred_slash :: "'t sk_config_scheme \<Rightarrow> origin \<Rightarrow> u32 \<Rightarrow> u32 list \<Rightarrow> ('s sk_state_scheme, unit) act" where
  "cancel_deferred_slash T origin era slash_indices =
     andthen (ensure (slash_cancel_origin T origin) BadOrigin)
    (andthen (ensure (slash_indices \<noteq> []) (StErr ST_EmptyTargets))
    (andthen (ensure (is_sorted_and_unique slash_indices) (StErr ST_NotSortedAndUnique))
    (bnd (gets (\<lambda>s. get_or [] (UnappliedSlashes s) era)) (\<lambda>unapplied.
     andthen (ensure (unat (last slash_indices) < length unapplied) (StErr ST_InvalidSlashIndex))
    (bnd (ok_or (remove_slashes 0 slash_indices unapplied) Panicked) (\<lambda>unapplied.
     modify (UnappliedSlashes_update (\<lambda>m. m(era \<mapsto> unapplied)))))))))"

definition st_rebond :: "'t sk_config_scheme \<Rightarrow> origin \<Rightarrow> Balance \<Rightarrow> ('s sk_state_scheme, unit) act" where
  "st_rebond T origin v =
     bnd (ensure_signed origin) (\<lambda>controller.
     bnd (get_ledger controller) (\<lambda>l0.
     andthen (ensure (unlocking l0 \<noteq> []) (StErr ST_NoUnlockChunk))
     (case rebond v l0 of
        (l, rebonded_value) \<Rightarrow>
          andthen (ensure (stake_active l \<ge> minimum_balance T) (StErr ST_InsufficientBond))
         (andthen (st_deposit_event (BondedEvent (stash l) rebonded_value))
         (andthen (update_ledger T controller l)
          (voter_update T (stash l) (stash l)))))))"

definition total_balance :: "account_data \<Rightarrow> Balance" where
  "total_balance a = saturating_add (free a) (reserved a)"

definition reap_stash :: "'t sk_config_scheme \<Rightarrow> origin \<Rightarrow> AccountId \<Rightarrow> u32 \<Rightarrow> ('s sk_state_scheme, unit) act" where
  "reap_stash T origin stash' num_slashing_spans =
     bnd (ensure_signed origin) (\<lambda>_.
     let ed = minimum_balance T in
     bnd (gets (\<lambda>s. total_balance (balances s stash') < ed)) (\<lambda>poor.
     bnd (if poor then ret True
          else
            bnd (gets_some (\<lambda>s. Bonded s stash') (StErr ST_NotStash)) (\<lambda>controller.
            gets (\<lambda>s. (case Ledger s controller of None \<Rightarrow> 0 | Some l \<Rightarrow> stake_total l) < ed))) (\<lambda>reapable.
     andthen (ensure reapable (StErr ST_FundedTarget))
    (andthen (kill_stash T stash' num_slashing_spans)
     (remove_lock T stash')))))"

text \<open>\<open>Vec::swap_remove\<close>: the last element takes the place.\<close>

definition swap_remove :: "nat \<Rightarrow> 'a list \<Rightarrow> 'a list" where
  "swap_remove pos xs = (if Suc pos = length xs then butlast xs else (butlast xs)[pos := last xs])"

definition kick_nominator :: "AccountId \<Rightarrow> AccountId \<Rightarrow> ('s sk_state_scheme, unit) act" where
  "kick_nominator stash' nom_stash =
     bnd (gets (\<lambda>s. Nominators s nom_stash)) (\<lambda>maybe_nom.
     (case maybe_nom of
        None \<Rightarrow> ret ()
      | Some nom \<Rightarrow>
          (case first_position (\<lambda>v. v = stash') (nom_targets nom) of
             None \<Rightarrow> ret ()
           | Some pos \<Rightarrow>
               andthen (st_deposit_event (Kicked nom_stash stash'))
               (modify (Nominators_update (\<lambda>m. m(nom_stash \<mapsto> nom\<lparr>nom_targets := swap_remove pos (nom_targets nom)\<rparr>)))))))"

definition kick :: "'t sk_config_scheme \<Rightarrow> origin \<Rightarrow> nat list \<Rightarrow> ('s sk_state_scheme, unit) act" where
  "kick T origin addresses =
     bnd (ensure_signed origin) (\<lambda>controller.
     bnd (get_ledger controller) (\<lambda>l.
     bnd (fold_act (\<lambda>a found. bnd (lift (lookup T a)) (\<lambda>n. ret (found @ [n]))) addresses []) (\<lambda>found.
     for_each (kick_nominator (stash l)) found)))"

definition config_op :: "'v ConfigOp \<Rightarrow> 'w \<Rightarrow> ('v \<Rightarrow> 'w) \<Rightarrow> 'w \<Rightarrow> 'w" where
  "config_op op removed put old = (case op of Noop \<Rightarrow> old | SetOp v \<Rightarrow> put v | RemoveOp \<Rightarrow> removed)"

definition set_staking_configs ::
  "origin \<Rightarrow> Balance ConfigOp \<Rightarrow> Balance ConfigOp \<Rightarrow> u32 ConfigOp \<Rightarrow> u32 ConfigOp \<Rightarrow> u8 ConfigOp \<Rightarrow> u32 ConfigOp
     \<Rightarrow> ('s sk_state_scheme, unit) act" where
  "set_staking_configs origin min_nominator_bond min_validator_bond max_nominator_count max_validator_count
     chill_threshold min_commission =
     andthen (ensure_root origin)
     (modify (\<lambda>s. s\<lparr>MinNominatorBond := config_op min_nominator_bond 0 id (MinNominatorBond s),
        MinValidatorBond := config_op min_validator_bond 0 id (MinValidatorBond s),
        MaxNominatorsCount := config_op max_nominator_count None Some (MaxNominatorsCount s),
        MaxValidatorsCount := config_op max_validator_count None Some (MaxValidatorsCount s),
        ChillThreshold := config_op chill_threshold None Some (ChillThreshold s),
        MinCommission := config_op min_commission 0 id (MinCommission s)\<rparr>))"

definition chill_other :: "'t sk_config_scheme \<Rightarrow> origin \<Rightarrow> AccountId \<Rightarrow> ('s sk_state_scheme, unit) act" where
  "chill_other T origin controller =
     bnd (ensure_signed origin) (\<lambda>caller.
     bnd (get_ledger controller) (\<lambda>l.
     bnd (gets (\<lambda>s. contains_key (Nominators s) (stash l) \<and> Nominators s (stash l) = None)) (\<lambda>undecodable.
     if undecodable then chill_stash T (stash l)
     else andthen (act_when (caller \<noteq> controller)
       (bnd (gets_some ChillThreshold (StErr ST_CannotChillOther)) (\<lambda>threshold.
        bnd (gets (\<lambda>s. contains_key (Nominators s) (stash l))) (\<lambda>nominates.
        bnd (gets (\<lambda>s. contains_key (Validators s) (stash l))) (\<lambda>validates.
        bnd (if nominates then
               bnd (gets_some MaxNominatorsCount (StErr ST_CannotChillOther)) (\<lambda>max_nominator_count.
               andthen (ensures (\<lambda>s. percent_mul T threshold max_nominator_count < map_count (Nominators s)) (StErr ST_CannotChillOther))
               (gets MinNominatorBond))
             else if validates then
               bnd (gets_some MaxValidatorsCount (StErr ST_CannotChillOther)) (\<lambda>max_validator_count.
               andthen (ensures (\<lambda>s. percent_mul T threshold max_validator_count < map_count (Validators s)) (StErr ST_CannotChillOther))
               (gets MinValidatorBond))
             else ret 0) (\<lambda>min_bond.
        ensure (stake_active l < min_bond) (StErr ST_CannotChillOther)))))))
     (chill_stash T (stash l)))))"

definition force_apply_min_commission :: "origin \<Rightarrow> AccountId \<Rightarrow> ('s sk_state_scheme, unit) act" where
  "force_apply_min_commission origin validator_stash =
     andthen (ensure_signed origin)
    (bnd (gets MinCommission) (\<lambda>min_commission.
     try_mutate_some Validators Validators_update validator_stash (StErr ST_NotStash) (\<lambda>prefs.
       ret (if commission prefs < min_commission then prefs\<lparr>commission := min_commission\<rparr> else prefs))))"

section \<open>The interface for other pallets\<close>

text \<open>
  \<open>StakingInterface\<close> calls the extrinsics for a stash. Here \<open>force_unstake\<close> counts the entries of
  spans under the stash, which is none or one.
\<close>

definition if_force_unstake :: "'t sk_config_scheme \<Rightarrow> AccountId \<Rightarrow> ('s sk_state_scheme, unit) act" where
  "if_force_unstake T who =
     bnd (gets (\<lambda>s. if StashSpans s who = None then 0 else 1)) (\<lambda>num_slashing_spans.
     force_unstake T RootOrigin who num_slashing_spans)"

definition stash_by_ctrl :: "AccountId \<Rightarrow> ('s st_state_scheme, AccountId) act" where
  "stash_by_ctrl controller = bnd (get_ledger controller) (\<lambda>l. ret (stash l))"

definition if_bond_extra :: "'t sk_config_scheme \<Rightarrow> AccountId \<Rightarrow> Balance \<Rightarrow> ('s sk_state_scheme, unit) act" where
  "if_bond_extra T who extra = bond_extra T (SignedOrigin who) extra"

definition if_unbond :: "'t sk_config_scheme \<Rightarrow> AccountId \<Rightarrow> Balance \<Rightarrow> ('s sk_state_scheme, unit) act" where
  "if_unbond T who v =
     bnd (gets_some (\<lambda>s. Bonded s who) (StErr ST_NotStash)) (\<lambda>ctrl.
     unbond T (SignedOrigin ctrl) v)"

definition if_chill :: "'t sk_config_scheme \<Rightarrow> AccountId \<Rightarrow> ('s sk_state_scheme, unit) act" where
  "if_chill T who =
     bnd (gets_some (\<lambda>s. Bonded s who) (StErr ST_NotStash)) (\<lambda>ctrl.
     chill T (SignedOrigin ctrl))"

definition if_withdraw_unbonded :: "'t sk_config_scheme \<Rightarrow> AccountId \<Rightarrow> u32 \<Rightarrow> ('s sk_state_scheme, bool) act" where
  "if_withdraw_unbonded T who num_slashing_spans =
     bnd (gets_some (\<lambda>s. Bonded s who) (StErr ST_NotStash)) (\<lambda>ctrl.
     andthen (withdraw_unbonded T (SignedOrigin ctrl) num_slashing_spans)
     (gets (\<lambda>s. \<not> contains_key (Ledger s) ctrl)))"

end
