(* ===== verification/Staking_Eras.thy ===== *)
theory Staking_Eras
  imports Staking_Calls
begin

text \<open>
  Rewards, sessions, eras and offences of the staking pallet
  (\<open>c-pallets/staking/src/pallet/impls.rs\<close>). The result of an election is an argument of the
  functions that ask for one, as is the time.
\<close>

section \<open>Payouts\<close>

text \<open>What a deposit returns: the imbalance, or nothing where the account does not exist.\<close>

definition deposit_creating :: "'t sk_config_scheme \<Rightarrow> AccountId \<Rightarrow> Balance \<Rightarrow> ('s st_state_scheme, Balance option) act" where
  "deposit_creating T a v =
     bnd (gets (\<lambda>s. cur_deposit_creating T a v (balances s))) (\<lambda>(imbalance, bs).
     andthen (modify (\<lambda>s. s\<lparr>balances := bs\<rparr>))
     (ret (Some imbalance)))"

definition deposit_into_existing :: "'t sk_config_scheme \<Rightarrow> AccountId \<Rightarrow> Balance \<Rightarrow> ('s st_state_scheme, Balance option) act" where
  "deposit_into_existing T a v =
     bnd (gets (\<lambda>s. cur_deposit_into_existing T a v (balances s))) (\<lambda>r.
     (case r of
        None \<Rightarrow> ret None
      | Some (imbalance, bs) \<Rightarrow> andthen (modify (\<lambda>s. s\<lparr>balances := bs\<rparr>)) (ret (Some imbalance))))"

definition make_payout :: "'t sk_config_scheme \<Rightarrow> AccountId \<Rightarrow> Balance \<Rightarrow> ('s sk_state_scheme, Balance option) act" where
  "make_payout T stash' v =
     bnd (gets (\<lambda>s. get_or Staked (Payee s) stash')) (\<lambda>dest.
     bnd (gets (\<lambda>s. Bonded s stash')) (\<lambda>bonded.
     (case dest of
        ControllerDest \<Rightarrow> (case bonded of None \<Rightarrow> ret None | Some controller \<Rightarrow> deposit_creating T controller v)
      | StashDest \<Rightarrow> deposit_into_existing T stash' v
      | Staked \<Rightarrow>
          bnd (gets (\<lambda>s. Option.bind bonded (Ledger s))) (\<lambda>found.
          (case found of
             None \<Rightarrow> ret None
           | Some l \<Rightarrow>
               bnd (deposit_into_existing T stash' v) (\<lambda>r.
               andthen (update_ledger T (the bonded)
                 (l\<lparr>stake_active := stake_active l + v, stake_total := stake_total l + v\<rparr>))
               (ret r))))
      | AccountDest a \<Rightarrow> deposit_creating T a v
      | NoDest \<Rightarrow> ret None)))"

text \<open>Pays a staker and reports it; returns the imbalance so far.\<close>

definition pay_staker :: "'t sk_config_scheme \<Rightarrow> AccountId \<Rightarrow> Balance \<Rightarrow> Balance \<Rightarrow> ('s sk_state_scheme, Balance) act" where
  "pay_staker T who v total_imbalance =
     bnd (make_payout T who v) (\<lambda>r.
     (case r of
        None \<Rightarrow> ret total_imbalance
      | Some imbalance \<Rightarrow>
          andthen (st_deposit_event (Rewarded who imbalance))
          (ret (total_imbalance + imbalance))))"

definition claim_era :: "'t sk_config_scheme \<Rightarrow> u32 \<Rightarrow> u32 \<Rightarrow> u32 list \<Rightarrow> ('s, u32 list) act" where
  "claim_era T current_era era claimed =
     (let claimed = filter (\<lambda>x. x \<ge> saturating_sub current_era (HistoryDepth T)) claimed
      in case binary_search era claimed of
           Inr _ \<Rightarrow> throw (StErr ST_AlreadyClaimed)
         | Inl pos \<Rightarrow>
             if length claimed < unat (HistoryDepth T) then ret (vec_insert pos era claimed)
             else throw (StErr ST_BoundNotMet))"

definition do_payout_stakers :: "'t sk_config_scheme \<Rightarrow> AccountId \<Rightarrow> u32 \<Rightarrow> ('s sk_state_scheme, unit) act" where
  "do_payout_stakers T validator_stash era =
     bnd (gets_some CurrentEra (StErr ST_InvalidEraToReward)) (\<lambda>current_era.
     andthen (ensure (era \<le> current_era \<and> era \<ge> saturating_sub current_era (HistoryDepth T)) (StErr ST_InvalidEraToReward))
    (bnd (gets_some (\<lambda>s. ErasValidatorReward s era) (StErr ST_InvalidEraToReward)) (\<lambda>era_payout.
     bnd (gets_some (\<lambda>s. Bonded s validator_stash) (StErr ST_NotStash)) (\<lambda>controller.
     bnd (get_ledger controller) (\<lambda>l.
     bnd (claim_era T current_era era (claimed_rewards l)) (\<lambda>claimed.
     bnd (gets (\<lambda>s. get_or Exposure_default (ErasStakersClipped s) (era, stash l))) (\<lambda>exposure.
     andthen (modify (Ledger_update (\<lambda>m. m(controller \<mapsto> l\<lparr>claimed_rewards := claimed\<rparr>))))
    (bnd (gets (\<lambda>s. get_or EraRewardPoints_default (ErasRewardPoints s) era)) (\<lambda>points.
     let validator_points = get_or 0 (points_individual points) (stash l) in
     act_when (validator_points \<noteq> 0)
       (bnd (gets (\<lambda>s. get_or ValidatorPrefs_default (ErasValidatorPrefs s) (era, validator_stash))) (\<lambda>prefs.
        let part = perbill_from_rational T (ucast validator_points) (ucast (points_total points));
            total_payout = perbill_mul T part era_payout;
            commission_payout = perbill_mul T (commission prefs) total_payout;
            leftover_payout = total_payout - commission_payout;
            staking_payout = perbill_mul T (perbill_from_rational T (exp_own exposure) (exp_total exposure)) leftover_payout
        in andthen (st_deposit_event (PayoutStarted era (stash l)))
          (bnd (pay_staker T (stash l) (staking_payout + commission_payout) 0) (\<lambda>imbalance.
           bnd (fold_act (\<lambda>nominator imbalance.
                  pay_staker T (ie_who nominator)
                    (perbill_mul T (perbill_from_rational T (ie_value nominator) (exp_total exposure)) leftover_payout) imbalance)
                  (exp_others exposure) imbalance) (\<lambda>imbalance.
           modify (\<lambda>s. s\<lparr>balances := reward_on_unbalanced T imbalance (balances s)\<rparr>)))))))))))))))"

definition payout_stakers :: "'t sk_config_scheme \<Rightarrow> origin \<Rightarrow> AccountId \<Rightarrow> u32 \<Rightarrow> ('s sk_state_scheme, unit) act" where
  "payout_stakers T origin validator_stash era =
     andthen (ensure_signed origin) (do_payout_stakers T validator_stash era)"

definition reward_by_ids :: "(AccountId \<times> u32) list \<Rightarrow> ('s sk_state_scheme, unit) act" where
  "reward_by_ids validators_points =
     bnd (gets ActiveEra) (\<lambda>active.
     (case active of
        None \<Rightarrow> ret ()
      | Some active_era \<Rightarrow>
          modify (ErasRewardPoints_update (\<lambda>m. m(era_index active_era \<mapsto>
            fold (\<lambda>(validator, points) r.
                r\<lparr>points_individual := (points_individual r)(validator \<mapsto> get_or 0 (points_individual r) validator + points),
                  points_total := points_total r + points\<rparr>)
              validators_points (get_or EraRewardPoints_default m (era_index active_era)))))))"

definition note_author :: "AccountId \<Rightarrow> ('s sk_state_scheme, unit) act" where
  "note_author author = reward_by_ids [(author, 20)]"

definition note_uncle :: "AccountId option \<Rightarrow> AccountId \<Rightarrow> ('s sk_state_scheme, unit) act" where
  "note_uncle block_author uncle_author =
     (case block_author of None \<Rightarrow> ret () | Some author \<Rightarrow> reward_by_ids [(author, 2), (uncle_author, 1)])"

section \<open>Eras\<close>

definition on_finalize :: "u64 \<Rightarrow> ('s sk_state_scheme, unit) act" where
  "on_finalize now_as_millis =
     modify (\<lambda>s. case ActiveEra s of
       Some active_era \<Rightarrow>
         if era_start active_era = None then s\<lparr>ActiveEra := Some (active_era\<lparr>era_start := Some now_as_millis\<rparr>)\<rparr> else s
     | None \<Rightarrow> s)"

definition rewards_in_era :: "'t sk_config_scheme \<Rightarrow> u32 \<Rightarrow> Balance \<times> Balance" where
  "rewards_in_era T active_era_index =
     (let year_num = min (ucast active_era_index div ERAS_PER_YEAR T) (REWARD_DECREASE_YEARS T);
          decrease = perbill_mul T (REWARD_DECREASE_RATIO T) ^^ unat year_num
      in (decrease (FIRST_YEAR_VALIDATOR_REWARDS T) div ucast (ERAS_PER_YEAR T),
          decrease (FIRST_YEAR_SMINER_REWARDS T) div ucast (ERAS_PER_YEAR T)))"

definition end_era :: "'t sk_config_scheme \<Rightarrow> ActiveEraInfo \<Rightarrow> ('s sk_state_scheme, unit) act" where
  "end_era T active_era =
     (case era_start active_era of
        None \<Rightarrow> ret ()
      | Some _ \<Rightarrow>
          (case rewards_in_era T (era_index active_era) of
             (validator_payout, sminer_payout) \<Rightarrow>
               andthen (st_deposit_event (EraPaid (era_index active_era) validator_payout sminer_payout))
              (andthen (modify (ErasValidatorReward_update (\<lambda>m. m(era_index active_era \<mapsto> validator_payout))))
              (andthen (act_when (sminer_payout \<noteq> 0) (on_nonzero_unbalanced T sminer_payout))
               (modify (\<lambda>s. s\<lparr>OffendingValidators := []\<rparr>))))))"

definition apply_unapplied_slashes :: "'t sk_config_scheme \<Rightarrow> u32 \<Rightarrow> ('s sk_state_scheme, unit) act" where
  "apply_unapplied_slashes T active_era =
     bnd (gets (\<lambda>s. get_or [] (UnappliedSlashes s) active_era)) (\<lambda>era_slashes.
     andthen (modify (UnappliedSlashes_update (\<lambda>m. m(active_era := None))))
     (for_each (\<lambda>slash. apply_slash T slash (saturating_sub active_era (SlashDeferDuration T))) era_slashes))"

definition start_era :: "'t sk_config_scheme \<Rightarrow> u32 \<Rightarrow> ('s sk_state_scheme, unit) act" where
  "start_era T start_session' =
     bnd (gets (\<lambda>s. case ActiveEra s of None \<Rightarrow> 0 | Some info \<Rightarrow> era_index info + 1)) (\<lambda>active_era.
     andthen (modify (\<lambda>s. s\<lparr>ActiveEra := Some \<lparr>era_index = active_era, era_start = None\<rparr>\<rparr>))
    (bnd (gets (\<lambda>s. BondedEras s @ [(active_era, start_session')])) (\<lambda>bonded.
     andthen (if active_era > BondingDuration T then
                let first_kept = active_era - BondingDuration T;
                    pruned = takeWhile (\<lambda>(era, _). era < first_kept) bonded;
                    kept' = dropWhile (\<lambda>(era, _). era < first_kept) bonded
                in andthen (for_each (\<lambda>(era, _). clear_era_metadata era) pruned)
                  (andthen (act_when (kept' \<noteq> [])
                     (modify (\<lambda>s. s\<lparr>session_state := session_prune T (snd (hd kept')) (session_state s)\<rparr>)))
                   (modify (\<lambda>s. s\<lparr>BondedEras := kept'\<rparr>)))
              else modify (\<lambda>s. s\<lparr>BondedEras := bonded\<rparr>))
     (apply_unapplied_slashes T active_era))))"

definition clear_era_information :: "u32 \<Rightarrow> ('s sk_state_scheme, unit) act" where
  "clear_era_information era =
     modify (\<lambda>s. s\<lparr>ErasStakers := remove_prefix (ErasStakers s) era,
       ErasStakersClipped := remove_prefix (ErasStakersClipped s) era,
       ErasValidatorPrefs := remove_prefix (ErasValidatorPrefs s) era,
       ErasValidatorReward := (ErasValidatorReward s)(era := None),
       ErasRewardPoints := (ErasRewardPoints s)(era := None),
       ErasTotalStake := (ErasTotalStake s)(era := None),
       ErasStartSessionIndex := (ErasStartSessionIndex s)(era := None)\<rparr>)"

section \<open>The voters and targets of an election\<close>

definition NPOS_MAX_ITERATIONS_COEFFICIENT :: u32 where
  "NPOS_MAX_ITERATIONS_COEFFICIENT = 2"

text \<open>
  The loop over the voter list: the voters that are left, the number seen, the voters taken and the
  least stake of a nominator so far. It only reads the state.
\<close>

fun npos_voters ::
  "'t sk_config_scheme \<Rightarrow> 's sk_state_scheme \<Rightarrow> nat \<Rightarrow> AccountId list \<Rightarrow> u32
     \<Rightarrow> (AccountId \<times> u64 \<times> AccountId list) list \<Rightarrow> u64 \<Rightarrow> (AccountId \<times> u64 \<times> AccountId list) list \<times> u64" where
  "npos_voters T s max_allowed_len [] voters_seen all_voters min_active_stake = (all_voters, min_active_stake)"
| "npos_voters T s max_allowed_len (voter # rest) voters_seen all_voters min_active_stake =
     (if length all_voters < max_allowed_len \<and> voters_seen < NPOS_MAX_ITERATIONS_COEFFICIENT * of_nat max_allowed_len
      then
        let seen = saturating_add voters_seen 1; voter_weight = weight_of T s voter
        in case Nominators s voter of
             Some nominations \<Rightarrow>
               npos_voters T s max_allowed_len rest seen
                 (if nom_targets nominations \<noteq> [] then all_voters @ [(voter, voter_weight, nom_targets nominations)]
                  else all_voters)
                 (if voter_weight < min_active_stake then voter_weight else min_active_stake)
           | None \<Rightarrow>
               npos_voters T s max_allowed_len rest seen
                 (if contains_key (Validators s) voter then all_voters @ [(voter, voter_weight, [voter])] else all_voters)
                 min_active_stake
      else (all_voters, min_active_stake))"

definition get_npos_voters ::
  "'t sk_config_scheme \<Rightarrow> nat option \<Rightarrow> ('s sk_state_scheme, (AccountId \<times> u64 \<times> AccountId list) list) act" where
  "get_npos_voters T maybe_max_len =
     bnd (gets (\<lambda>s.
       let all_voter_count = unat (len_as (voter_list s) :: u32);
           max_allowed_len = min (case maybe_max_len of None \<Rightarrow> all_voter_count | Some n \<Rightarrow> n) all_voter_count
       in npos_voters T s max_allowed_len (map fst (voter_list s)) 0 [] (- 1))) (\<lambda>(all_voters, min_active_stake).
     andthen (modify (\<lambda>s. s\<lparr>MinimumActiveStake := (if all_voters = [] then 0 else ucast min_active_stake)\<rparr>))
     (ret all_voters))"

text \<open>The runtime's list of targets is the map of validators (\<open>UseValidatorsMap\<close>).\<close>

definition target_iter :: "'t sk_config_scheme \<Rightarrow> 's sk_state_scheme \<Rightarrow> AccountId list" where
  "target_iter T s = iter_keys T (dom (Validators s))"

definition target_count :: "'s sk_state_scheme \<Rightarrow> u32" where
  "target_count s = map_count (Validators s)"

fun npos_targets :: "'s sk_state_scheme \<Rightarrow> nat \<Rightarrow> AccountId list \<Rightarrow> u32 \<Rightarrow> AccountId list \<Rightarrow> AccountId list" where
  "npos_targets s max_allowed_len [] targets_seen all_targets = all_targets"
| "npos_targets s max_allowed_len (target # rest) targets_seen all_targets =
     (if length all_targets < max_allowed_len \<and> targets_seen < NPOS_MAX_ITERATIONS_COEFFICIENT * of_nat max_allowed_len
      then npos_targets s max_allowed_len rest (saturating_add targets_seen 1)
             (if contains_key (Validators s) target then all_targets @ [target] else all_targets)
      else all_targets)"

definition get_npos_targets :: "'t sk_config_scheme \<Rightarrow> nat option \<Rightarrow> ('s sk_state_scheme, AccountId list) act" where
  "get_npos_targets T maybe_max_len =
     gets (\<lambda>s.
       let max_allowed_len = (case maybe_max_len of None \<Rightarrow> unat (target_count s) | Some n \<Rightarrow> n)
       in npos_targets s max_allowed_len (target_iter T s) 0 [])"

definition desired_targets :: "('s sk_state_scheme, u32) act" where
  "desired_targets = gets ValidatorCount"

text \<open>\<open>None\<close> is the error that the snapshot is too big.\<close>

definition electable_targets :: "'t sk_config_scheme \<Rightarrow> nat option \<Rightarrow> ('s sk_state_scheme, AccountId list option) act" where
  "electable_targets T maybe_max_len =
     bnd (gets (\<lambda>s. case maybe_max_len of None \<Rightarrow> False | Some max_len \<Rightarrow> target_count s > of_nat max_len)) (\<lambda>big.
     if big then ret None else bnd (get_npos_targets T None) (\<lambda>targets. ret (Some targets)))"

section \<open>Elections\<close>

type_synonym supports = "(AccountId \<times> (AccountId \<times> u128) list) list"

definition collect_exposure :: "'t sk_config_scheme \<Rightarrow> Balance \<Rightarrow> AccountId \<Rightarrow> (AccountId \<times> u128) list \<Rightarrow> Exposure" where
  "collect_exposure T issuance validator voters =
     fold (\<lambda>(nominator, weight) e.
       let stake = to_currency T weight issuance;
           e = (if nominator = validator then e\<lparr>exp_own := saturating_add (exp_own e) stake\<rparr>
                else e\<lparr>exp_others := exp_others e @ [\<lparr>ie_who = nominator, ie_value = stake\<rparr>]\<rparr>)
       in e\<lparr>exp_total := saturating_add (exp_total e) stake\<rparr>) voters Exposure_default"

definition collect_exposures :: "'t sk_config_scheme \<Rightarrow> Balance \<Rightarrow> supports \<Rightarrow> (AccountId \<times> Exposure) list" where
  "collect_exposures T issuance supports' =
     map (\<lambda>(validator, voters). (validator, collect_exposure T issuance validator voters)) supports'"

text \<open>The stable sort by falling value: a larger value has a smaller complement.\<close>

definition clip_exposure :: "'t sk_config_scheme \<Rightarrow> Exposure \<Rightarrow> Exposure" where
  "clip_exposure T e =
     (let clipped_max_len = unat (MaxNominatorRewardedPerValidator T)
      in if length (exp_others e) > clipped_max_len
         then e\<lparr>exp_others := take clipped_max_len (sort_key (\<lambda>i. - 1 - ie_value i) (exp_others e))\<rparr>
         else e)"

definition store_stakers_info :: "'t sk_config_scheme \<Rightarrow> (AccountId \<times> Exposure) list \<Rightarrow> u32 \<Rightarrow> ('s sk_state_scheme, AccountId list) act" where
  "store_stakers_info T exposures new_planned_era =
     (let elected_stashes = map fst exposures in
      bnd (fold_act (\<lambda>(stash', exposure) total_stake.
             andthen (modify (ErasStakers_update (\<lambda>m. m((new_planned_era, stash') \<mapsto> exposure))))
            (andthen (modify (ErasStakersClipped_update (\<lambda>m. m((new_planned_era, stash') \<mapsto> clip_exposure T exposure))))
             (ret (saturating_add total_stake (exp_total exposure))))) exposures 0) (\<lambda>total_stake.
      andthen (modify (ErasTotalStake_update (\<lambda>m. m(new_planned_era \<mapsto> total_stake))))
     (andthen (for_each (\<lambda>stash'.
         modify (\<lambda>s. s\<lparr>ErasValidatorPrefs := (ErasValidatorPrefs s)((new_planned_era, stash') \<mapsto>
           get_or ValidatorPrefs_default (Validators s) stash')\<rparr>)) elected_stashes)
      (ret elected_stashes))))"

definition trigger_new_era :: "'t sk_config_scheme \<Rightarrow> u32 \<Rightarrow> (AccountId \<times> Exposure) list \<Rightarrow> ('s sk_state_scheme, AccountId list) act" where
  "trigger_new_era T start_session_index exposures =
     bnd (gets (\<lambda>s. case CurrentEra s of None \<Rightarrow> 0 | Some era \<Rightarrow> era + 1)) (\<lambda>new_planned_era.
     andthen (modify (\<lambda>s. s\<lparr>CurrentEra := Some new_planned_era\<rparr>))
    (andthen (modify (ErasStartSessionIndex_update (\<lambda>m. m(new_planned_era \<mapsto> start_session_index))))
    (andthen (case checked_sub new_planned_era (HistoryDepth T + 1) of
                None \<Rightarrow> ret ()
              | Some old_era \<Rightarrow> clear_era_information old_era)
     (store_stakers_info T exposures new_planned_era))))"

definition try_trigger_new_era ::
  "'t sk_config_scheme \<Rightarrow> supports option \<Rightarrow> u32 \<Rightarrow> ('s sk_state_scheme, AccountId list option) act" where
  "try_trigger_new_era T elected start_session_index =
     (case elected of
        None \<Rightarrow> andthen (st_deposit_event StakingElectionFailed) (ret None)
      | Some election_result \<Rightarrow>
          bnd (gets (\<lambda>s. collect_exposures T (cur_total_issuance T (balances s)) election_result)) (\<lambda>exposures.
          bnd (gets (\<lambda>s. len_as exposures < max (MinimumValidatorCount s) 1)) (\<lambda>few.
          if few
          then andthen (modify (\<lambda>s. case CurrentEra s of
                   None \<Rightarrow> s\<lparr>CurrentEra := Some 0, ErasStartSessionIndex := (ErasStartSessionIndex s)(0 \<mapsto> start_session_index)\<rparr>
                 | Some _ \<Rightarrow> s))
              (andthen (st_deposit_event StakingElectionFailed)
               (ret None))
          else andthen (st_deposit_event StakersElected)
              (bnd (trigger_new_era T start_session_index exposures) (\<lambda>elected.
               ret (Some elected))))))"

section \<open>Sessions\<close>

definition plan_session :: "'t sk_config_scheme \<Rightarrow> supports option \<Rightarrow> u32 \<Rightarrow> ('s sk_state_scheme, AccountId list option) act" where
  "plan_session T elected session_index =
     bnd (gets CurrentEra) (\<lambda>current.
     (case current of
        None \<Rightarrow> try_trigger_new_era T elected session_index
      | Some current_era \<Rightarrow>
          bnd (gets (\<lambda>s. get_or 0 (ErasStartSessionIndex s) current_era)) (\<lambda>current_era_start_session_index.
          bnd (gets ForceEra) (\<lambda>forcing.
          let era_length = saturating_sub session_index current_era_start_session_index in
          if forcing = ForceNew \<or> forcing = ForceAlways \<or> forcing = NotForcing \<and> era_length \<ge> SessionsPerEra T
          then bnd (try_trigger_new_era T elected session_index) (\<lambda>validators.
               bnd (gets ForceEra) (\<lambda>forcing'.
               andthen (act_when (validators \<noteq> None \<and> forcing' = ForceNew) (modify (\<lambda>s. s\<lparr>ForceEra := NotForcing\<rparr>)))
               (ret validators)))
          else ret None))))"

definition new_session :: "'t sk_config_scheme \<Rightarrow> supports option \<Rightarrow> u32 \<Rightarrow> ('s sk_state_scheme, AccountId list option) act" where
  "new_session T elected new_index =
     andthen (modify (\<lambda>s. s\<lparr>CurrentPlannedSession := new_index\<rparr>))
     (plan_session T elected new_index)"

definition start_session :: "'t sk_config_scheme \<Rightarrow> u32 \<Rightarrow> ('s sk_state_scheme, unit) act" where
  "start_session T start_session' =
     bnd (gets (\<lambda>s. case ActiveEra s of None \<Rightarrow> 0 | Some e \<Rightarrow> era_index e + 1)) (\<lambda>next_active_era.
     bnd (gets (\<lambda>s. ErasStartSessionIndex s next_active_era)) (\<lambda>found.
     andthen (case found of
                None \<Rightarrow> ret ()
              | Some next_start \<Rightarrow> act_when (next_start \<le> start_session') (start_era T start_session'))
    (bnd (gets OffendingValidators) (\<lambda>offending.
     for_each (\<lambda>(index, disabled). act_when disabled
       (modify (\<lambda>s. s\<lparr>session_state := session_disable T index (session_state s)\<rparr>))) offending))))"

definition end_session :: "'t sk_config_scheme \<Rightarrow> u32 \<Rightarrow> ('s sk_state_scheme, unit) act" where
  "end_session T session_index =
     bnd (gets ActiveEra) (\<lambda>active.
     (case active of
        None \<Rightarrow> ret ()
      | Some active_era \<Rightarrow>
          bnd (gets (\<lambda>s. ErasStartSessionIndex s (era_index active_era + 1))) (\<lambda>found.
          (case found of
             None \<Rightarrow> ret ()
           | Some next_start \<Rightarrow> act_when (next_start = session_index + 1) (end_era T active_era)))))"

text \<open>The manager of the historical session pallet, which is told the exposures too.\<close>

definition historical_new_session ::
  "'t sk_config_scheme \<Rightarrow> supports option \<Rightarrow> u32 \<Rightarrow> ('s sk_state_scheme, (AccountId \<times> Exposure) list option) act" where
  "historical_new_session T elected new_index =
     bnd (new_session T elected new_index) (\<lambda>validators.
     (case validators of
        None \<Rightarrow> ret None
      | Some validators \<Rightarrow>
          gets (\<lambda>s. Some (map (\<lambda>v. (v, get_or Exposure_default (ErasStakers s) (era_or_zero s, v))) validators))))"

section \<open>Offences\<close>

record OffenceDetails =
  od_offender :: "AccountId \<times> Exposure"
  od_reporters :: "AccountId list"

text \<open>One offender, with the fraction to slash.\<close>

definition punish_offender ::
  "'t sk_config_scheme \<Rightarrow> AccountId list \<Rightarrow> u32 \<Rightarrow> u32 \<Rightarrow> u32 \<Rightarrow> u32 \<Rightarrow> DisableStrategy \<Rightarrow> OffenceDetails \<times> u32 \<Rightarrow> ('s sk_state_scheme, unit) act" where
  "punish_offender T invulnerables reward_proportion slash_era window_start active_era disable_strategy offence =
     (case offence of (details, slash_fraction) \<Rightarrow>
      let (stash', exposure) = od_offender details in
      act_when (stash' \<notin> set invulnerables)
        (bnd (compute_slash T \<lparr>p_stash = stash', p_slash = slash_fraction, p_exposure = exposure, p_slash_era = slash_era,
                p_window_start = window_start, p_now = active_era, p_reward_proportion = reward_proportion,
                p_disable_strategy = disable_strategy\<rparr>) (\<lambda>unapplied.
         andthen (st_deposit_event (SlashReported stash' slash_fraction slash_era))
         (case unapplied of
            None \<Rightarrow> ret ()
          | Some u \<Rightarrow>
              let u = u\<lparr>us_reporters := od_reporters details\<rparr> in
              if SlashDeferDuration T = 0 then apply_slash T u slash_era
              else modify (UnappliedSlashes_update (\<lambda>m.
                     let era = saturating_add (saturating_add slash_era (SlashDeferDuration T)) 1
                     in m(era \<mapsto> get_or [] m era @ [u])))))))"

definition on_offence ::
  "'t sk_config_scheme \<Rightarrow> OffenceDetails list \<Rightarrow> u32 list \<Rightarrow> u32 \<Rightarrow> DisableStrategy \<Rightarrow> ('s sk_state_scheme, unit) act" where
  "on_offence T offenders slash_fraction slash_session disable_strategy =
     bnd (gets SlashRewardFraction) (\<lambda>reward_proportion.
     bnd (gets ActiveEra) (\<lambda>active.
     (case active of
        None \<Rightarrow> ret ()
      | Some info \<Rightarrow>
          let active_era = era_index info;
              window_start = saturating_sub active_era (BondingDuration T)
          in bnd (gets (\<lambda>s. get_or 0 (ErasStartSessionIndex s) active_era)) (\<lambda>active_era_start.
             bnd (gets (\<lambda>s. if slash_session \<ge> active_era_start then Some active_era
                    else map_option fst (find (\<lambda>(_, sesh). sesh \<le> slash_session) (rev (BondedEras s))))) (\<lambda>found.
             (case found of
                None \<Rightarrow> ret ()
              | Some slash_era \<Rightarrow>
                  bnd (gets Invulnerables) (\<lambda>invulnerables.
                  for_each (punish_offender T invulnerables reward_proportion slash_era window_start active_era disable_strategy)
                    (zip offenders slash_fraction))))))))"

text \<open>\<open>FilterHistoricalOffences\<close>: whether a report is passed on to the inner handler.\<close>

definition report_offence :: "u32 \<Rightarrow> ('s sk_state_scheme, bool) act" where
  "report_offence offence_session =
     bnd (gets BondedEras) (\<lambda>bonded_eras.
     if bonded_eras \<noteq> [] \<and> offence_session \<ge> snd (hd bonded_eras) then ret True
     else andthen (st_deposit_event (OldSlashingReportDiscarded offence_session)) (ret False))"

section \<open>The checks of the state\<close>

text \<open>\<open>do_try_state\<close> and what it calls, as predicates: which error is reported does not matter.\<close>

definition ensure_ledger_consistent :: "'s st_state_scheme \<Rightarrow> AccountId \<Rightarrow> bool" where
  "ensure_ledger_consistent s ctrl \<longleftrightarrow>
     (case Ledger s ctrl of
        None \<Rightarrow> False
      | Some l \<Rightarrow> fold (\<lambda>c a. a + chunk_value c) (unlocking l) (stake_active l) = stake_total l)"

definition check_ledgers :: "'s st_state_scheme \<Rightarrow> bool" where
  "check_ledgers s \<longleftrightarrow> (\<forall>ctrl \<in> ran (Bonded s). ensure_ledger_consistent s ctrl)"

definition check_count :: "'t sk_config_scheme \<Rightarrow> 's sk_state_scheme \<Rightarrow> bool" where
  "check_count T s \<longleftrightarrow>
     len_as (voter_list s) = map_count (Nominators s) + map_count (Validators s) \<and>
     target_count s = map_count (Validators s) \<and> ValidatorCount s \<le> MaxWinners T"

definition check_exposure :: "Exposure \<Rightarrow> bool" where
  "check_exposure e \<longleftrightarrow> exp_total e = exp_own e + fold (\<lambda>x acc. acc + ie_value x) (exp_others e) 0"

definition check_voters :: "'s sk_state_scheme \<Rightarrow> bool" where
  "check_voters s \<longleftrightarrow>
     list_all (\<lambda>(x, _). contains_key (Nominators s) x \<or> contains_key (Validators s) x) (voter_list s)"

end
