(* ===== verification/Spec2Isabelle.thy ===== *)
theory Spec2Isabelle
  imports Cacher Tee_Worker File_Bank_Repair Audit_Props Staking_Eras
begin

text \<open>
  CESS is a blockchain for storage. Users lease space (storage-handler) and store files in it
  (file-bank); storage miners (sminer) put up collateral and space and are rewarded; workers in
  trusted execution environments (tee-worker) certify fragments and check proofs, after an
  attestation report has been verified (enclave-verify, over the vendored libraries webpki and
  ring); validators challenge the miners to prove that they keep what they were given (audit);
  scheduler-credit scores the workers, staking holds and slashes the stake of validators and
  workers, cacher and oss are directories of gateways. This development models these parts and
  proves what makes them correct. Paths below are relative to \<open>src/\<close>.

  \<^bold>\<open>How the model is built.\<close> A pallet's extrinsics, hooks and trait functions are actions: functions
  of the chain state that return a result or an error together with the state they leave behind
  (\<open>Dispatch\<close>). An error does not undo earlier writes, except under \<open>transactional\<close>; a panic is the
  error \<open>Panicked\<close>. The state is one record that each pallet extends by its storage, the
  configuration \<open>T\<close> one record that each pallet extends by the constants and the external operations
  of its \<open>Config\<close> trait. Integers are words of the width the runtime gives them, with checked,
  saturating and wrapping operations as in the source (\<open>Prelude\<close>). Reasoning is by weakest
  preconditions (\<open>wp_rules\<close>) or by inversion of successful runs (\<open>run_inv\<close>).

  \<^bold>\<open>External code\<close> is a parameter. The balances pallet, the fixed-point types and the order of
  storage iteration are fields of \<open>config\<close> (\<open>Chain\<close>), with what the pallets rely on stated by
  \<open>currency_laws\<close>, \<open>perbill_laws\<close> and \<open>iter_laws\<close>; locks, the sorted list of voters and rounding
  are fields of the staking configuration with \<open>lock_laws\<close>, \<open>voter_laws\<close> and \<open>perbill_mul_laws\<close>;
  hashing, randomness, signatures, base64, the scheduler and the session pallet are fields of the
  configurations that use them. A reference instance (\<open>ref_ext\<close>, \<open>sh_conf\<close>, ...) satisfies the laws and
  runs the examples. The readers of the crate \<open>untrusted\<close> are functions on the bytes that are left
  (\<open>Reader\<close>), as its documentation has it.

  \<^bold>\<open>The theories.\<close>
  \<^item> \<open>Prelude\<close>, \<open>Dispatch\<close>, \<open>Chain\<close>: words, actions and their calculus, sums over storage maps, the
    laws of the external code, and the constants of \<open>primitives/common\<close>.
  \<^item> \<open>Storage_Handler\<close> (\<open>c-pallets/storage-handler\<close>): leases of space. The parts of a lease add up
    and the purchased space is the sum of the leases in every reachable state; buying, renewal,
    locking and expiry do what they should; what releasing a file forgets. The locale \<open>space_ledger\<close>
    states what a deal relies on of space that is locked and settled; it is interpreted for leases
    here and for miners in \<open>Sminer_Props\<close>.
  \<^item> \<open>Oss\<close>, \<open>Cacher\<close> (\<open>c-pallets/oss\<close>, \<open>c-pallets/cacher\<close>): authorisation follows the owner's own
    calls (locale \<open>oss_find_author\<close>); bills are paid exactly or not at all.
  \<^item> \<open>Sminer\<close>, \<open>Sminer_Props\<close> (\<open>c-pallets/sminer\<close>): registration, collateral, rewards and
    punishments. The reward pot covers what it owes, collateral is backed by reserved balance, a reward
    order releases its shares one by one.
  \<^item> \<open>Staking\<close>, \<open>Staking_Pallet\<close>, \<open>Staking_Slashing\<close> (\<open>c-pallets/staking\<close>: \<open>lib.rs\<close>,
    \<open>pallet/mod.rs\<close>, \<open>pallet/impls.rs\<close>, \<open>slashing.rs\<close>): ledgers, the maps of validators and
    nominators with the list of voters, slashing spans and slashes. A ledger's total stays the sum of
    its parts; spans partition the eras; reports within a span slash for the largest of them.
  \<^item> \<open>Scheduler_Credit\<close> (\<open>c-pallets/scheduler-credit\<close>): counters, credit values and scores, their bounds
    and the end of a period.
  \<^item> \<open>Reader\<close>, \<open>Ring_Der\<close> (\<open>utils/ring/src/io\<close>): DER, read and written; the reader accepts
    exactly what the writer produces.
  \<^item> \<open>Webpki_Der\<close>, \<open>Webpki_Cert\<close>, \<open>Webpki_Name\<close>, \<open>Webpki_Dns\<close>, \<open>Webpki_Verify\<close>, \<open>Webpki_Chain\<close>
    (\<open>utils/webpki\<close>): times, certificates, names and chains. Dates are read as the calendar has them;
    the signature of a certificate covers all that is read from it; the automaton for DNS names
    accepts the well-formed ones and names match by labels; a server certificate is accepted exactly
    if there is a chain to a trust anchor; nothing panics.
  \<^item> \<open>Enclave_Verify\<close> (\<open>primitives/enclave-verify\<close>) and \<open>Tee_Worker\<close> (\<open>c-pallets/tee-worker\<close>): an
    attestation report is accepted only with a certificate of the attestation service; the PoDR2 key
    is there exactly while there is a worker (locale \<open>schedule_find\<close>).
  \<^item> \<open>File_Bank_Types\<close>, \<open>File_Bank_Functions\<close>, \<open>File_Bank\<close> (\<open>c-pallets/file-bank\<close>: \<open>types.rs\<close>,
    \<open>functions.rs\<close>, \<open>lib.rs\<close>): the model. \<open>File_Bank_Deals\<close>, \<open>File_Bank_Props\<close>,
    \<open>File_Bank_Storage\<close>, \<open>File_Bank_Repair\<close>: the choice of miners, a deal from its declaration to
    storage or failure, restoral orders, deletion and cleaning.
  \<^item> \<open>Audit_Pallet\<close>, \<open>Audit_Offchain\<close>, \<open>Audit_Props\<close> (\<open>c-pallets/audit\<close>): proposals, proofs and
    verdicts, the offchain worker; in the code as it is no challenge comes about.
  \<^item> this theory: properties that span components.

  \<^bold>\<open>Bounds and loops.\<close> Loops over lists are recursion on the list. The search for a chain of
  certificates ends because a CA certificate counts towards a limit of six (\<open>build_chain\<close> is
  shown to terminate without fuel). The loops of the offchain worker that draw random numbers need
  not end; they are partial functions whose value \<open>None\<close> is a loop that does not end.

  \<^bold>\<open>Not modelled.\<close> Weights, benchmarks, migrations, mocks and genesis building: no behaviour of calls
  depends on them, or they run once. Of staking, the extrinsics, the eras, elections and
  payouts. Of webpki, the function that prints trust anchors as Rust source. Of ring, the
  cryptography, mostly C and assembly, which is a parameter; verify-bls-signatures likewise wraps an
  external pairing library. The node (command line, networking, RPC) is input and output around
  external crates, the runtime the configuration of the pallets, apart from
  \<open>find_stash_account_id\<close>.
\<close>

section \<open>A dead lease\<close>


definition ex_dead :: fb_state where
  "ex_dead = ex_fb\<lparr>UserOwnedSpace := [20 \<mapsto> ex_lease\<lparr>lease_state := SPACE_DEAD, deadline := 10\<rparr>]\<rparr>"


end
